theory Spec2Isabelle
  imports Main "HOL-Library.AList" "HOL-Library.Sublist"
begin

section \<open>Data model of controller/stackset.go\<close>

text \<open>
  A shallow embedding of the StackSet controller. Go maps that the code only looks up,
  stores into and deletes from (annotations, labels) are partial functions wrapped in
  an option, \<open>None\<close> being Go's nil map. Go maps that the code ranges over (the
  watched store, the container index, the stack containers of one StackSet) are
  association lists: the order of the list is the order in which one run of
  \<open>range\<close> visits the entries, and every theorem holds for every order.
  Pointers to freshly built containers are modelled by value: each container is
  reachable through exactly one map entry, so an update through the pointer is an
  update of that entry.
\<close>

type_synonym UID = string
type_synonym gomap = "(string \<rightharpoonup> string) option"

text \<open>Durations are int64 nanoseconds; instants are nanoseconds since the Unix epoch.\<close>
type_synonym Duration = int
type_synonym Time = int

definition lookup :: "gomap \<Rightarrow> string \<Rightarrow> string option" where
  "lookup m k = (case m of None \<Rightarrow> None | Some f \<Rightarrow> f k)"



record OwnerReference =
  OwnerUID :: UID

record ObjectMeta =
  Name :: string
  Namespace :: string
  UID :: UID
  Annotations :: gomap
  Labels :: gomap
  OwnerReferences :: "OwnerReference list"

text \<open>Every API object: TypeMeta, ObjectMeta, and a payload the controller does not open.\<close>
record ('spec, 'status) Object =
  APIVersion :: string
  Kind :: string
  Meta :: ObjectMeta
  Spec :: 'spec
  Status :: 'status

datatype IngressSpec = IngressSpec string
datatype RouteGroupSpec = RouteGroupSpec string
datatype DeploymentSpec = DeploymentSpec string
datatype ServiceSpec = ServiceSpec string
datatype HPASpec = HPASpec string
datatype ConfigMapData = ConfigMapData string
datatype SecretData = SecretData string
datatype PCSSpec = PCSSpec string

type_synonym Ingress = "(IngressSpec, unit) Object"
type_synonym RouteGroup = "(RouteGroupSpec, unit) Object"
type_synonym Deployment = "(DeploymentSpec, unit) Object"
type_synonym Service = "(ServiceSpec, unit) Object"
type_synonym HPA = "(HPASpec, unit) Object"
type_synonym ConfigMap = "(ConfigMapData, unit) Object"
type_synonym Secret = "(SecretData, unit) Object"
type_synonym PlatformCredentialsSet = "(PCSSpec, unit) Object"

datatype ConfigurationResourcesSpec = ConfigurationResourcesSpec (GetName: string)

record StackSpec =
  ConfigurationResources :: "ConfigurationResourcesSpec list"

datatype StackStatus = StackStatus string

type_synonym Stack = "(StackSpec, StackStatus) Object"

datatype DesiredTraffic = DesiredTraffic string int

record StackSetSpec =
  Traffic :: "DesiredTraffic list"

record StackSetStatus =
  ObservedStackVersion :: string
  StatusSummary :: string

type_synonym StackSet = "(StackSetSpec, StackSetStatus) Object"

record StackSetConfig =
  ConfigNamespace :: string
  ControllerID :: string
  ClusterDomains :: "string list"
  BackendWeightsAnnotationKey :: string
  SyncIngressAnnotations :: "string list"
  ReconcileWorkers :: int
  Interval :: Duration
  RouteGroupSupportEnabled :: bool
  ConfigMapSupportEnabled :: bool
  SecretSupportEnabled :: bool
  PcsSupportEnabled :: bool

record stacksetEvent =
  Deleted :: bool
  EventStackSet :: StackSet

subsection \<open>Constants\<close>

definition PrescaleStacksAnnotationKey :: string where
  "PrescaleStacksAnnotationKey = ''alpha.stackset-controller.zalando.org/prescale-stacks''"

definition ResetHPAMinReplicasDelayAnnotationKey :: string where
  "ResetHPAMinReplicasDelayAnnotationKey =
     ''alpha.stackset-controller.zalando.org/reset-hpa-min-replicas-delay''"

definition StacksetControllerControllerAnnotationKey :: string where
  "StacksetControllerControllerAnnotationKey = ''stackset-controller.zalando.org/controller''"


definition reasonFailedManageStackSet :: string where
  "reasonFailedManageStackSet = ''FailedManageStackSet''"

text \<open>\<open>10 * time.Minute\<close>, in nanoseconds.\<close>
definition defaultResetMinReplicasDelay :: Duration where
  "defaultResetMinReplicasDelay = 10 * (60 * 1000000000)"

subsection \<open>Errors, events and the external store\<close>

text \<open>
  \<open>Conflict\<close> is an API status error with reason Conflict (\<open>errors.IsConflict\<close>
  holds), \<open>Failure\<close> is any other error, \<open>Evented\<close> is the \<open>*eventedError\<close>
  wrapper. The wrapper has no \<open>Unwrap\<close> method, so \<open>errors.IsConflict\<close> does not
  look inside it.
\<close>
datatype error = Conflict string | Failure string | Evented error

fun IsConflict :: "error \<Rightarrow> bool" where
  "IsConflict (Conflict m) = True"
| "IsConflict (Failure m) = False"
| "IsConflict (Evented e) = False"

fun Error :: "error \<Rightarrow> string" where
  "Error (Conflict m) = m"
| "Error (Failure m) = m"
| "Error (Evented e) = Error e"

datatype EventType = EventTypeNormal | EventTypeWarning

text \<open>The object an event is attached to: kind, namespace, name.\<close>
datatype ObjectRef = ObjectRef string string string

definition refOf :: "('a, 'b) Object \<Rightarrow> ObjectRef" where
  "refOf obj = ObjectRef (Kind obj) (Namespace (Meta obj)) (Name (Meta obj))"

datatype Event = Event ObjectRef EventType string string

datatype Verb = VList | VGet | VCreate | VUpdate | VUpdateStatus | VDelete

datatype Resource =
  RIngresses | RRouteGroups | RStacks | RStackSets | RDeployments | RServices
  | RHorizontalPodAutoscalers | RConfigMaps | RSecrets | RPlatformCredentialsSets

text \<open>One request to the API server: verb, resource, namespace, object name.\<close>
datatype Call = Call Verb Resource string string

text \<open>The stages of one reconciliation, recorded in the order they are entered.\<close>
datatype Stage =
  SCollectResources
  | SCreateCurrentStack | SUpdateFromResources | SManageTraffic | SMarkExpiredStacks
  | SComputeTrafficSegments | SReconcileStackResources UID | SRecordTrafficSwitch
  | SReconcileStackSetDesiredTraffic | SCleanupOldStacks | SReconcileStatuses

text \<open>
  What the controller acts on: the state \<open>store\<close> of the API server (of any type
  \<open>'c\<close>), the requests sent to it, the events given to the recorder, the panic
  counter of the metrics reporter, and the stages entered so far.
\<close>
record 'c World =
  store :: 'c
  calls :: "Call list"
  events :: "Event list"
  panics :: nat
  stages :: "Stage list"

definition invoke :: "Call \<Rightarrow> ('c \<Rightarrow> 'r \<times> 'c) \<Rightarrow> 'c World \<Rightarrow> 'r \<times> 'c World" where
  "invoke cl f w =
     (case f (store w) of (r, s') \<Rightarrow> (r, w\<lparr>store := s', calls := calls w @ [cl]\<rparr>))"

definition Eventf :: "ObjectRef \<Rightarrow> EventType \<Rightarrow> string \<Rightarrow> string \<Rightarrow> 'c World \<Rightarrow> 'c World" where
  "Eventf obj ty reason msg w = w\<lparr>events := events w @ [Event obj ty reason msg]\<rparr>"

definition enter :: "Stage \<Rightarrow> 'c World \<Rightarrow> 'c World" where
  "enter st w = w\<lparr>stages := stages w @ [st]\<rparr>"

text \<open>\<open>errorEventf\<close>: an error that was already exposed as an event is passed on as it is.\<close>
fun errorEventf :: "ObjectRef \<Rightarrow> string \<Rightarrow> error \<Rightarrow> 'c World \<Rightarrow> error \<times> 'c World" where
  "errorEventf obj reason (Evented e) w = (Evented e, w)"
| "errorEventf obj reason err w =
     (Evented err, Eventf obj EventTypeWarning reason (Error err) w)"

subsection \<open>The tick-scoped containers of package core\<close>

datatype TrafficReconciler =
  SimpleTrafficReconciler
  | PrescalingTrafficReconciler (ResetHPAMinReplicasTimeout: Duration)

record StackResources =
  Deployment :: "Deployment option"
  HPA :: "HPA option"
  Service :: "Service option"
  Ingress :: "Ingress option"
  IngressSegment :: "Ingress option"
  RouteGroup :: "RouteGroup option"
  RouteGroupSegment :: "RouteGroup option"
  ConfigMaps :: "ConfigMap list"
  Secrets :: "Secret list"
  PlatformCredentialsSets :: "PlatformCredentialsSet list"

record StackContainer =
  Stack :: Stack
  PendingRemoval :: bool
  Resources :: StackResources

text \<open>
  The fields of \<open>core.StackSetContainer\<close> that the controller reads or writes; the
  StackSet-level \<open>Ingress\<close> and \<open>RouteGroup\<close> fields are \<open>StackSetIngress\<close> and
  \<open>StackSetRouteGroup\<close> here.
\<close>
record StackSetContainer =
  StackSet :: StackSet
  StackContainers :: "(UID \<times> StackContainer) list"
  TrafficReconciler :: TrafficReconciler
  StackSetIngress :: "Ingress option"
  StackSetRouteGroup :: "RouteGroup option"
  backendWeightsAnnotationKey :: string
  clusterDomains :: "string list"
  syncIngressAnnotations :: "string list"

type_synonym Containers = "(UID \<times> StackSetContainer) list"

definition emptyResources :: StackResources where
  "emptyResources = \<lparr>Deployment = None, HPA = None, Service = None, Ingress = None,
     IngressSegment = None, RouteGroup = None, RouteGroupSegment = None, ConfigMaps = [],
     Secrets = [], PlatformCredentialsSets = []\<rparr>"

text \<open>
  Modelled from the spec: \<open>core.NewContainer\<close>, absent from the sources. A
  StackSetContainer is "a StackSet, its chosen Traffic Reconciler instance, and its
  stackset-level shared ingress/route object, plus the map of StackContainers"; a new one
  has no stack and no shared object yet.
\<close>
definition NewContainer ::
  "StackSet \<Rightarrow> TrafficReconciler \<Rightarrow> string \<Rightarrow> string list \<Rightarrow> string list \<Rightarrow> StackSetContainer" where
  "NewContainer stackset reconciler weightsKey domains syncAnnotations =
     \<lparr>StackSet = stackset, StackContainers = [], TrafficReconciler = reconciler,
      StackSetIngress = None, StackSetRouteGroup = None,
      backendWeightsAnnotationKey = weightsKey, clusterDomains = domains,
      syncIngressAnnotations = syncAnnotations\<rparr>"

text \<open>
  Modelled from the spec: the accessors \<open>Name()\<close> and \<open>Namespace()\<close> of
  \<open>core.StackContainer\<close>, absent from the sources: a StackContainer is "a Stack plus all
  currently-known owned child resources", named as its Stack is.
\<close>
definition scName :: "StackContainer \<Rightarrow> string" where
  "scName sc = Name (Meta (Stack sc))"

definition scNamespace :: "StackContainer \<Rightarrow> string" where
  "scNamespace sc = Namespace (Meta (Stack sc))"

subsection \<open>The collaborators of the controller\<close>

text \<open>The typed client: every request reads and may change the state of the API server.\<close>
record 'c Client =
  ListIngresses :: "string \<Rightarrow> 'c \<Rightarrow> (error + Ingress list) \<times> 'c"
  ListRouteGroups :: "string \<Rightarrow> 'c \<Rightarrow> (error + RouteGroup list) \<times> 'c"
  ListStacks :: "string \<Rightarrow> 'c \<Rightarrow> (error + Stack list) \<times> 'c"
  ListDeployments :: "string \<Rightarrow> 'c \<Rightarrow> (error + Deployment list) \<times> 'c"
  ListServices :: "string \<Rightarrow> 'c \<Rightarrow> (error + Service list) \<times> 'c"
  ListHPAs :: "string \<Rightarrow> 'c \<Rightarrow> (error + HPA list) \<times> 'c"
  ListConfigMaps :: "string \<Rightarrow> 'c \<Rightarrow> (error + ConfigMap list) \<times> 'c"
  ListSecrets :: "string \<Rightarrow> 'c \<Rightarrow> (error + Secret list) \<times> 'c"
  ListPlatformCredentialsSets :: "string \<Rightarrow> 'c \<Rightarrow> (error + PlatformCredentialsSet list) \<times> 'c"
  GetStack :: "string \<Rightarrow> string \<Rightarrow> 'c \<Rightarrow> (error + Stack) \<times> 'c"
  CreateStack :: "string \<Rightarrow> Stack \<Rightarrow> 'c \<Rightarrow> (error + Stack) \<times> 'c"
  UpdateStackStatus :: "string \<Rightarrow> Stack \<Rightarrow> 'c \<Rightarrow> (error + Stack) \<times> 'c"
  DeleteStack :: "string \<Rightarrow> string \<Rightarrow> 'c \<Rightarrow> error option \<times> 'c"
  GetStackSet :: "string \<Rightarrow> string \<Rightarrow> 'c \<Rightarrow> (error + StackSet) \<times> 'c"
  UpdateStackSet :: "string \<Rightarrow> StackSet \<Rightarrow> 'c \<Rightarrow> (error + StackSet) \<times> 'c"
  UpdateStackSetStatus :: "string \<Rightarrow> StackSet \<Rightarrow> 'c \<Rightarrow> (error + StackSet) \<times> 'c"
  CreateIngress :: "string \<Rightarrow> Ingress \<Rightarrow> 'c \<Rightarrow> (error + Ingress) \<times> 'c"
  UpdateIngress :: "string \<Rightarrow> Ingress \<Rightarrow> 'c \<Rightarrow> (error + Ingress) \<times> 'c"
  CreateRouteGroup :: "string \<Rightarrow> RouteGroup \<Rightarrow> 'c \<Rightarrow> (error + RouteGroup) \<times> 'c"
  UpdateRouteGroup :: "string \<Rightarrow> RouteGroup \<Rightarrow> 'c \<Rightarrow> (error + RouteGroup) \<times> 'c"

text \<open>
  \<open>equality.Semantic\<close> of apimachinery on the payloads the controller compares.
  \<open>DeepDerivative a b\<close> ignores what is unset in \<open>a\<close>.
\<close>
record Semantic =
  DeepDerivativeIngressSpec :: "IngressSpec \<Rightarrow> IngressSpec \<Rightarrow> bool"
  DeepDerivativeRouteGroupSpec :: "RouteGroupSpec \<Rightarrow> RouteGroupSpec \<Rightarrow> bool"
  DeepEqualStackStatus :: "StackStatus \<Rightarrow> StackStatus \<Rightarrow> bool"
  DeepEqualStackSetStatus :: "StackSetStatus \<Rightarrow> StackSetStatus \<Rightarrow> bool"
  DeepEqualTraffic :: "DesiredTraffic list \<Rightarrow> DesiredTraffic list \<Rightarrow> bool"

text \<open>
  Package core, absent from the sources: its constants and the methods of the containers
  that the controller calls. A method that changes its container returns the new one.
\<close>
record Core =
  coreAPIVersion :: string
  KindStackSet :: string
  KindStack :: string
  SegmentSuffix :: string
  NewStack :: "StackSetContainer \<Rightarrow> (StackContainer \<times> string) option"
  UpdateFromResources :: "StackSetContainer \<Rightarrow> error option \<times> StackSetContainer"
  ManageTraffic :: "Time \<Rightarrow> StackSetContainer \<Rightarrow> error option \<times> StackSetContainer"
  MarkExpiredStacks :: "StackSetContainer \<Rightarrow> StackSetContainer"
  ComputeTrafficSegments :: "StackSetContainer \<Rightarrow> (error + UID list) \<times> StackSetContainer"
  TrafficChanges :: "StackSetContainer \<Rightarrow> string list"
  GenerateStackSetTraffic :: "StackSetContainer \<Rightarrow> DesiredTraffic list"
  GenerateStackStatus :: "StackContainer \<Rightarrow> StackStatus"
  GenerateStackSetStatus :: "StackSetContainer \<Rightarrow> StackSetStatus"

text \<open>
  The per-kind reconcilers of a Stack's resources live in another file of the controller
  that is absent from the sources. Each call site of \<open>ReconcileStackResources\<close> is one
  operation on the state of the API server that reports the requests it sent and the
  events it recorded.
\<close>
type_synonym 'c StackOp = "StackContainer \<Rightarrow> 'c \<Rightarrow> (error option \<times> Call list \<times> Event list) \<times> 'c"

record 'c StackOps =
  ReconcileStackIngress :: "'c StackOp"
  ReconcileStackIngressSegment :: "'c StackOp"
  ReconcileStackRouteGroup :: "'c StackOp"
  ReconcileStackRouteGroupSegment :: "'c StackOp"
  ReconcileStackConfigMapRefs :: "'c StackOp"
  ReconcileStackSecretRefs :: "'c StackOp"
  ReconcileStackPlatformCredentialsSets :: "'c StackOp"
  ReconcileStackDeployment :: "'c StackOp"
  ReconcileStackHPA :: "'c StackOp"
  ReconcileStackService :: "'c StackOp"

text \<open>
  The controller: its configuration and its collaborators. \<open>now\<close> and \<open>timeNow\<close>
  read the clock, which is part of the outside state; \<open>ParseDuration\<close> is
  \<open>time.ParseDuration\<close>; \<open>startWatch\<close> sets the informer up.
\<close>
record 'c StackSetController =
  config :: StackSetConfig
  client :: "'c Client"
  equality :: Semantic
  core :: Core
  stackops :: "'c StackOps"
  now :: "'c \<Rightarrow> string"
  timeNow :: "'c \<Rightarrow> Time"
  ParseDuration :: "string \<Rightarrow> error + Duration"
  startWatch :: "'c \<Rightarrow> error option \<times> 'c"

definition runOp :: "'c StackOp \<Rightarrow> StackContainer \<Rightarrow> 'c World \<Rightarrow> error option \<times> 'c World" where
  "runOp op sc w =
     (case op sc (store w) of
        ((r, cs, es), s') \<Rightarrow>
          (r, w\<lparr>store := s', calls := calls w @ cs, events := events w @ es\<rparr>))"

section \<open>Ownership and the owner of a child resource\<close>

text \<open>
  \<open>hasOwnership\<close>: the controller owns the StackSet if the value of the controller
  annotation is its id, or if its id is empty and the annotation is not set.
\<close>
definition hasOwnership :: "'c StackSetController \<Rightarrow> StackSet \<Rightarrow> bool" where
  "hasOwnership c stackset =
     (case Annotations (Meta stackset) of
        Some m \<Rightarrow>
          (case m StacksetControllerControllerAnnotationKey of
             Some owner \<Rightarrow> owner = ControllerID (config c)
           | None \<Rightarrow> ControllerID (config c) = [])
      | None \<Rightarrow> ControllerID (config c) = [])"

definition fixupStackSetTypeMeta :: "Core \<Rightarrow> StackSet \<Rightarrow> StackSet" where
  "fixupStackSetTypeMeta k stackset =
     stackset\<lparr>APIVersion := coreAPIVersion k, Kind := KindStackSet k\<rparr>"

definition fixupStackTypeMeta :: "Core \<Rightarrow> Stack \<Rightarrow> Stack" where
  "fixupStackTypeMeta k stack = stack\<lparr>APIVersion := coreAPIVersion k, Kind := KindStack k\<rparr>"

definition getOwnerUID :: "ObjectMeta \<Rightarrow> UID option" where
  "getOwnerUID objectMeta =
     (case OwnerReferences objectMeta of [r] \<Rightarrow> Some (OwnerUID r) | _ \<Rightarrow> None)"

text \<open>\<open>getResetMinReplicasDelay\<close>: the reset delay, if the annotation is set and parses.\<close>
definition getResetMinReplicasDelay :: "'c StackSetController \<Rightarrow> gomap \<Rightarrow> Duration option" where
  "getResetMinReplicasDelay c annotations =
     (case lookup annotations ResetHPAMinReplicasDelayAnnotationKey of
        None \<Rightarrow> None
      | Some resetDelayStr \<Rightarrow>
          (case ParseDuration c resetDelayStr of
             Inl err \<Rightarrow> None
           | Inr resetDelay \<Rightarrow> Some resetDelay))"

section \<open>Resource collection\<close>

text \<open>
  The loop \<open>for _, stackset := range stacksets\<close> that looks the owner up among the
  stack containers of each StackSet in turn, changes the first one found and breaks.
\<close>
fun forOwningStack ::
  "UID \<Rightarrow> (StackContainer \<Rightarrow> StackContainer) \<Rightarrow> Containers \<Rightarrow> Containers" where
  "forOwningStack uid f [] = []"
| "forOwningStack uid f ((k, stackset) # rest) =
     (case map_of (StackContainers stackset) uid of
        Some s \<Rightarrow>
          (k, stackset\<lparr>StackContainers := AList.map_entry uid f (StackContainers stackset)\<rparr>) # rest
      | None \<Rightarrow> (k, stackset) # forOwningStack uid f rest)"

definition setResources :: "(StackResources \<Rightarrow> StackResources) \<Rightarrow> StackContainer \<Rightarrow> StackContainer" where
  "setResources f s = s\<lparr>Resources := f (Resources s)\<rparr>"

text \<open>The body of the loop of \<open>collectIngresses\<close> for one ingress.\<close>
definition collectIngress :: "Core \<Rightarrow> Ingress \<Rightarrow> Containers \<Rightarrow> Containers" where
  "collectIngress k ingress stacksets =
     (case getOwnerUID (Meta ingress) of
        None \<Rightarrow> stacksets
      | Some uid \<Rightarrow>
          (case map_of stacksets uid of
             Some s \<Rightarrow> AList.map_entry uid (\<lambda>s. s\<lparr>StackSetIngress := Some ingress\<rparr>) stacksets
           | None \<Rightarrow>
               forOwningStack uid
                 (if suffix (SegmentSuffix k) (Name (Meta ingress))
                  then setResources (\<lambda>r. r\<lparr>IngressSegment := Some ingress\<rparr>)
                  else setResources (\<lambda>r. r\<lparr>Ingress := Some ingress\<rparr>))
                 stacksets))"

definition collectIngresses ::
  "'c StackSetController \<Rightarrow> Containers \<Rightarrow> 'c World \<Rightarrow> (error + Containers) \<times> 'c World" where
  "collectIngresses c stacksets w =
     (case invoke (Call VList RIngresses (ConfigNamespace (config c)) [])
             (ListIngresses (client c) (ConfigNamespace (config c))) w of
        (Inl err, w') \<Rightarrow> (Inl (Failure (''failed to list Ingresses: '' @ Error err)), w')
      | (Inr items, w') \<Rightarrow> (Inr (fold (collectIngress (core c)) items stacksets), w'))"

definition collectRouteGroup :: "Core \<Rightarrow> RouteGroup \<Rightarrow> Containers \<Rightarrow> Containers" where
  "collectRouteGroup k routegroup stacksets =
     (case getOwnerUID (Meta routegroup) of
        None \<Rightarrow> stacksets
      | Some uid \<Rightarrow>
          (case map_of stacksets uid of
             Some s \<Rightarrow>
               AList.map_entry uid (\<lambda>s. s\<lparr>StackSetRouteGroup := Some routegroup\<rparr>) stacksets
           | None \<Rightarrow>
               forOwningStack uid
                 (if suffix (SegmentSuffix k) (Name (Meta routegroup))
                  then setResources (\<lambda>r. r\<lparr>RouteGroupSegment := Some routegroup\<rparr>)
                  else setResources (\<lambda>r. r\<lparr>RouteGroup := Some routegroup\<rparr>))
                 stacksets))"

definition collectRouteGroups ::
  "'c StackSetController \<Rightarrow> Containers \<Rightarrow> 'c World \<Rightarrow> (error + Containers) \<times> 'c World" where
  "collectRouteGroups c stacksets w =
     (case invoke (Call VList RRouteGroups (ConfigNamespace (config c)) [])
             (ListRouteGroups (client c) (ConfigNamespace (config c))) w of
        (Inl err, w') \<Rightarrow> (Inl (Failure (''failed to list RouteGroups: '' @ Error err)), w')
      | (Inr items, w') \<Rightarrow> (Inr (fold (collectRouteGroup (core c)) items stacksets), w'))"

definition collectStack :: "Core \<Rightarrow> Stack \<Rightarrow> Containers \<Rightarrow> Containers" where
  "collectStack k stack stacksets =
     (case getOwnerUID (Meta stack) of
        None \<Rightarrow> stacksets
      | Some uid \<Rightarrow>
          (case map_of stacksets uid of
             Some s \<Rightarrow>
               AList.map_entry uid
                 (\<lambda>s. s\<lparr>StackContainers :=
                          AList.update (UID (Meta stack))
                            \<lparr>Stack = fixupStackTypeMeta k stack, PendingRemoval = False,
                             Resources = emptyResources\<rparr>
                            (StackContainers s)\<rparr>)
                 stacksets
           | None \<Rightarrow> stacksets))"

definition collectStacks ::
  "'c StackSetController \<Rightarrow> Containers \<Rightarrow> 'c World \<Rightarrow> (error + Containers) \<times> 'c World" where
  "collectStacks c stacksets w =
     (case invoke (Call VList RStacks (ConfigNamespace (config c)) [])
             (ListStacks (client c) (ConfigNamespace (config c))) w of
        (Inl err, w') \<Rightarrow> (Inl (Failure (''failed to list Stacks: '' @ Error err)), w')
      | (Inr items, w') \<Rightarrow> (Inr (fold (collectStack (core c)) items stacksets), w'))"

definition collectDeployment :: "Deployment \<Rightarrow> Containers \<Rightarrow> Containers" where
  "collectDeployment deployment stacksets =
     (case getOwnerUID (Meta deployment) of
        None \<Rightarrow> stacksets
      | Some uid \<Rightarrow>
          forOwningStack uid (setResources (\<lambda>r. r\<lparr>Deployment := Some deployment\<rparr>)) stacksets)"

definition collectDeployments ::
  "'c StackSetController \<Rightarrow> Containers \<Rightarrow> 'c World \<Rightarrow> (error + Containers) \<times> 'c World" where
  "collectDeployments c stacksets w =
     (case invoke (Call VList RDeployments (ConfigNamespace (config c)) [])
             (ListDeployments (client c) (ConfigNamespace (config c))) w of
        (Inl err, w') \<Rightarrow> (Inl (Failure (''failed to list Deployments: '' @ Error err)), w')
      | (Inr items, w') \<Rightarrow> (Inr (fold collectDeployment items stacksets), w'))"

text \<open>
  The historical ownership of services and autoscalers: \<open>stack.Resources.Deployment != nil
  && stack.Resources.Deployment.UID == uid\<close>.
\<close>
definition deploymentHasUID :: "UID \<Rightarrow> StackContainer \<Rightarrow> bool" where
  "deploymentHasUID uid stack =
     (case Deployment (Resources stack) of None \<Rightarrow> False | Some d \<Rightarrow> UID (Meta d) = uid)"

text \<open>
  The inner loop \<open>for _, stack := range stackset.StackContainers\<close>: the first stack whose
  deployment has the UID is changed; \<open>None\<close> when the loop ends without a match.
\<close>
fun viaDeployment ::
  "UID \<Rightarrow> (StackContainer \<Rightarrow> StackContainer) \<Rightarrow> (UID \<times> StackContainer) list
     \<Rightarrow> (UID \<times> StackContainer) list option" where
  "viaDeployment uid f [] = None"
| "viaDeployment uid f ((k, stack) # rest) =
     (if deploymentHasUID uid stack then Some ((k, f stack) # rest)
      else map_option ((#) (k, stack)) (viaDeployment uid f rest))"

text \<open>
  The loops of \<open>collectServices\<close> and \<open>collectHPAs\<close> for one object with owner
  \<open>uid\<close>: in each StackSet in turn, the stack container with that UID, else the first
  stack whose deployment has that UID; \<open>continue Items\<close> at the first match.
\<close>
fun forOwningStackOrDeployment ::
  "UID \<Rightarrow> (StackContainer \<Rightarrow> StackContainer) \<Rightarrow> Containers \<Rightarrow> Containers" where
  "forOwningStackOrDeployment uid f [] = []"
| "forOwningStackOrDeployment uid f ((k, stackset) # rest) =
     (case map_of (StackContainers stackset) uid of
        Some s \<Rightarrow>
          (k, stackset\<lparr>StackContainers := AList.map_entry uid f (StackContainers stackset)\<rparr>) # rest
      | None \<Rightarrow>
          (case viaDeployment uid f (StackContainers stackset) of
             Some stacks \<Rightarrow> (k, stackset\<lparr>StackContainers := stacks\<rparr>) # rest
           | None \<Rightarrow> (k, stackset) # forOwningStackOrDeployment uid f rest))"

definition collectService :: "Service \<Rightarrow> Containers \<Rightarrow> Containers" where
  "collectService service stacksets =
     (case getOwnerUID (Meta service) of
        None \<Rightarrow> stacksets
      | Some uid \<Rightarrow>
          forOwningStackOrDeployment uid (setResources (\<lambda>r. r\<lparr>Service := Some service\<rparr>))
            stacksets)"

definition collectServices ::
  "'c StackSetController \<Rightarrow> Containers \<Rightarrow> 'c World \<Rightarrow> (error + Containers) \<times> 'c World" where
  "collectServices c stacksets w =
     (case invoke (Call VList RServices (ConfigNamespace (config c)) [])
             (ListServices (client c) (ConfigNamespace (config c))) w of
        (Inl err, w') \<Rightarrow> (Inl (Failure (''failed to list Services: '' @ Error err)), w')
      | (Inr items, w') \<Rightarrow> (Inr (fold collectService items stacksets), w'))"

definition collectHPA :: "HPA \<Rightarrow> Containers \<Rightarrow> Containers" where
  "collectHPA hpa stacksets =
     (case getOwnerUID (Meta hpa) of
        None \<Rightarrow> stacksets
      | Some uid \<Rightarrow>
          forOwningStackOrDeployment uid (setResources (\<lambda>r. r\<lparr>HPA := Some hpa\<rparr>)) stacksets)"

definition collectHPAs ::
  "'c StackSetController \<Rightarrow> Containers \<Rightarrow> 'c World \<Rightarrow> (error + Containers) \<times> 'c World" where
  "collectHPAs c stacksets w =
     (case invoke (Call VList RHorizontalPodAutoscalers (ConfigNamespace (config c)) [])
             (ListHPAs (client c) (ConfigNamespace (config c))) w of
        (Inl err, w') \<Rightarrow> (Inl (Failure (''failed to list HPAs: '' @ Error err)), w')
      | (Inr items, w') \<Rightarrow> (Inr (fold collectHPA items stacksets), w'))"

definition collectConfigMap :: "ConfigMap \<Rightarrow> Containers \<Rightarrow> Containers" where
  "collectConfigMap configMap stacksets =
     (case getOwnerUID (Meta configMap) of
        None \<Rightarrow> stacksets
      | Some uid \<Rightarrow>
          forOwningStack uid (setResources (\<lambda>r. r\<lparr>ConfigMaps := ConfigMaps r @ [configMap]\<rparr>))
            stacksets)"

definition collectConfigMaps ::
  "'c StackSetController \<Rightarrow> Containers \<Rightarrow> 'c World \<Rightarrow> (error + Containers) \<times> 'c World" where
  "collectConfigMaps c stacksets w =
     (case invoke (Call VList RConfigMaps (ConfigNamespace (config c)) [])
             (ListConfigMaps (client c) (ConfigNamespace (config c))) w of
        (Inl err, w') \<Rightarrow> (Inl (Failure (''failed to list ConfigMaps: '' @ Error err)), w')
      | (Inr items, w') \<Rightarrow> (Inr (fold collectConfigMap items stacksets), w'))"

definition collectSecret :: "Secret \<Rightarrow> Containers \<Rightarrow> Containers" where
  "collectSecret secret stacksets =
     (case getOwnerUID (Meta secret) of
        None \<Rightarrow> stacksets
      | Some uid \<Rightarrow>
          forOwningStack uid (setResources (\<lambda>r. r\<lparr>Secrets := Secrets r @ [secret]\<rparr>)) stacksets)"

definition collectSecrets ::
  "'c StackSetController \<Rightarrow> Containers \<Rightarrow> 'c World \<Rightarrow> (error + Containers) \<times> 'c World" where
  "collectSecrets c stacksets w =
     (case invoke (Call VList RSecrets (ConfigNamespace (config c)) [])
             (ListSecrets (client c) (ConfigNamespace (config c))) w of
        (Inl err, w') \<Rightarrow> (Inl (Failure (''failed to list Secrets: '' @ Error err)), w')
      | (Inr items, w') \<Rightarrow> (Inr (fold collectSecret items stacksets), w'))"

definition collectPlatformCredentialsSetItem ::
  "PlatformCredentialsSet \<Rightarrow> Containers \<Rightarrow> Containers" where
  "collectPlatformCredentialsSetItem pcs stacksets =
     (case getOwnerUID (Meta pcs) of
        None \<Rightarrow> stacksets
      | Some uid \<Rightarrow>
          forOwningStack uid
            (setResources (\<lambda>r. r\<lparr>PlatformCredentialsSets := PlatformCredentialsSets r @ [pcs]\<rparr>))
            stacksets)"

definition collectPlatformCredentialsSet ::
  "'c StackSetController \<Rightarrow> Containers \<Rightarrow> 'c World \<Rightarrow> (error + Containers) \<times> 'c World" where
  "collectPlatformCredentialsSet c stacksets w =
     (case invoke (Call VList RPlatformCredentialsSets (ConfigNamespace (config c)) [])
             (ListPlatformCredentialsSets (client c) (ConfigNamespace (config c))) w of
        (Inl err, w') \<Rightarrow>
          (Inl (Failure (''failed to list PlatformCredentialsSet: '' @ Error err)), w')
      | (Inr items, w') \<Rightarrow>
          (Inr (fold collectPlatformCredentialsSetItem items stacksets), w'))"

text \<open>The traffic reconciler that \<open>collectResources\<close> chooses for one StackSet.\<close>
definition chooseReconciler :: "'c StackSetController \<Rightarrow> StackSet \<Rightarrow> TrafficReconciler" where
  "chooseReconciler c stackset =
     (case lookup (Annotations (Meta stackset)) PrescaleStacksAnnotationKey of
        None \<Rightarrow> SimpleTrafficReconciler
      | Some v \<Rightarrow>
          PrescalingTrafficReconciler
            (case getResetMinReplicasDelay c (Annotations (Meta stackset)) of
               Some resetDelayValue \<Rightarrow> resetDelayValue
             | None \<Rightarrow> defaultResetMinReplicasDelay))"

definition newContainers :: "'c StackSetController \<Rightarrow> (UID \<times> StackSet) list \<Rightarrow> Containers" where
  "newContainers c stacksetStore =
     map (\<lambda>(uid, stackset).
            (uid, NewContainer stackset (chooseReconciler c stackset)
                    (BackendWeightsAnnotationKey (config c)) (ClusterDomains (config c))
                    (SyncIngressAnnotations (config c))))
       stacksetStore"

text \<open>A collector that runs only if its feature is enabled.\<close>
definition whenEnabled ::
  "bool \<Rightarrow> (Containers \<Rightarrow> 'c World \<Rightarrow> (error + Containers) \<times> 'c World)
     \<Rightarrow> Containers \<Rightarrow> 'c World \<Rightarrow> (error + Containers) \<times> 'c World" where
  "whenEnabled enabled collect stacksets w =
     (if enabled then collect stacksets w else (Inr stacksets, w))"

text \<open>\<open>err := collect(...); if err != nil { return nil, err }\<close>, then the rest.\<close>
definition andThen ::
  "(error + Containers) \<times> 'c World
     \<Rightarrow> (Containers \<Rightarrow> 'c World \<Rightarrow> (error + Containers) \<times> 'c World)
     \<Rightarrow> (error + Containers) \<times> 'c World" where
  "andThen r rest = (case r of (Inl err, w) \<Rightarrow> (Inl err, w) | (Inr stacksets, w) \<Rightarrow> rest stacksets w)"

definition collectResources ::
  "'c StackSetController \<Rightarrow> (UID \<times> StackSet) list \<Rightarrow> 'c World \<Rightarrow> (error + Containers) \<times> 'c World" where
  "collectResources c stacksetStore w =
     andThen (collectStacks c (newContainers c stacksetStore) w) (\<lambda>s1 w1.
     andThen (collectIngresses c s1 w1) (\<lambda>s2 w2.
     andThen (whenEnabled (RouteGroupSupportEnabled (config c)) (collectRouteGroups c) s2 w2) (\<lambda>s3 w3.
     andThen (collectDeployments c s3 w3) (\<lambda>s4 w4.
     andThen (collectServices c s4 w4) (\<lambda>s5 w5.
     andThen (collectHPAs c s5 w5) (\<lambda>s6 w6.
     andThen (whenEnabled (ConfigMapSupportEnabled (config c)) (collectConfigMaps c) s6 w6) (\<lambda>s7 w7.
     andThen (whenEnabled (SecretSupportEnabled (config c)) (collectSecrets c) s7 w7) (\<lambda>s8 w8.
     whenEnabled (PcsSupportEnabled (config c)) (collectPlatformCredentialsSet c) s8 w8))))))))"

section \<open>Status writer\<close>

text \<open>
  \<open>retryUpdate\<close> loops for as long as the update function reports a conflict. Nothing
  bounds the number of conflicts, so the loop is a partial function: \<open>None\<close> is the run
  that never returns.
\<close>
partial_function (option) retryUpdateLoop ::
  "(bool \<Rightarrow> 's \<Rightarrow> error option \<times> 's) \<Rightarrow> bool \<Rightarrow> 's \<Rightarrow> (error option \<times> 's) option" where
  "retryUpdateLoop updateFn retry s =
     (case updateFn retry s of
        (None, s') \<Rightarrow> Some (None, s')
      | (Some err, s') \<Rightarrow>
          if IsConflict err then retryUpdateLoop updateFn True s' else Some (Some err, s'))"

definition retryUpdate ::
  "(bool \<Rightarrow> 's \<Rightarrow> error option \<times> 's) \<Rightarrow> 's \<Rightarrow> (error option \<times> 's) option" where
  "retryUpdate updateFn s = retryUpdateLoop updateFn False s"

definition failWith :: "ObjectRef \<Rightarrow> string \<Rightarrow> error \<Rightarrow> 'c World \<Rightarrow> error option \<times> 'c World" where
  "failWith obj reason err w = (case errorEventf obj reason err w of (e, w') \<Rightarrow> (Some e, w'))"

text \<open>
  The update function that \<open>ReconcileStatuses\<close> hands to \<open>retryUpdate\<close> for one
  Stack. Its state is the variable \<open>stack\<close> of the enclosing function and the world.
\<close>
definition updateStackStatusFn ::
  "'c StackSetController \<Rightarrow> StackContainer \<Rightarrow> StackStatus \<Rightarrow> bool \<Rightarrow> Stack \<times> 'c World
     \<Rightarrow> error option \<times> (Stack \<times> 'c World)" where
  "updateStackStatusFn c sc status retry = (\<lambda>(stack, w).
     (case (if retry
            then invoke (Call VGet RStacks (scNamespace sc) (Name (Meta stack)))
                   (GetStack (client c) (scNamespace sc) (Name (Meta stack))) w
            else (Inr stack, w)) of
        (Inl err, w1) \<Rightarrow> (Some err, (stack, w1))
      | (Inr stack1, w1) \<Rightarrow>
          if \<not> DeepEqualStackStatus (equality c) status (Status stack1)
          then (case invoke (Call VUpdateStatus RStacks (scNamespace sc) (Name (Meta stack1)))
                       (UpdateStackStatus (client c) (scNamespace sc) (stack1\<lparr>Status := status\<rparr>))
                       w1 of
                  (Inl err, w2) \<Rightarrow> (Some err, (stack1\<lparr>Status := status\<rparr>, w2))
                | (Inr written, w2) \<Rightarrow> (None, (stack1\<lparr>Status := status\<rparr>, w2)))
          else (None, (stack1, w1))))"

definition updateStackSetStatusFn ::
  "'c StackSetController \<Rightarrow> StackSetContainer \<Rightarrow> StackSetStatus \<Rightarrow> bool \<Rightarrow> StackSet \<times> 'c World
     \<Rightarrow> error option \<times> (StackSet \<times> 'c World)" where
  "updateStackSetStatusFn c ssc status retry = (\<lambda>(stackset, w).
     (case (if retry
            then invoke (Call VGet RStackSets (Namespace (Meta (StackSet ssc)))
                           (Name (Meta (StackSet ssc))))
                   (GetStackSet (client c) (Namespace (Meta (StackSet ssc)))
                      (Name (Meta (StackSet ssc)))) w
            else (Inr stackset, w)) of
        (Inl err, w1) \<Rightarrow> (Some err, (stackset, w1))
      | (Inr stackset1, w1) \<Rightarrow>
          if \<not> DeepEqualStackSetStatus (equality c) status (Status stackset1)
          then (case invoke (Call VUpdateStatus RStackSets (Namespace (Meta (StackSet ssc)))
                               (Name (Meta stackset1)))
                       (UpdateStackSetStatus (client c) (Namespace (Meta (StackSet ssc)))
                          (stackset1\<lparr>Status := status\<rparr>))
                       w1 of
                  (Inl err, w2) \<Rightarrow> (Some err, (stackset1\<lparr>Status := status\<rparr>, w2))
                | (Inr written, w2) \<Rightarrow> (None, (stackset1\<lparr>Status := status\<rparr>, w2)))
          else (None, (stackset1, w1))))"

text \<open>The loop of \<open>ReconcileStatuses\<close> over the stack containers.\<close>
fun reconcileStackStatuses ::
  "'c StackSetController \<Rightarrow> (UID \<times> StackContainer) list \<Rightarrow> 'c World
     \<Rightarrow> (error option \<times> 'c World) option" where
  "reconcileStackStatuses c [] w = Some (None, w)"
| "reconcileStackStatuses c ((k, sc) # rest) w =
     (case retryUpdate (updateStackStatusFn c sc (GenerateStackStatus (core c) sc)) (Stack sc, w) of
        None \<Rightarrow> None
      | Some (Some err, (stack, w')) \<Rightarrow>
          Some (failWith (refOf (Stack sc)) ''FailedUpdateStackStatus'' err w')
      | Some (None, (stack, w')) \<Rightarrow> reconcileStackStatuses c rest w')"

definition ReconcileStatuses ::
  "'c StackSetController \<Rightarrow> StackSetContainer \<Rightarrow> 'c World \<Rightarrow> (error option \<times> 'c World) option" where
  "ReconcileStatuses c ssc w =
     (case reconcileStackStatuses c (StackContainers ssc) w of
        None \<Rightarrow> None
      | Some (Some err, w1) \<Rightarrow> Some (Some err, w1)
      | Some (None, w1) \<Rightarrow>
          (case retryUpdate (updateStackSetStatusFn c ssc (GenerateStackSetStatus (core c) ssc))
                  (StackSet ssc, w1) of
             None \<Rightarrow> None
           | Some (Some err, (stackset, w2)) \<Rightarrow>
               Some (failWith (refOf (StackSet ssc)) ''FailedUpdateStackSetStatus'' err w2)
           | Some (None, (stackset, w2)) \<Rightarrow> Some (None, w2)))"

section \<open>Stack lifecycle\<close>

definition ReconcileTrafficSegments ::
  "'c StackSetController \<Rightarrow> StackSetContainer \<Rightarrow> 'c World
     \<Rightarrow> (UID list \<times> error option) \<times> StackSetContainer \<times> 'c World" where
  "ReconcileTrafficSegments c ssc w =
     (case ComputeTrafficSegments (core c) ssc of
        (Inl err, ssc') \<Rightarrow>
          (case failWith (refOf (StackSet ssc')) ''FailedManageSegments'' err w of
             (e, w') \<Rightarrow> (([], e), ssc', w'))
      | (Inr toUpdate, ssc') \<Rightarrow> ((toUpdate, None), ssc', w))"

definition configurationResourceNameError :: "string \<Rightarrow> string \<Rightarrow> string" where
  "configurationResourceNameError rsc stack =
     ''ConfigurationResource name must be prefixed by Stack name. ConfigurationResource: ''
       @ rsc @ '', Stack: '' @ stack"

definition validateConfigurationResourceName :: "string \<Rightarrow> string \<Rightarrow> error option" where
  "validateConfigurationResourceName stack rsc =
     (if \<not> prefix stack rsc then Some (Failure (configurationResourceNameError rsc stack))
      else None)"

fun validateNames :: "string \<Rightarrow> ConfigurationResourcesSpec list \<Rightarrow> error option" where
  "validateNames stack [] = None"
| "validateNames stack (rsc # rest) =
     (case validateConfigurationResourceName stack (GetName rsc) of
        Some err \<Rightarrow> Some err
      | None \<Rightarrow> validateNames stack rest)"

definition validateAllConfigurationResourcesNames :: "Stack \<Rightarrow> error option" where
  "validateAllConfigurationResourcesNames stack =
     validateNames (Name (Meta stack)) (ConfigurationResources (Spec stack))"

text \<open>\<open>CreateCurrentStack\<close> creates a new Stack object for the current stack, if needed.\<close>
definition CreateCurrentStack ::
  "'c StackSetController \<Rightarrow> StackSetContainer \<Rightarrow> 'c World
     \<Rightarrow> error option \<times> StackSetContainer \<times> 'c World" where
  "CreateCurrentStack c ssc w =
     (case NewStack (core c) ssc of
        None \<Rightarrow> (None, ssc, w)
      | Some (newStack, newStackVersion) \<Rightarrow>
          (case (if ConfigMapSupportEnabled (config c) \<or> SecretSupportEnabled (config c)
                 then validateAllConfigurationResourcesNames (Stack newStack) else None) of
             Some err \<Rightarrow> (Some err, ssc, w)
           | None \<Rightarrow>
               (case invoke (Call VCreate RStacks (scNamespace newStack) (scName newStack))
                       (CreateStack (client c) (scNamespace newStack) (Stack newStack)) w of
                  (Inl err, w1) \<Rightarrow> (Some err, ssc, w1)
                | (Inr created0, w1) \<Rightarrow>
                    (let created = fixupStackTypeMeta (core c) created0;
                         w2 = Eventf (refOf (StackSet ssc)) EventTypeNormal ''CreatedStack''
                                (''Created stack '' @ scName newStack) w1;
                         updated = (StackSet ssc)\<lparr>Status :=
                                      (Status (StackSet ssc))\<lparr>ObservedStackVersion := newStackVersion\<rparr>\<rparr>
                     in (case invoke (Call VUpdateStatus RStackSets
                                        (Namespace (Meta (StackSet ssc))) (Name (Meta updated)))
                                (UpdateStackSetStatus (client c)
                                   (Namespace (Meta (StackSet ssc))) updated) w2 of
                           (Inl err, w3) \<Rightarrow> (Some err, ssc, w3)
                         | (Inr result, w3) \<Rightarrow>
                             (None,
                              ssc\<lparr>StackSet := fixupStackSetTypeMeta (core c) result,
                                  StackContainers :=
                                    AList.update (UID (Meta created))
                                      \<lparr>Stack = created, PendingRemoval = False,
                                       Resources = emptyResources\<rparr>
                                      (StackContainers ssc)\<rparr>,
                              w3))))))"

text \<open>The loop of \<open>CleanupOldStacks\<close>: it returns at the first deletion that fails.\<close>
fun cleanupLoop ::
  "'c StackSetController \<Rightarrow> StackSetContainer \<Rightarrow> (UID \<times> StackContainer) list \<Rightarrow> 'c World
     \<Rightarrow> error option \<times> 'c World" where
  "cleanupLoop c ssc [] w = (None, w)"
| "cleanupLoop c ssc ((k, sc) # rest) w =
     (if \<not> PendingRemoval sc then cleanupLoop c ssc rest w
      else
        (case invoke (Call VDelete RStacks (Namespace (Meta (Stack sc))) (Name (Meta (Stack sc))))
                (DeleteStack (client c) (Namespace (Meta (Stack sc))) (Name (Meta (Stack sc)))) w of
           (Some err, w1) \<Rightarrow> failWith (refOf (StackSet ssc)) ''FailedDeleteStack'' err w1
         | (None, w1) \<Rightarrow>
             cleanupLoop c ssc rest
               (Eventf (refOf (StackSet ssc)) EventTypeNormal ''DeletedExcessStack''
                  (''Deleted excess stack '' @ Name (Meta (Stack sc))) w1)))"

definition CleanupOldStacks ::
  "'c StackSetController \<Rightarrow> StackSetContainer \<Rightarrow> 'c World \<Rightarrow> error option \<times> 'c World" where
  "CleanupOldStacks c ssc w = cleanupLoop c ssc (StackContainers ssc) w"

section \<open>Resource converger of the StackSet-level routing objects\<close>





section \<open>Reconciliation of one StackSet\<close>

fun Join :: "string list \<Rightarrow> string \<Rightarrow> string" where
  "Join [] sep = []"
| "Join [x] sep = x"
| "Join (x # y # zs) sep = x @ sep @ Join (y # zs) sep"

text \<open>\<open>RecordTrafficSwitch\<close> records an event only when there are changes to record.\<close>
definition RecordTrafficSwitch ::
  "'c StackSetController \<Rightarrow> StackSetContainer \<Rightarrow> 'c World \<Rightarrow> error option \<times> 'c World" where
  "RecordTrafficSwitch c ssc w =
     (let trafficChanges = TrafficChanges (core c) ssc
      in if length trafficChanges \<noteq> 0
         then (None, Eventf (refOf (StackSet ssc)) EventTypeNormal ''TrafficSwitched''
                       (''Switched traffic: '' @ Join trafficChanges '', '') w)
         else (None, w))"

definition ReconcileStackSetDesiredTraffic ::
  "'c StackSetController \<Rightarrow> StackSet \<Rightarrow> DesiredTraffic list \<Rightarrow> 'c World
     \<Rightarrow> error option \<times> 'c World" where
  "ReconcileStackSetDesiredTraffic c existing updatedTraffic w =
     (if DeepEqualTraffic (equality c) (Traffic (Spec existing)) updatedTraffic then (None, w)
      else
        (let updated = existing\<lparr>Spec := (Spec existing)\<lparr>Traffic := updatedTraffic\<rparr>\<rparr>
         in (case invoke (Call VUpdate RStackSets (Namespace (Meta updated)) (Name (Meta updated)))
                    (UpdateStackSet (client c) (Namespace (Meta updated)) updated) w of
               (Inl err, w1) \<Rightarrow> (Some err, w1)
             | (Inr result, w1) \<Rightarrow>
                 (None, Eventf (refOf updated) EventTypeNormal ''UpdatedStackSet''
                          (''Updated StackSet '' @ Name (Meta updated)) w1))))"

text \<open>
  \<open>err = step; if err != nil { return c.errorEventf(sc.Stack, reason, err) }\<close>, then the
  rest of the function.
\<close>
definition orReturn ::
  "error option \<times> 'c World \<Rightarrow> ObjectRef \<Rightarrow> string \<Rightarrow> ('c World \<Rightarrow> error option \<times> 'c World)
     \<Rightarrow> error option \<times> 'c World" where
  "orReturn r obj reason rest =
     (case r of (Some err, w) \<Rightarrow> failWith obj reason err w | (None, w) \<Rightarrow> rest w)"

definition ReconcileStackResources ::
  "'c StackSetController \<Rightarrow> StackSetContainer \<Rightarrow> StackContainer \<Rightarrow> 'c World
     \<Rightarrow> error option \<times> 'c World" where
  "ReconcileStackResources c ssc sc w0 =
     orReturn (runOp (ReconcileStackIngress (stackops c)) sc w0)
       (refOf (Stack sc)) ''FailedManageIngress'' (\<lambda>w1.
     orReturn (runOp (ReconcileStackIngressSegment (stackops c)) sc w1)
       (refOf (Stack sc)) ''FailedManageIngressSegment'' (\<lambda>w2.
     orReturn (if RouteGroupSupportEnabled (config c)
               then runOp (ReconcileStackRouteGroup (stackops c)) sc w2 else (None, w2))
       (refOf (Stack sc)) ''FailedManageRouteGroup'' (\<lambda>w3.
     orReturn (if RouteGroupSupportEnabled (config c)
               then runOp (ReconcileStackRouteGroupSegment (stackops c)) sc w3 else (None, w3))
       (refOf (Stack sc)) ''FailedManageRouteGroupSegment'' (\<lambda>w4.
     orReturn (if ConfigMapSupportEnabled (config c)
               then runOp (ReconcileStackConfigMapRefs (stackops c)) sc w4 else (None, w4))
       (refOf (Stack sc)) ''FailedManageConfigMapRefs'' (\<lambda>w5.
     orReturn (if SecretSupportEnabled (config c)
               then runOp (ReconcileStackSecretRefs (stackops c)) sc w5 else (None, w5))
       (refOf (Stack sc)) ''FailedManageSecretRefs'' (\<lambda>w6.
     orReturn (if PcsSupportEnabled (config c)
               then runOp (ReconcileStackPlatformCredentialsSets (stackops c)) sc w6
               else (None, w6))
       (refOf (Stack sc)) ''FailedManagePlatformCredentialsSet'' (\<lambda>w7.
     orReturn (runOp (ReconcileStackDeployment (stackops c)) sc w7)
       (refOf (Stack sc)) ''FailedManageDeployment'' (\<lambda>w8.
     orReturn (runOp (ReconcileStackHPA (stackops c)) sc w8)
       (refOf (Stack sc)) ''FailedManageHPA'' (\<lambda>w9.
     orReturn (runOp (ReconcileStackService (stackops c)) sc w9)
       (refOf (Stack sc)) ''FailedManageService'' (\<lambda>w10. (None, w10)))))))))))"

text \<open>
  "Proceed on errors": \<open>if err != nil { err = c.errorEventf(obj, reason, err); log }\<close>.
\<close>
definition proceed :: "ObjectRef \<Rightarrow> string \<Rightarrow> error option \<times> 'c World \<Rightarrow> 'c World" where
  "proceed obj reason r =
     (case r of (Some err, w) \<Rightarrow> snd (errorEventf obj reason err w) | (None, w) \<Rightarrow> w)"

text \<open>One turn of either loop over the stacks in \<open>ReconcileStackSet\<close>.\<close>
definition reconcileStack ::
  "'c StackSetController \<Rightarrow> StackSetContainer \<Rightarrow> UID \<Rightarrow> StackContainer \<Rightarrow> 'c World \<Rightarrow> 'c World" where
  "reconcileStack c container k sc w =
     proceed (refOf (Stack sc)) ''FailedManageStack''
       (ReconcileStackResources c container sc (enter (SReconcileStackResources k) w))"

text \<open>
  The loop over \<open>segsInOrder\<close>. An id that is no key of \<open>StackContainers\<close> yields a nil
  container, which \<open>ReconcileStackResources\<close> dereferences: the run panics (\<open>Inl\<close>).
\<close>
fun reconcileInOrder ::
  "'c StackSetController \<Rightarrow> StackSetContainer \<Rightarrow> UID list \<Rightarrow> 'c World \<Rightarrow> 'c World + 'c World" where
  "reconcileInOrder c container [] w = Inr w"
| "reconcileInOrder c container (k # ids) w =
     (case map_of (StackContainers container) k of
        None \<Rightarrow> Inl (enter (SReconcileStackResources k) w)
      | Some sc \<Rightarrow> reconcileInOrder c container ids (reconcileStack c container k sc w))"

text \<open>The loop over the stack containers that were not reconciled in segment order.\<close>
fun reconcileRest ::
  "'c StackSetController \<Rightarrow> StackSetContainer \<Rightarrow> UID list \<Rightarrow> (UID \<times> StackContainer) list
     \<Rightarrow> 'c World \<Rightarrow> 'c World" where
  "reconcileRest c container reconciledStacks [] w = w"
| "reconcileRest c container reconciledStacks ((k, sc) # rest) w =
     (if k \<in> set reconciledStacks then reconcileRest c container reconciledStacks rest w
      else reconcileRest c container reconciledStacks rest (reconcileStack c container k sc w))"

definition panicNilPointer :: error where
  "panicNilPointer = Failure ''panic: runtime error: invalid memory address or nil pointer dereference''"

text \<open>
  \<open>ReconcileStackSet\<close> reconciles all the things from a stackset. It returns the error,
  the container as the function leaves it, and the world; \<open>None\<close> if the status writer
  never returns. The deferred \<open>recover\<close> turns the panic into an error and counts it.
\<close>
definition ReconcileStackSet ::
  "'c StackSetController \<Rightarrow> StackSetContainer \<Rightarrow> 'c World
     \<Rightarrow> (error option \<times> StackSetContainer \<times> 'c World) option" where
  "ReconcileStackSet c container w0 =
     (case CreateCurrentStack c container (enter SCreateCurrentStack w0) of
        (err1, container1, w1) \<Rightarrow>
     (let w2 = enter SUpdateFromResources
                 (proceed (refOf (StackSet container1)) ''FailedCreateStack'' (err1, w1))
      in case UpdateFromResources (core c) container1 of
        (Some err, container2) \<Rightarrow> Some (Some err, container2, w2)
      | (None, container2) \<Rightarrow>
     (case ManageTraffic (core c) (timeNow c (store w2)) container2 of
        (err3, container3) \<Rightarrow>
     (let w3 = (case err3 of
                  Some err \<Rightarrow>
                    Eventf (refOf (StackSet container3)) EventTypeWarning ''TrafficNotSwitched''
                      (''Failed to switch traffic: '' @ Error err) (enter SManageTraffic w2)
                | None \<Rightarrow> enter SManageTraffic w2);
          container4 = MarkExpiredStacks (core c) container3;
          w4 = enter SMarkExpiredStacks w3
      in case ReconcileTrafficSegments c container4 (enter SComputeTrafficSegments w4) of
        ((segsInOrder, err5), container5, w5) \<Rightarrow>
     (case reconcileInOrder c container5 segsInOrder
             (proceed (refOf (StackSet container5)) reasonFailedManageStackSet (err5, w5)) of
        Inl w6 \<Rightarrow> Some (Some panicNilPointer, container5, w6\<lparr>panics := panics w6 + 1\<rparr>)
      | Inr w6 \<Rightarrow>
     (let w7 = reconcileRest c container5 segsInOrder (StackContainers container5) w6;
          w8 = proceed (refOf (StackSet container5)) reasonFailedManageStackSet
                 (RecordTrafficSwitch c container5 (enter SRecordTrafficSwitch w7));
          w9 = proceed (refOf (StackSet container5)) reasonFailedManageStackSet
                 (ReconcileStackSetDesiredTraffic c (StackSet container5)
                    (GenerateStackSetTraffic (core c) container5)
                    (enter SReconcileStackSetDesiredTraffic w8));
          w10 = proceed (refOf (StackSet container5)) reasonFailedManageStackSet
                  (CleanupOldStacks c container5 (enter SCleanupOldStacks w9))
      in case ReconcileStatuses c container5 (enter SReconcileStatuses w10) of
           None \<Rightarrow> None
         | Some (err, w11) \<Rightarrow> Some (err, container5, w11)))))))"

section \<open>The main loop\<close>

text \<open>
  \<open>time.Since\<close> saturates at the largest and the smallest Duration; the product
  \<open>5*c.config.Interval\<close> wraps around as int64 arithmetic does.
\<close>
definition maxDuration :: Duration where
  "maxDuration = 2 ^ 63 - 1"

definition minDuration :: Duration where
  "minDuration = - (2 ^ 63)"

definition Since :: "Time \<Rightarrow> Time \<Rightarrow> Duration" where
  "Since t u =
     (if t - u > maxDuration then maxDuration
      else if t - u < minDuration then minDuration else t - u)"

definition int64 :: "int \<Rightarrow> int" where
  "int64 x = (x + 2 ^ 63) mod 2 ^ 64 - 2 ^ 63"

text \<open>The zero \<open>time.Time\<close>: January 1, year 1, in nanoseconds before the Unix epoch.\<close>
definition zeroTime :: Time where
  "zeroTime = - (62135596800 * 1000000000)"

text \<open>The liveness check that \<open>Run\<close> registers, called at the instant \<open>t\<close>.\<close>
definition livenessCheck :: "'c StackSetController \<Rightarrow> Time \<Rightarrow> Time \<Rightarrow> error option" where
  "livenessCheck c nextCheck t =
     (if Since t nextCheck > int64 (5 * Interval (config c))
      then Some (Failure ''nextCheck too old'') else None)"

text \<open>The branch of the main loop that takes one event of the watch.\<close>
definition handleEvent ::
  "'c StackSetController \<Rightarrow> stacksetEvent \<Rightarrow> (UID \<times> StackSet) list \<Rightarrow> (UID \<times> StackSet) list" where
  "handleEvent c e stacksetStore =
     (let stackset = fixupStackSetTypeMeta (core c) (EventStackSet e)
      in case map_of stacksetStore (UID (Meta stackset)) of
           Some old \<Rightarrow>
             if Deleted e \<or> \<not> hasOwnership c stackset
             then AList.delete (UID (Meta stackset)) stacksetStore
             else AList.update (UID (Meta stackset)) stackset stacksetStore
         | None \<Rightarrow>
             if \<not> hasOwnership c stackset then stacksetStore
             else AList.update (UID (Meta stackset)) stackset stacksetStore)"

text \<open>
  The workers of one tick. The error group runs them concurrently; here they run one
  after the other in the order of the index. The result is the error that \<open>Wait\<close>
  returns, which the loop only logs.
\<close>
fun reconcileGroup ::
  "'c StackSetController \<Rightarrow> (UID \<times> StackSet) list \<Rightarrow> Containers \<Rightarrow> 'c World
     \<Rightarrow> (error option \<times> 'c World) option" where
  "reconcileGroup c stacksetStore [] w = Some (None, w)"
| "reconcileGroup c stacksetStore ((stackset, container) # rest) w =
     (case (if map_of stacksetStore stackset \<noteq> None
            then (case ReconcileStackSet c container w of
                    None \<Rightarrow> None
                  | Some (Some err, container', w') \<Rightarrow>
                      Some (failWith (refOf (StackSet container')) reasonFailedManageStackSet err w')
                  | Some (None, container', w') \<Rightarrow> Some (None, w'))
            else Some (None, w)) of
        None \<Rightarrow> None
      | Some (e, w') \<Rightarrow>
          (case reconcileGroup c stacksetStore rest w' of
             None \<Rightarrow> None
           | Some (e', w'') \<Rightarrow> Some ((case e of Some x \<Rightarrow> Some x | None \<Rightarrow> e'), w'')))"

text \<open>The variables of \<open>Run\<close> and of the controller that the main loop changes.\<close>
record 'c RunState =
  nextCheck :: Time
  stacksetStore :: "(UID \<times> StackSet) list"
  world :: "'c World"

text \<open>
  The branch of the main loop that the timer starts. The report of the metrics, whose
  failure is only logged, is left out.
\<close>
definition tick :: "'c StackSetController \<Rightarrow> 'c RunState \<Rightarrow> 'c RunState option" where
  "tick c rs =
     (let rs1 = rs\<lparr>nextCheck := timeNow c (store (world rs)) + Interval (config c)\<rparr>
      in case collectResources c (stacksetStore rs) (enter SCollectResources (world rs)) of
           (Inl err, w) \<Rightarrow> Some (rs1\<lparr>world := w\<rparr>)
         | (Inr stackSetContainers, w) \<Rightarrow>
             (case reconcileGroup c (stacksetStore rs) stackSetContainers w of
                None \<Rightarrow> None
              | Some (err, w') \<Rightarrow> Some (rs1\<lparr>world := w'\<rparr>)))"

text \<open>What the \<open>select\<close> of the main loop receives.\<close>
datatype Input = TimerFired | StackSetEvent stacksetEvent | CtxDone

text \<open>
  The main loop over the inputs received so far. The outer \<open>None\<close> is a tick that never
  returns; the result \<open>None\<close> is a loop that waits for its next input, \<open>Some err\<close> is
  the value that \<open>Run\<close> returns.
\<close>
fun RunLoop ::
  "'c StackSetController \<Rightarrow> Input list \<Rightarrow> 'c RunState \<Rightarrow> (error option option \<times> 'c RunState) option" where
  "RunLoop c [] rs = Some (None, rs)"
| "RunLoop c (TimerFired # inputs) rs =
     (case tick c rs of None \<Rightarrow> None | Some rs' \<Rightarrow> RunLoop c inputs rs')"
| "RunLoop c (StackSetEvent e # inputs) rs =
     RunLoop c inputs (rs\<lparr>stacksetStore := handleEvent c e (stacksetStore rs)\<rparr>)"
| "RunLoop c (CtxDone # inputs) rs = Some (Some None, rs)"

definition Run ::
  "'c StackSetController \<Rightarrow> Input list \<Rightarrow> 'c World
     \<Rightarrow> (error option option \<times> 'c RunState) option" where
  "Run c inputs w =
     (case startWatch c (store w) of
        (Some err, s) \<Rightarrow>
          Some (Some (Some err), \<lparr>nextCheck = zeroTime, stacksetStore = [], world = w\<lparr>store := s\<rparr>\<rparr>)
      | (None, s) \<Rightarrow>
          RunLoop c inputs
            \<lparr>nextCheck = timeNow c s - Interval (config c), stacksetStore = [],
             world = w\<lparr>store := s\<rparr>\<rparr>)"

section \<open>What the claims speak about\<close>

text \<open>
  The child resources that are attached to a container, each with the kind of its slot:
  the Stack of every stack container, the objects in the slots of its resources, and
  the StackSet-level ingress and route group.
\<close>
definition slot :: "Resource \<Rightarrow> ('a, 'b) Object option \<Rightarrow> (Resource \<times> ObjectMeta) list" where
  "slot kind x = (case x of None \<Rightarrow> [] | Some obj \<Rightarrow> [(kind, Meta obj)])"

definition attachedToResources :: "StackResources \<Rightarrow> (Resource \<times> ObjectMeta) list" where
  "attachedToResources r =
     slot RDeployments (Deployment r) @ slot RHorizontalPodAutoscalers (HPA r)
     @ slot RServices (Service r) @ slot RIngresses (Ingress r)
     @ slot RIngresses (IngressSegment r) @ slot RRouteGroups (RouteGroup r)
     @ slot RRouteGroups (RouteGroupSegment r)
     @ map (\<lambda>x. (RConfigMaps, Meta x)) (ConfigMaps r)
     @ map (\<lambda>x. (RSecrets, Meta x)) (Secrets r)
     @ map (\<lambda>x. (RPlatformCredentialsSets, Meta x)) (PlatformCredentialsSets r)"

definition attachedToStack :: "StackContainer \<Rightarrow> (Resource \<times> ObjectMeta) list" where
  "attachedToStack sc = (RStacks, Meta (Stack sc)) # attachedToResources (Resources sc)"

definition attachedToStackSet :: "StackSetContainer \<Rightarrow> (Resource \<times> ObjectMeta) list" where
  "attachedToStackSet ssc =
     slot RIngresses (StackSetIngress ssc) @ slot RRouteGroups (StackSetRouteGroup ssc)
     @ concat (map (\<lambda>p. attachedToStack (snd p)) (StackContainers ssc))"

definition attached :: "Containers \<Rightarrow> (Resource \<times> ObjectMeta) list" where
  "attached stacksets = concat (map (\<lambda>p. attachedToStackSet (snd p)) stacksets)"

text \<open>The objects of a listing that have exactly one owner reference, as attached items.\<close>
definition singleOwner :: "Resource \<Rightarrow> ('a, 'b) Object list \<Rightarrow> (Resource \<times> ObjectMeta) list" where
  "singleOwner kind items =
     map (\<lambda>x. (kind, Meta x)) (filter (\<lambda>x. length (OwnerReferences (Meta x)) = 1) items)"

text \<open>What no collector changes in a container: its key, its StackSet, its reconciler.\<close>
definition frameOf :: "UID \<times> StackSetContainer \<Rightarrow> UID \<times> StackSet \<times> TrafficReconciler" where
  "frameOf p = (fst p, StackSet (snd p), TrafficReconciler (snd p))"

definition listingError :: "error \<Rightarrow> bool" where
  "listingError err = (\<exists>msg. err = Failure (''failed to list '' @ msg))"

text \<open>A collector either fails with the error of its listing or keeps the frame of the index.\<close>
definition keepsFrame ::
  "(Containers \<Rightarrow> 'c World \<Rightarrow> (error + Containers) \<times> 'c World) \<Rightarrow> bool" where
  "keepsFrame collect =
     (\<forall>cs w. case collect cs w of
        (Inl err, w') \<Rightarrow> listingError err
      | (Inr cs', w') \<Rightarrow> map frameOf cs' = map frameOf cs)"

text \<open>Every attached resource has exactly one owner reference.\<close>
definition allSingleOwner :: "Containers \<Rightarrow> bool" where
  "allSingleOwner cs = (\<forall>x \<in> set (attached cs). length (OwnerReferences (snd x)) = 1)"

text \<open>A collector that keeps a property of the index whenever it succeeds.\<close>
definition preserves ::
  "(Containers \<Rightarrow> bool) \<Rightarrow> (Containers \<Rightarrow> 'c World \<Rightarrow> (error + Containers) \<times> 'c World) \<Rightarrow> bool" where
  "preserves P collect =
     (\<forall>cs w cs' w'. P cs \<longrightarrow> collect cs w = (Inr cs', w') \<longrightarrow> P cs')"

text \<open>Some StackSet has a stack container with this UID.\<close>
definition ownedDirectly :: "UID \<Rightarrow> Containers \<Rightarrow> bool" where
  "ownedDirectly uid cs = (\<exists>p \<in> set cs. map_of (StackContainers (snd p)) uid \<noteq> None)"

text \<open>Some stack container holds a collected deployment with this UID.\<close>
definition ownedViaDeployment :: "UID \<Rightarrow> Containers \<Rightarrow> bool" where
  "ownedViaDeployment uid cs =
     (\<exists>p \<in> set cs. \<exists>q \<in> set (StackContainers (snd p)). deploymentHasUID uid (snd q))"

text \<open>
  The index \<open>cs'\<close> is the index \<open>cs\<close> with \<open>f\<close> applied to exactly one stack
  container, one that satisfies \<open>P\<close>.
\<close>
definition attachesAt ::
  "(StackContainer \<Rightarrow> StackContainer) \<Rightarrow> (StackContainer \<Rightarrow> bool) \<Rightarrow> Containers \<Rightarrow> Containers \<Rightarrow> bool" where
  "attachesAt f P cs cs' =
     (\<exists>pre k ssc post pre' k' sc post'.
        cs = pre @ (k, ssc) # post \<and> StackContainers ssc = pre' @ (k', sc) # post' \<and> P sc
        \<and> cs' = pre @ (k, ssc\<lparr>StackContainers := pre' @ (k', f sc) # post'\<rparr>) # post)"

text \<open>
  \<open>ReconcileStackResources\<close> seen as a list: the steps that the configuration enables,
  each with the reason of its event, run in order until one fails.
\<close>
definition stackSteps :: "'c StackSetController \<Rightarrow> (string \<times> 'c StackOp) list" where
  "stackSteps c =
     [(''FailedManageIngress'', ReconcileStackIngress (stackops c)),
      (''FailedManageIngressSegment'', ReconcileStackIngressSegment (stackops c))]
     @ (if RouteGroupSupportEnabled (config c)
        then [(''FailedManageRouteGroup'', ReconcileStackRouteGroup (stackops c)),
              (''FailedManageRouteGroupSegment'', ReconcileStackRouteGroupSegment (stackops c))]
        else [])
     @ (if ConfigMapSupportEnabled (config c)
        then [(''FailedManageConfigMapRefs'', ReconcileStackConfigMapRefs (stackops c))] else [])
     @ (if SecretSupportEnabled (config c)
        then [(''FailedManageSecretRefs'', ReconcileStackSecretRefs (stackops c))] else [])
     @ (if PcsSupportEnabled (config c)
        then [(''FailedManagePlatformCredentialsSet'',
               ReconcileStackPlatformCredentialsSets (stackops c))] else [])
     @ [(''FailedManageDeployment'', ReconcileStackDeployment (stackops c)),
        (''FailedManageHPA'', ReconcileStackHPA (stackops c)),
        (''FailedManageService'', ReconcileStackService (stackops c))]"

fun runSteps ::
  "ObjectRef \<Rightarrow> StackContainer \<Rightarrow> (string \<times> 'c StackOp) list \<Rightarrow> 'c World
     \<Rightarrow> error option \<times> 'c World" where
  "runSteps obj sc [] w = (None, w)"
| "runSteps obj sc (step # rest) w =
     orReturn (runOp (snd step) sc w) obj (fst step) (runSteps obj sc rest)"

text \<open>The delete requests for the stack containers that are flagged, in the order of the loop.\<close>
definition pendingDeletes :: "(UID \<times> StackContainer) list \<Rightarrow> Call list" where
  "pendingDeletes scs =
     map (\<lambda>p. Call VDelete RStacks (Namespace (Meta (Stack (snd p)))) (Name (Meta (Stack (snd p)))))
       (filter (\<lambda>p. PendingRemoval (snd p)) scs)"



section \<open>A small cluster to run the controller on\<close>

text \<open>
  The state of the API server is the number of requests it has served. The client below
  lists nothing, finds nothing and accepts every write.
\<close>
definition nothingFound :: error where
  "nothingFound = Failure ''not found''"

definition okClient :: "nat Client" where
  "okClient =
     \<lparr>ListIngresses = (\<lambda>ns s. (Inr [], Suc s)),
      ListRouteGroups = (\<lambda>ns s. (Inr [], Suc s)),
      ListStacks = (\<lambda>ns s. (Inr [], Suc s)),
      ListDeployments = (\<lambda>ns s. (Inr [], Suc s)),
      ListServices = (\<lambda>ns s. (Inr [], Suc s)),
      ListHPAs = (\<lambda>ns s. (Inr [], Suc s)),
      ListConfigMaps = (\<lambda>ns s. (Inr [], Suc s)),
      ListSecrets = (\<lambda>ns s. (Inr [], Suc s)),
      ListPlatformCredentialsSets = (\<lambda>ns s. (Inr [], Suc s)),
      GetStack = (\<lambda>ns name s. (Inl nothingFound, Suc s)),
      CreateStack = (\<lambda>ns x s. (Inr x, Suc s)),
      UpdateStackStatus = (\<lambda>ns x s. (Inr x, Suc s)),
      DeleteStack = (\<lambda>ns name s. (None, Suc s)),
      GetStackSet = (\<lambda>ns name s. (Inl nothingFound, Suc s)),
      UpdateStackSet = (\<lambda>ns x s. (Inr x, Suc s)),
      UpdateStackSetStatus = (\<lambda>ns x s. (Inr x, Suc s)),
      CreateIngress = (\<lambda>ns x s. (Inr x, Suc s)),
      UpdateIngress = (\<lambda>ns x s. (Inr x, Suc s)),
      CreateRouteGroup = (\<lambda>ns x s. (Inr x, Suc s)),
      UpdateRouteGroup = (\<lambda>ns x s. (Inr x, Suc s))\<rparr>"

definition plainSemantic :: Semantic where
  "plainSemantic =
     \<lparr>DeepDerivativeIngressSpec = (=), DeepDerivativeRouteGroupSpec = (=),
      DeepEqualStackStatus = (=), DeepEqualStackSetStatus = (=), DeepEqualTraffic = (=)\<rparr>"

text \<open>A package core that creates no stack, switches no traffic and plans no segment.\<close>
definition idleCore :: Core where
  "idleCore =
     \<lparr>coreAPIVersion = ''zalando.org/v1'', KindStackSet = ''StackSet'', KindStack = ''Stack'',
      SegmentSuffix = ''-traffic-segment'',
      NewStack = (\<lambda>ssc. None),
      UpdateFromResources = (\<lambda>ssc. (None, ssc)),
      ManageTraffic = (\<lambda>t ssc. (None, ssc)),
      MarkExpiredStacks = (\<lambda>ssc. ssc),
      ComputeTrafficSegments = (\<lambda>ssc. (Inr [], ssc)),
      TrafficChanges = (\<lambda>ssc. []),
      GenerateStackSetTraffic = (\<lambda>ssc. Traffic (Spec (StackSet ssc))),
      GenerateStackStatus = (\<lambda>sc. Status (Stack sc)),
      GenerateStackSetStatus = (\<lambda>ssc. Status (StackSet ssc))\<rparr>"

text \<open>Per-kind reconcilers that send one request each, named after the kind.\<close>
definition opOk :: "Resource \<Rightarrow> nat StackOp" where
  "opOk kind sc s = ((None, [Call VUpdate kind (scNamespace sc) (scName sc)], []), Suc s)"

definition opFails :: "Resource \<Rightarrow> nat StackOp" where
  "opFails kind sc s =
     ((Some (Failure ''refused''), [Call VUpdate kind (scNamespace sc) (scName sc)], []), Suc s)"

definition okOps :: "nat StackOps" where
  "okOps =
     \<lparr>ReconcileStackIngress = opOk RIngresses,
      ReconcileStackIngressSegment = opOk RIngresses,
      ReconcileStackRouteGroup = opOk RRouteGroups,
      ReconcileStackRouteGroupSegment = opOk RRouteGroups,
      ReconcileStackConfigMapRefs = opOk RConfigMaps,
      ReconcileStackSecretRefs = opOk RSecrets,
      ReconcileStackPlatformCredentialsSets = opOk RPlatformCredentialsSets,
      ReconcileStackDeployment = opOk RDeployments,
      ReconcileStackHPA = opOk RHorizontalPodAutoscalers,
      ReconcileStackService = opOk RServices\<rparr>"

definition second :: Duration where
  "second = 1000000000"

definition demoConfig :: StackSetConfig where
  "demoConfig =
     \<lparr>ConfigNamespace = ''default'', ControllerID = ''blue'', ClusterDomains = [],
      BackendWeightsAnnotationKey = ''weights'', SyncIngressAnnotations = [],
      ReconcileWorkers = 1, Interval = second, RouteGroupSupportEnabled = False,
      ConfigMapSupportEnabled = False, SecretSupportEnabled = False,
      PcsSupportEnabled = False\<rparr>"

definition demoParseDuration :: "string \<Rightarrow> error + Duration" where
  "demoParseDuration s =
     (if s = ''5m'' then Inr (300 * second) else Inl (Failure ''time: invalid duration''))"

definition demoController :: "nat StackSetController" where
  "demoController =
     \<lparr>config = demoConfig, client = okClient, equality = plainSemantic, core = idleCore,
      stackops = okOps, now = (\<lambda>s. ''2024-01-01T00:00:00Z''), timeNow = (\<lambda>s. 0),
      ParseDuration = demoParseDuration, startWatch = (\<lambda>s. (None, s))\<rparr>"

definition emptyWorld :: "nat World" where
  "emptyWorld = \<lparr>store = 0, calls = [], events = [], panics = 0, stages = []\<rparr>"

definition meta :: "string \<Rightarrow> UID \<Rightarrow> gomap \<Rightarrow> UID list \<Rightarrow> ObjectMeta" where
  "meta name uid annotations owners =
     \<lparr>Name = name, Namespace = ''default'', UID = uid, Annotations = annotations,
      Labels = None, OwnerReferences = map (\<lambda>u. \<lparr>OwnerUID = u\<rparr>) owners\<rparr>"

definition object :: "string \<Rightarrow> ObjectMeta \<Rightarrow> 'a \<Rightarrow> 'b \<Rightarrow> ('a, 'b) Object" where
  "object kind m spec status =
     \<lparr>APIVersion = ''zalando.org/v1'', Kind = kind, Meta = m, Spec = spec, Status = status\<rparr>"

definition demoStackSet :: "string \<Rightarrow> UID \<Rightarrow> gomap \<Rightarrow> StackSet" where
  "demoStackSet name uid annotations =
     object ''StackSet'' (meta name uid annotations [])
       \<lparr>Traffic = []\<rparr> \<lparr>ObservedStackVersion = ''v1'', StatusSummary = []\<rparr>"

text \<open>A StackSet of this controller and a StackSet of another one.\<close>
definition blueSet :: StackSet where
  "blueSet =
     demoStackSet ''shop'' ''uid-shop''
       (Some [StacksetControllerControllerAnnotationKey \<mapsto> ''blue''])"

definition greenSet :: StackSet where
  "greenSet =
     demoStackSet ''bank'' ''uid-bank''
       (Some [StacksetControllerControllerAnnotationKey \<mapsto> ''green''])"

definition demoStack :: "string \<Rightarrow> UID \<Rightarrow> UID list \<Rightarrow> string \<Rightarrow> Stack" where
  "demoStack name uid owners status =
     object ''Stack'' (meta name uid None owners) \<lparr>ConfigurationResources = []\<rparr>
       (StackStatus status)"

definition demoContainer :: "Stack \<Rightarrow> bool \<Rightarrow> StackContainer" where
  "demoContainer stack pending =
     \<lparr>Stack = stack, PendingRemoval = pending, Resources = emptyResources\<rparr>"

text \<open>A StackSet that asks for prescaling and gives a reset delay that does not parse.\<close>
definition prescaledSet :: StackSet where
  "prescaledSet =
     demoStackSet ''shop'' ''uid-shop''
       (Some [PrescaleStacksAnnotationKey \<mapsto> ''yes'',
              ResetHPAMinReplicasDelayAnnotationKey \<mapsto> ''soon''])"

text \<open>The state in which \<open>Run\<close> enters its loop, and the one after the first tick.\<close>
definition demoStart :: "nat RunState" where
  "demoStart = \<lparr>nextCheck = - second, stacksetStore = [], world = emptyWorld\<rparr>"

definition demoListCalls :: "Call list" where
  "demoListCalls =
     [Call VList RStacks ''default'' [], Call VList RIngresses ''default'' [],
      Call VList RDeployments ''default'' [], Call VList RServices ''default'' [],
      Call VList RHorizontalPodAutoscalers ''default'' []]"

definition demoAfterTick :: "nat RunState" where
  "demoAfterTick =
     \<lparr>nextCheck = second, stacksetStore = [],
      world = \<lparr>store = 5, calls = demoListCalls, events = [], panics = 0,
               stages = [SCollectResources]\<rparr>\<rparr>"

text \<open>
  A cluster with one stack of \<open>shop\<close>, its deployment, a service that the deployment
  owns, an autoscaler that the stack owns, and three ingresses: one owned by the stack, one
  without an owner and one with two owners.
\<close>
definition shopStack :: Stack where
  "shopStack = demoStack ''shop-v1'' ''uid-shop-v1'' [''uid-shop''] ''ready''"

definition shopDeployment :: Deployment where
  "shopDeployment =
     object ''Deployment'' (meta ''shop-v1'' ''uid-dep-1'' None [''uid-shop-v1''])
       (DeploymentSpec ''pods'') ()"

definition legacyService :: Service where
  "legacyService =
     object ''Service'' (meta ''shop-v1'' ''uid-svc-1'' None [''uid-dep-1''])
       (ServiceSpec ''ports'') ()"

definition strayService :: Service where
  "strayService =
     object ''Service'' (meta ''other'' ''uid-svc-2'' None [''uid-nobody''])
       (ServiceSpec ''ports'') ()"

definition shopHPA :: HPA where
  "shopHPA =
     object ''HorizontalPodAutoscaler'' (meta ''shop-v1'' ''uid-hpa-1'' None [''uid-shop-v1''])
       (HPASpec ''cpu'') ()"

definition ownedIngress :: Ingress where
  "ownedIngress =
     object ''Ingress'' (meta ''shop-v1'' ''uid-ing-1'' None [''uid-shop-v1''])
       (IngressSpec ''rules'') ()"

definition orphanIngress :: Ingress where
  "orphanIngress =
     object ''Ingress'' (meta ''orphan'' ''uid-ing-2'' None []) (IngressSpec ''rules'') ()"

definition sharedIngress :: Ingress where
  "sharedIngress =
     object ''Ingress'' (meta ''shared'' ''uid-ing-3'' None [''uid-shop-v1'', ''uid-shop''])
       (IngressSpec ''rules'') ()"

definition busyClient :: "nat Client" where
  "busyClient =
     okClient\<lparr>ListStacks := (\<lambda>ns s. (Inr [shopStack], Suc s)),
              ListIngresses := (\<lambda>ns s. (Inr [orphanIngress, sharedIngress, ownedIngress], Suc s)),
              ListDeployments := (\<lambda>ns s. (Inr [shopDeployment], Suc s)),
              ListServices := (\<lambda>ns s. (Inr [strayService, legacyService], Suc s)),
              ListHPAs := (\<lambda>ns s. (Inr [shopHPA], Suc s))\<rparr>"

definition busyController :: "nat StackSetController" where
  "busyController = demoController\<lparr>client := busyClient\<rparr>"

text \<open>The index that \<open>collectResources\<close> builds in that cluster.\<close>
definition shopResources :: StackResources where
  "shopResources =
     emptyResources\<lparr>Deployment := Some shopDeployment, HPA := Some shopHPA,
                    Service := Some legacyService, Ingress := Some ownedIngress\<rparr>"

definition shopIndex :: Containers where
  "shopIndex =
     [(''uid-shop'',
       (NewContainer blueSet SimpleTrafficReconciler ''weights'' [] [])
         \<lparr>StackContainers :=
            [(''uid-shop-v1'',
              \<lparr>Stack = shopStack, PendingRemoval = False, Resources = shopResources\<rparr>)]\<rparr>)]"

text \<open>The index of the cluster when the deployments are collected and the services are not.\<close>
definition deployedIndex :: "StackResources \<Rightarrow> Containers" where
  "deployedIndex r =
     [(''uid-shop'',
       (NewContainer blueSet SimpleTrafficReconciler ''weights'' [] [])
         \<lparr>StackContainers :=
            [(''uid-shop-v1'', \<lparr>Stack = shopStack, PendingRemoval = False, Resources = r\<rparr>)]\<rparr>)]"

text \<open>An autoscaler that the deployment owns, as autoscalers once were.\<close>
definition legacyHPA :: HPA where
  "legacyHPA =
     object ''HorizontalPodAutoscaler'' (meta ''shop-v1'' ''uid-hpa-2'' None [''uid-dep-1''])
       (HPASpec ''cpu'') ()"

text \<open>
  An API server whose first request meets a conflict: somebody else has just written the
  status that the controller is about to write. A fetch returns the stack as it is now.
\<close>
definition conflictClient :: "nat Client" where
  "conflictClient =
     okClient\<lparr>GetStack := (\<lambda>ns name s. (Inr shopStack, Suc s)),
              UpdateStackStatus :=
                (\<lambda>ns x s. if s = 0 then (Inl (Conflict ''the object has been modified''), Suc s)
                           else (Inr x, Suc s))\<rparr>"

text \<open>A package core that computes the status \<open>ready\<close> for every stack.\<close>
definition readyCore :: Core where
  "readyCore = idleCore\<lparr>GenerateStackStatus := (\<lambda>sc. StackStatus ''ready'')\<rparr>"

definition conflictController :: "nat StackSetController" where
  "conflictController = demoController\<lparr>client := conflictClient, core := readyCore\<rparr>"

text \<open>The stack as the tick collected it, before the other writer changed its status.\<close>
definition staleStack :: Stack where
  "staleStack = demoStack ''shop-v1'' ''uid-shop-v1'' [''uid-shop''] ''pending''"

text \<open>The container of \<open>shop\<close> with that stack.\<close>
definition staleContainer :: StackSetContainer where
  "staleContainer =
     (NewContainer blueSet SimpleTrafficReconciler ''weights'' [] [])
       \<lparr>StackContainers := [(''uid-shop-v1'', demoContainer staleStack False)]\<rparr>"









text \<open>
  A second stack of \<open>shop\<close>, a reconciler of ingresses that is refused for the stack
  \<open>shop-v1\<close>, and an API server that refuses to delete that stack.
\<close>
definition shopStack2 :: Stack where
  "shopStack2 = demoStack ''shop-v2'' ''uid-shop-v2'' [''uid-shop''] ''ready''"

definition opRefuses :: "string \<Rightarrow> Resource \<Rightarrow> nat StackOp" where
  "opRefuses name kind sc s = (if scName sc = name then opFails kind sc s else opOk kind sc s)"

definition refusedOps :: "nat StackOps" where
  "refusedOps = okOps\<lparr>ReconcileStackIngress := opRefuses ''shop-v1'' RIngresses\<rparr>"

definition refusedController :: "nat StackSetController" where
  "refusedController = demoController\<lparr>stackops := refusedOps\<rparr>"

definition twoStacks :: "bool \<Rightarrow> StackSetContainer" where
  "twoStacks pending =
     (NewContainer blueSet SimpleTrafficReconciler ''weights'' [] [])
       \<lparr>StackContainers :=
          [(''uid-shop-v1'', demoContainer shopStack pending),
           (''uid-shop-v2'', demoContainer shopStack2 pending)]\<rparr>"

definition keepingClient :: "nat Client" where
  "keepingClient =
     okClient\<lparr>DeleteStack :=
       (\<lambda>ns name s. (if name = ''shop-v1'' then Some (Failure ''forbidden'') else None, Suc s))\<rparr>"

definition keepingController :: "nat StackSetController" where
  "keepingController = demoController\<lparr>client := keepingClient\<rparr>"

section \<open>Properties\<close>

lemma getOwnerUID_Some_iff: "(getOwnerUID m \<noteq> None) = (length (OwnerReferences m) = 1)"
  by (auto simp: getOwnerUID_def split: list.splits)

lemma getOwnerUID_SomeD: "getOwnerUID m = Some uid \<Longrightarrow> length (OwnerReferences m) = 1"
  by (auto simp: getOwnerUID_def split: list.splits)

lemma attached_Cons: "attached ((k, ssc) # rest) = attachedToStackSet ssc @ attached rest"
  by (simp add: attached_def)

lemma set_map_entry_stacks:
  assumes "\<And>sc. set (attachedToStack (f sc)) \<subseteq> set (attachedToStack sc) \<union> A"
  shows "set (concat (map (\<lambda>p. attachedToStack (snd p)) (AList.map_entry uid f scs)))
           \<subseteq> set (concat (map (\<lambda>p. attachedToStack (snd p)) scs)) \<union> A"
proof (induction scs)
  case Nil
  then show ?case by simp
next
  case (Cons p scs)
  obtain k sc where p: "p = (k, sc)" by (cases p)
  show ?case using Cons assms[of sc] by (auto simp: p)
qed

lemma forOwningStack_attached:
  assumes "\<And>sc. set (attachedToStack (f sc)) \<subseteq> set (attachedToStack sc) \<union> A"
  shows "set (attached (forOwningStack uid f cs)) \<subseteq> set (attached cs) \<union> A"
proof (induction cs)
  case Nil
  then show ?case by simp
next
  case (Cons p cs)
  obtain k ssc where p: "p = (k, ssc)" by (cases p)
  show ?case
  proof (cases "map_of (StackContainers ssc) uid")
    case None
    then show ?thesis using Cons by (auto simp: p attached_Cons)
  next
    case (Some s)
    have "set (attachedToStackSet (ssc\<lparr>StackContainers := AList.map_entry uid f (StackContainers ssc)\<rparr>))
            \<subseteq> set (attachedToStackSet ssc) \<union> A"
      using set_map_entry_stacks[OF assms, of uid "StackContainers ssc"]
      by (auto simp: attachedToStackSet_def)
    then show ?thesis using Some by (auto simp: p attached_Cons)
  qed
qed

lemma viaDeployment_attached:
  assumes "\<And>sc. set (attachedToStack (f sc)) \<subseteq> set (attachedToStack sc) \<union> A"
    and "viaDeployment uid f scs = Some scs'"
  shows "set (concat (map (\<lambda>p. attachedToStack (snd p)) scs'))
           \<subseteq> set (concat (map (\<lambda>p. attachedToStack (snd p)) scs)) \<union> A"
  using assms(2)
proof (induction scs arbitrary: scs')
  case Nil
  then show ?case by simp
next
  case (Cons p scs)
  obtain k sc where p: "p = (k, sc)" by (cases p)
  show ?case
  proof (cases "deploymentHasUID uid sc")
    case True
    then have "scs' = (k, f sc) # scs" using Cons.prems by (simp add: p)
    then show ?thesis using assms(1)[of sc] by (auto simp: p)
  next
    case False
    then obtain r where r: "viaDeployment uid f scs = Some r" "scs' = (k, sc) # r"
      using Cons.prems by (auto simp: p)
    show ?thesis using Cons.IH[OF r(1)] by (auto simp: p r(2))
  qed
qed

lemma forOwningStackOrDeployment_attached:
  assumes "\<And>sc. set (attachedToStack (f sc)) \<subseteq> set (attachedToStack sc) \<union> A"
  shows "set (attached (forOwningStackOrDeployment uid f cs)) \<subseteq> set (attached cs) \<union> A"
proof (induction cs)
  case Nil
  then show ?case by simp
next
  case (Cons p cs)
  obtain k ssc where p: "p = (k, ssc)" by (cases p)
  show ?case
  proof (cases "map_of (StackContainers ssc) uid")
    case (Some s)
    have "set (attachedToStackSet (ssc\<lparr>StackContainers := AList.map_entry uid f (StackContainers ssc)\<rparr>))
            \<subseteq> set (attachedToStackSet ssc) \<union> A"
      using set_map_entry_stacks[OF assms, of uid "StackContainers ssc"]
      by (auto simp: attachedToStackSet_def)
    then show ?thesis using Some by (auto simp: p attached_Cons)
  next
    case None
    show ?thesis
    proof (cases "viaDeployment uid f (StackContainers ssc)")
      case None': None
      then show ?thesis using None Cons by (auto simp: p attached_Cons)
    next
      case (Some scs')
      have "set (attachedToStackSet (ssc\<lparr>StackContainers := scs'\<rparr>))
            \<subseteq> set (attachedToStackSet ssc) \<union> A"
        using viaDeployment_attached[OF assms Some] by (auto simp: attachedToStackSet_def)
      then show ?thesis using None Some by (auto simp: p attached_Cons)
    qed
  qed
qed

lemma set_map_entry_stackset:
  assumes "\<And>ssc. set (attachedToStackSet (f ssc)) \<subseteq> set (attachedToStackSet ssc) \<union> A"
  shows "set (attached (AList.map_entry uid f cs)) \<subseteq> set (attached cs) \<union> A"
proof (induction cs)
  case Nil
  then show ?case by simp
next
  case (Cons p cs)
  obtain k ssc where p: "p = (k, ssc)" by (cases p)
  show ?case using Cons assms[of ssc] by (auto simp: p attached_Cons)
qed

lemma set_update_stacks:
  "set (concat (map (\<lambda>p. attachedToStack (snd p)) (AList.update uid v scs)))
     \<subseteq> set (concat (map (\<lambda>p. attachedToStack (snd p)) scs)) \<union> set (attachedToStack v)"
proof (induction scs)
  case Nil
  then show ?case by simp
next
  case (Cons p scs)
  show ?case using Cons by (cases "fst p = uid") auto
qed

lemma setResources_attached:
  assumes "set (attachedToResources (g (Resources sc))) \<subseteq> set (attachedToResources (Resources sc)) \<union> A"
  shows "set (attachedToStack (setResources g sc)) \<subseteq> set (attachedToStack sc) \<union> A"
  using assms by (auto simp: attachedToStack_def setResources_def)

lemma map_entry_frame:
  assumes "\<And>s. StackSet (f s) = StackSet s \<and> TrafficReconciler (f s) = TrafficReconciler s"
  shows "map frameOf (AList.map_entry k f cs) = map frameOf cs"
proof (induction cs)
  case Nil
  then show ?case by simp
next
  case (Cons p cs)
  then show ?case using assms by (simp add: frameOf_def)
qed

lemma forOwningStack_frame: "map frameOf (forOwningStack uid f cs) = map frameOf cs"
proof (induction cs)
  case Nil
  then show ?case by simp
next
  case (Cons p cs)
  obtain k ssc where p: "p = (k, ssc)" by (cases p)
  show ?case using Cons by (simp add: p frameOf_def split: option.splits)
qed

lemma forOwningStackOrDeployment_frame:
  "map frameOf (forOwningStackOrDeployment uid f cs) = map frameOf cs"
proof (induction cs)
  case Nil
  then show ?case by simp
next
  case (Cons p cs)
  obtain k ssc where p: "p = (k, ssc)" by (cases p)
  show ?case using Cons by (simp add: p frameOf_def split: option.splits)
qed

lemma fold_frame:
  assumes "\<And>x cs. map frameOf (g x cs) = map frameOf cs"
  shows "map frameOf (fold g items cs) = map frameOf cs"
  by (induction items arbitrary: cs) (simp_all add: assms)

lemma collectIngress_frame: "map frameOf (collectIngress k x cs) = map frameOf cs"
  by (simp add: collectIngress_def forOwningStack_frame map_entry_frame split: option.splits)

lemma collectRouteGroup_frame: "map frameOf (collectRouteGroup k x cs) = map frameOf cs"
  by (simp add: collectRouteGroup_def forOwningStack_frame map_entry_frame split: option.splits)

lemma collectStack_frame: "map frameOf (collectStack k x cs) = map frameOf cs"
  by (simp add: collectStack_def map_entry_frame split: option.splits)

lemma collectDeployment_frame: "map frameOf (collectDeployment x cs) = map frameOf cs"
  by (simp add: collectDeployment_def forOwningStack_frame split: option.splits)

lemma collectService_frame: "map frameOf (collectService x cs) = map frameOf cs"
  by (simp add: collectService_def forOwningStackOrDeployment_frame split: option.splits)

lemma collectHPA_frame: "map frameOf (collectHPA x cs) = map frameOf cs"
  by (simp add: collectHPA_def forOwningStackOrDeployment_frame split: option.splits)

lemma collectConfigMap_frame: "map frameOf (collectConfigMap x cs) = map frameOf cs"
  by (simp add: collectConfigMap_def forOwningStack_frame split: option.splits)

lemma collectSecret_frame: "map frameOf (collectSecret x cs) = map frameOf cs"
  by (simp add: collectSecret_def forOwningStack_frame split: option.splits)

lemma collectPlatformCredentialsSetItem_frame:
  "map frameOf (collectPlatformCredentialsSetItem x cs) = map frameOf cs"
  by (simp add: collectPlatformCredentialsSetItem_def forOwningStack_frame split: option.splits)

lemma keepsFrame_InlD: "keepsFrame f \<Longrightarrow> f cs w = (Inl err, w') \<Longrightarrow> listingError err"
  unfolding keepsFrame_def by (metis (mono_tags, lifting) case_prod_conv sum.case(1))

lemma keepsFrame_InrD:
  "keepsFrame f \<Longrightarrow> f cs w = (Inr cs', w') \<Longrightarrow> map frameOf cs' = map frameOf cs"
  unfolding keepsFrame_def by (metis (mono_tags, lifting) case_prod_conv sum.case(2))

lemma listingError_intro: "listingError (Failure (''failed to list '' @ msg))"
  unfolding listingError_def by blast

lemma keepsFrame_listing:
  assumes "\<And>x cs. map frameOf (g x cs) = map frameOf cs"
  shows "keepsFrame (\<lambda>cs w. case invoke cl f w of
            (Inl err, w') \<Rightarrow> (Inl (Failure (''failed to list '' @ m @ Error err)), w')
          | (Inr items, w') \<Rightarrow> (Inr (fold g items cs), w'))"
  unfolding keepsFrame_def
  by (auto simp del: append.simps simp: fold_frame[OF assms] listingError_intro
      split: prod.splits sum.splits)


lemma keepsFrame_collectors:
  "keepsFrame (collectStacks c)" "keepsFrame (collectIngresses c)"
  "keepsFrame (collectRouteGroups c)" "keepsFrame (collectDeployments c)"
  "keepsFrame (collectServices c)" "keepsFrame (collectHPAs c)"
  "keepsFrame (collectConfigMaps c)" "keepsFrame (collectSecrets c)"
  "keepsFrame (collectPlatformCredentialsSet c)"
  unfolding keepsFrame_def collectStacks_def collectIngresses_def collectRouteGroups_def
      collectDeployments_def collectServices_def collectHPAs_def collectConfigMaps_def
      collectSecrets_def collectPlatformCredentialsSet_def
  by (auto simp: listingError_def fold_frame
      collectIngress_frame collectRouteGroup_frame collectStack_frame collectDeployment_frame
      collectService_frame collectHPA_frame collectConfigMap_frame collectSecret_frame
      collectPlatformCredentialsSetItem_frame split: prod.splits sum.splits)

lemma keepsFrame_whenEnabled: "keepsFrame f \<Longrightarrow> keepsFrame (whenEnabled b f)"
  by (auto simp: keepsFrame_def whenEnabled_def)

lemma keepsFrame_andThen:
  assumes "keepsFrame f" and "keepsFrame g"
  shows "keepsFrame (\<lambda>cs w. andThen (f cs w) g)"
  unfolding keepsFrame_def
proof (intro allI)
  fix cs w
  show "case andThen (f cs w) g of
          (Inl err, w') \<Rightarrow> listingError err
        | (Inr cs', w') \<Rightarrow> map frameOf cs' = map frameOf cs"
  proof (cases "f cs w")
    case (Pair a w1)
    show ?thesis
    proof (cases a)
      case (Inl err)
      then show ?thesis using keepsFrame_InlD[OF assms(1)] Pair by (simp add: andThen_def)
    next
      case (Inr cs1)
      have eq: "map frameOf cs1 = map frameOf cs"
        using keepsFrame_InrD[OF assms(1)] Pair Inr by simp
      show ?thesis
      proof (cases "g cs1 w1")
        case (Pair b w2)
        then show ?thesis
          using keepsFrame_InlD[OF assms(2), of cs1 w1] keepsFrame_InrD[OF assms(2), of cs1 w1] eq
            \<open>f cs w = (a, w1)\<close> Inr
          by (cases b) (simp_all add: andThen_def)
      qed
    qed
  qed
qed

lemma keepsFrame_pipeline:
  "keepsFrame (\<lambda>s0 w0.
     andThen (collectStacks c s0 w0) (\<lambda>s1 w1.
     andThen (collectIngresses c s1 w1) (\<lambda>s2 w2.
     andThen (whenEnabled (RouteGroupSupportEnabled (config c)) (collectRouteGroups c) s2 w2) (\<lambda>s3 w3.
     andThen (collectDeployments c s3 w3) (\<lambda>s4 w4.
     andThen (collectServices c s4 w4) (\<lambda>s5 w5.
     andThen (collectHPAs c s5 w5) (\<lambda>s6 w6.
     andThen (whenEnabled (ConfigMapSupportEnabled (config c)) (collectConfigMaps c) s6 w6) (\<lambda>s7 w7.
     andThen (whenEnabled (SecretSupportEnabled (config c)) (collectSecrets c) s7 w7) (\<lambda>s8 w8.
     whenEnabled (PcsSupportEnabled (config c)) (collectPlatformCredentialsSet c) s8 w8)))))))))"
  by (intro keepsFrame_andThen keepsFrame_whenEnabled keepsFrame_collectors)

lemma newContainers_frame:
  "map frameOf (newContainers c st) = map (\<lambda>p. (fst p, snd p, chooseReconciler c (snd p))) st"
  by (simp add: newContainers_def NewContainer_def frameOf_def split: prod.splits)

lemma collectResources_Inr:
  assumes "collectResources c st w = (Inr cs, w')"
  shows "map frameOf cs = map (\<lambda>p. (fst p, snd p, chooseReconciler c (snd p))) st"
  using keepsFrame_InrD[OF keepsFrame_pipeline, of c "newContainers c st" w cs w'] assms
  by (simp add: collectResources_def newContainers_frame)

lemma collectResources_Inl:
  assumes "collectResources c st w = (Inl err, w')"
  shows "listingError err"
  using keepsFrame_InlD[OF keepsFrame_pipeline, of c "newContainers c st" w err w'] assms
  by (simp add: collectResources_def)

lemma frame_member:
  assumes "map frameOf cs = map (\<lambda>p. (fst p, snd p, chooseReconciler c (snd p))) st"
  shows "(uid, ss) \<in> set st \<Longrightarrow>
           \<exists>ssc. (uid, ssc) \<in> set cs \<and> StackSet ssc = ss \<and> TrafficReconciler ssc = chooseReconciler c ss"
    and "(uid, ssc) \<in> set cs \<Longrightarrow> (uid, StackSet ssc) \<in> set st"
proof -
  assume "(uid, ss) \<in> set st"
  then have "(uid, ss, chooseReconciler c ss) \<in> set (map frameOf cs)"
    unfolding assms by force
  then show "\<exists>ssc. (uid, ssc) \<in> set cs \<and> StackSet ssc = ss \<and> TrafficReconciler ssc = chooseReconciler c ss"
    by (auto simp: frameOf_def)
next
  assume "(uid, ssc) \<in> set cs"
  then have "frameOf (uid, ssc) \<in> set (map frameOf cs)" by force
  then show "(uid, StackSet ssc) \<in> set st"
    unfolding assms by (auto simp: frameOf_def)
qed

text \<open>
  Claim C10. A StackSet that carries the prescale-stacks annotation gets the prescaling
  reconciler from \<open>collectResources\<close>; if the reset-delay annotation is absent or
  does not parse, the reset timeout is the default of ten minutes. The container built for
  the StackSet carries that reconciler after collection, and the only errors of
  \<open>collectResources\<close> are those of its listings.
\<close>
theorem prescaling_default_delay:
  assumes "lookup (Annotations (Meta stackset)) PrescaleStacksAnnotationKey \<noteq> None"
    and "lookup (Annotations (Meta stackset)) ResetHPAMinReplicasDelayAnnotationKey = None
         \<or> (\<exists>v err. lookup (Annotations (Meta stackset)) ResetHPAMinReplicasDelayAnnotationKey = Some v
               \<and> ParseDuration c v = Inl err)"
  shows "chooseReconciler c stackset = PrescalingTrafficReconciler (10 * (60 * 1000000000))
         \<and> (\<forall>st w r w'. (uid, stackset) \<in> set st \<longrightarrow> collectResources c st w = (r, w') \<longrightarrow>
               (case r of
                  Inl err \<Rightarrow> listingError err
                | Inr cs \<Rightarrow>
                    (\<exists>ssc. (uid, ssc) \<in> set cs \<and> StackSet ssc = stackset
                       \<and> TrafficReconciler ssc = PrescalingTrafficReconciler (10 * (60 * 1000000000)))))"
proof -
  have none: "getResetMinReplicasDelay c (Annotations (Meta stackset)) = None"
    using assms(2) by (auto simp: getResetMinReplicasDelay_def)
  have choice: "chooseReconciler c stackset = PrescalingTrafficReconciler (10 * (60 * 1000000000))"
    using assms(1) none by (auto simp: chooseReconciler_def defaultResetMinReplicasDelay_def)
  have "case r of
          Inl err \<Rightarrow> listingError err
        | Inr cs \<Rightarrow>
            (\<exists>ssc. (uid, ssc) \<in> set cs \<and> StackSet ssc = stackset
               \<and> TrafficReconciler ssc = PrescalingTrafficReconciler (10 * (60 * 1000000000)))"
    if mem: "(uid, stackset) \<in> set st" and run: "collectResources c st w = (r, w')"
    for st w r w'
  proof (cases r)
    case (Inl err)
    then show ?thesis using collectResources_Inl run by simp
  next
    case (Inr cs)
    then show ?thesis
      using frame_member(1)[OF collectResources_Inr, of c st w cs w' uid stackset] run mem choice
      by simp
  qed
  then show ?thesis using choice by blast
qed

lemma demo_collect:
  "collectResources demoController st w =
     (Inr (newContainers demoController st),
      w\<lparr>store := store w + 5, calls := calls w @ demoListCalls\<rparr>)"
  by (simp add: collectResources_def andThen_def whenEnabled_def collectStacks_def
      collectIngresses_def collectDeployments_def collectServices_def collectHPAs_def invoke_def
      demoController_def okClient_def demoConfig_def demoListCalls_def)

text \<open>The delay \<open>soon\<close> does not parse; the StackSet still gets prescaling with ten minutes.\<close>
theorem prescaling_default_delay_witness:
  "lookup (Annotations (Meta prescaledSet)) PrescaleStacksAnnotationKey = Some ''yes''
   \<and> lookup (Annotations (Meta prescaledSet)) ResetHPAMinReplicasDelayAnnotationKey = Some ''soon''
   \<and> ParseDuration demoController ''soon'' = Inl (Failure ''time: invalid duration'')
   \<and> chooseReconciler demoController prescaledSet = PrescalingTrafficReconciler 600000000000"
  using prescaling_default_delay [of prescaledSet demoController]
  by (simp add: prescaledSet_def demoStackSet_def object_def meta_def lookup_def
      PrescaleStacksAnnotationKey_def ResetHPAMinReplicasDelayAnnotationKey_def
      demoController_def demoParseDuration_def)

lemma set_alist_update: "set (AList.update k v al) \<subseteq> insert (k, v) (set al)"
proof (induction al)
  case Nil
  then show ?case by simp
next
  case (Cons p al)
  then show ?case by (cases "fst p = k") auto
qed

lemma set_alist_delete: "set (AList.delete k al) \<subseteq> set al"
  by (induction al) auto

lemma map_of_alist_delete: "map_of (AList.delete k al) k = None"
  by (induction al) auto

lemma hasOwnership_fixup: "hasOwnership c (fixupStackSetTypeMeta k s) = hasOwnership c s"
  by (simp add: hasOwnership_def fixupStackSetTypeMeta_def)

lemma UID_fixup: "UID (Meta (fixupStackSetTypeMeta k s)) = UID (Meta s)"
  by (simp add: fixupStackSetTypeMeta_def)

lemma handleEvent_rejects:
  assumes "\<not> hasOwnership c (EventStackSet e)"
  shows "map_of (handleEvent c e st) (UID (Meta (EventStackSet e))) = None"
    and "set (handleEvent c e st) \<subseteq> set st"
  using assms set_alist_delete[of "UID (Meta (EventStackSet e))" st]
  by (auto simp: handleEvent_def Let_def hasOwnership_fixup UID_fixup map_of_alist_delete
      split: option.splits)

lemma handleEvent_owned:
  assumes "\<forall>p \<in> set st. hasOwnership c (snd p)"
  shows "\<forall>p \<in> set (handleEvent c e st). hasOwnership c (snd p)"
proof
  fix p
  assume p: "p \<in> set (handleEvent c e st)"
  let ?s = "fixupStackSetTypeMeta (core c) (EventStackSet e)"
  have "p \<in> set st \<or> (p = (UID (Meta ?s), ?s) \<and> hasOwnership c ?s)"
    using p set_alist_delete[of "UID (Meta ?s)" st] set_alist_update[of "UID (Meta ?s)" ?s st]
    by (auto simp: handleEvent_def Let_def split: option.splits if_splits)
  then show "hasOwnership c (snd p)" using assms by auto
qed

lemma tick_store: "tick c rs = Some rs' \<Longrightarrow> stacksetStore rs' = stacksetStore rs"
  by (auto simp: tick_def Let_def split: prod.splits sum.splits option.splits)

lemma RunLoop_owned:
  assumes "\<forall>p \<in> set (stacksetStore rs). hasOwnership c (snd p)"
    and "RunLoop c inputs rs = Some (res, rs')"
  shows "\<forall>p \<in> set (stacksetStore rs'). hasOwnership c (snd p)"
  using assms
proof (induction inputs arbitrary: rs)
  case Nil
  then show ?case by simp
next
  case (Cons i inputs)
  show ?case
  proof (cases i)
    case TimerFired
    then obtain rs1 where t: "tick c rs = Some rs1" and r: "RunLoop c inputs rs1 = Some (res, rs')"
      using Cons.prems(2) by (auto split: option.splits)
    show ?thesis using Cons.IH[OF _ r] Cons.prems(1) tick_store[OF t] by simp
  next
    case (StackSetEvent e)
    then have r: "RunLoop c inputs (rs\<lparr>stacksetStore := handleEvent c e (stacksetStore rs)\<rparr>) = Some (res, rs')"
      using Cons.prems(2) by simp
    show ?thesis using Cons.IH[OF _ r] handleEvent_owned[OF Cons.prems(1)] by simp
  next
    case CtxDone
    then show ?thesis using Cons.prems by simp
  qed
qed

lemma Run_owned:
  assumes "Run c inputs w = Some (res, rs')"
  shows "\<forall>p \<in> set (stacksetStore rs'). hasOwnership c (snd p)"
proof (cases "startWatch c (store w)")
  case (Pair e s)
  show ?thesis
  proof (cases e)
    case None
    then show ?thesis
      using assms Pair RunLoop_owned[of "\<lparr>nextCheck = timeNow c s - Interval (config c), stacksetStore = [],
             world = w\<lparr>store := s\<rparr>\<rparr>" c inputs res rs']
      by (simp add: Run_def)
  next
    case (Some err)
    then show ?thesis using assms Pair by (auto simp: Run_def)
  qed
qed

lemma reconcileGroup_skips:
  "map_of st uid = None \<Longrightarrow>
     reconcileGroup c st ((uid, container) # rest) w = reconcileGroup c st rest w"
  by (auto split: option.splits)

text \<open>
  Claim C1. \<open>hasOwnership\<close> holds exactly when the controller annotation equals the
  controller id, or is absent while the id is empty. An event for a StackSet without
  ownership leaves the StackSet out of the watched store, adds nothing to the store and
  changes nothing but the store: no request, no event, no error. Every StackSet in the store
  of a running controller is owned, every container that a tick builds wraps a StackSet of
  the store, and a worker whose StackSet is not in the store does nothing.
\<close>
theorem ownership_gate:
  "(hasOwnership c stackset =
      (case lookup (Annotations (Meta stackset)) StacksetControllerControllerAnnotationKey of
         Some owner \<Rightarrow> owner = ControllerID (config c)
       | None \<Rightarrow> ControllerID (config c) = []))
   \<and> (\<not> hasOwnership c (EventStackSet e) \<longrightarrow>
         map_of (handleEvent c e st) (UID (Meta (EventStackSet e))) = None
         \<and> set (handleEvent c e st) \<subseteq> set st
         \<and> RunLoop c (StackSetEvent e # inputs) rs =
             RunLoop c inputs (rs\<lparr>stacksetStore := handleEvent c e (stacksetStore rs)\<rparr>))
   \<and> (Run c inputs' w = Some (res, rs') \<longrightarrow>
         (\<forall>p \<in> set (stacksetStore rs'). hasOwnership c (snd p))
         \<and> (\<forall>w1 cs w2. collectResources c (stacksetStore rs') w1 = (Inr cs, w2) \<longrightarrow>
               (\<forall>p \<in> set cs. hasOwnership c (StackSet (snd p))
                                \<and> (fst p, StackSet (snd p)) \<in> set (stacksetStore rs'))))
   \<and> (map_of st uid = None \<longrightarrow>
         reconcileGroup c st ((uid, container) # rest) w = reconcileGroup c st rest w)"
proof (intro conjI impI allI ballI)
  show "hasOwnership c stackset =
      (case lookup (Annotations (Meta stackset)) StacksetControllerControllerAnnotationKey of
         Some owner \<Rightarrow> owner = ControllerID (config c)
       | None \<Rightarrow> ControllerID (config c) = [])"
    by (simp add: hasOwnership_def lookup_def split: option.splits)
next
  assume "\<not> hasOwnership c (EventStackSet e)"
  then show "map_of (handleEvent c e st) (UID (Meta (EventStackSet e))) = None"
    and "set (handleEvent c e st) \<subseteq> set st"
    by (rule handleEvent_rejects)+
next
  show "RunLoop c (StackSetEvent e # inputs) rs =
          RunLoop c inputs (rs\<lparr>stacksetStore := handleEvent c e (stacksetStore rs)\<rparr>)"
    by simp
next
  fix p
  assume "Run c inputs' w = Some (res, rs')" and "p \<in> set (stacksetStore rs')"
  then show "hasOwnership c (snd p)" using Run_owned by blast
next
  fix w1 cs w2 p
  assume run: "Run c inputs' w = Some (res, rs')"
    and col: "collectResources c (stacksetStore rs') w1 = (Inr cs, w2)"
    and p: "p \<in> set cs"
  have mem: "(fst p, StackSet (snd p)) \<in> set (stacksetStore rs')"
    using frame_member(2)[OF collectResources_Inr[OF col], of "fst p" "snd p"] p by simp
  then show "(fst p, StackSet (snd p)) \<in> set (stacksetStore rs')" .
  show "hasOwnership c (StackSet (snd p))" using Run_owned[OF run] mem by force
next
  assume "map_of st uid = None"
  then show "reconcileGroup c st ((uid, container) # rest) w = reconcileGroup c st rest w"
    by (rule reconcileGroup_skips)
qed

text \<open>
  The controller \<open>blue\<close> receives a StackSet of \<open>green\<close> and then one of its own:
  only its own enters the store.
\<close>
theorem ownership_gate_witness:
  "\<not> hasOwnership demoController greenSet
   \<and> map_of (handleEvent demoController \<lparr>Deleted = False, EventStackSet = greenSet\<rparr>
               [(''uid-shop'', blueSet)]) ''uid-bank'' = None
   \<and> Run demoController
        [StackSetEvent \<lparr>Deleted = False, EventStackSet = greenSet\<rparr>,
         StackSetEvent \<lparr>Deleted = False, EventStackSet = blueSet\<rparr>] emptyWorld
       = Some (None, demoStart\<lparr>stacksetStore := [(''uid-shop'', blueSet)]\<rparr>)
   \<and> hasOwnership demoController blueSet"
proof -
  have green: "\<not> hasOwnership demoController greenSet"
    by (simp add: hasOwnership_def greenSet_def demoStackSet_def object_def meta_def
        demoController_def demoConfig_def)
  have blue: "hasOwnership demoController blueSet"
    by (simp add: hasOwnership_def blueSet_def demoStackSet_def object_def meta_def
        demoController_def demoConfig_def)
  have fx: "fixupStackSetTypeMeta (core demoController) blueSet = blueSet"
      "fixupStackSetTypeMeta (core demoController) greenSet = greenSet"
    by (simp_all add: fixupStackSetTypeMeta_def blueSet_def greenSet_def demoStackSet_def
        object_def demoController_def idleCore_def)
  have uids: "UID (Meta blueSet) = ''uid-shop''" "UID (Meta greenSet) = ''uid-bank''"
    by (simp_all add: blueSet_def greenSet_def demoStackSet_def object_def meta_def)
  have he: "handleEvent demoController \<lparr>Deleted = False, EventStackSet = greenSet\<rparr> st = st"
    if "map_of st ''uid-bank'' = None" for st
    using green that by (simp add: handleEvent_def fx uids)
  have he2: "handleEvent demoController \<lparr>Deleted = False, EventStackSet = blueSet\<rparr> []
               = [(''uid-shop'', blueSet)]"
    using blue by (simp add: handleEvent_def fx uids)
  have sw: "startWatch demoController s = (None, s)" "timeNow demoController s = 0"
    "Interval (config demoController) = second" for s
    by (simp_all add: demoController_def demoConfig_def)
  have run: "Run demoController
        [StackSetEvent \<lparr>Deleted = False, EventStackSet = greenSet\<rparr>,
         StackSetEvent \<lparr>Deleted = False, EventStackSet = blueSet\<rparr>] emptyWorld
       = Some (None, demoStart\<lparr>stacksetStore := [(''uid-shop'', blueSet)]\<rparr>)"
    by (simp add: Run_def he he2 sw demoStart_def emptyWorld_def)
  note gate = ownership_gate [of demoController greenSet
      "\<lparr>Deleted = False, EventStackSet = greenSet\<rparr>" "[(''uid-shop'', blueSet)]" "[]" demoStart
      "[StackSetEvent \<lparr>Deleted = False, EventStackSet = greenSet\<rparr>,
        StackSetEvent \<lparr>Deleted = False, EventStackSet = blueSet\<rparr>]" emptyWorld None
      "demoStart\<lparr>stacksetStore := [(''uid-shop'', blueSet)]\<rparr>"]
  have rejected: "map_of (handleEvent demoController \<lparr>Deleted = False, EventStackSet = greenSet\<rparr>
               [(''uid-shop'', blueSet)]) ''uid-bank'' = None"
    using gate green uids by simp
  have "\<forall>p \<in> set (stacksetStore (demoStart\<lparr>stacksetStore := [(''uid-shop'', blueSet)]\<rparr>)).
          hasOwnership demoController (snd p)"
    using gate run by blast
  then show ?thesis using green rejected run by simp
qed

lemma int64_id: "minDuration \<le> x \<Longrightarrow> x \<le> maxDuration \<Longrightarrow> int64 x = x"
  by (simp add: int64_def minDuration_def maxDuration_def)

lemma tick_nextCheck:
  "tick c rs = Some rs' \<Longrightarrow> nextCheck rs' = timeNow c (store (world rs)) + Interval (config c)"
  by (auto simp: tick_def Let_def split: prod.splits sum.splits option.splits)

text \<open>
  Claim C9, as the code has it. A tick sets \<open>nextCheck\<close> to its start plus one
  interval, and the liveness check fails exactly when the time since \<open>nextCheck\<close>
  exceeds five intervals: when more than six intervals have passed since the start of the
  most recent tick. The fivefold interval is assumed to fit into an int64.
\<close>
theorem liveness_six_intervals:
  assumes "tick c rs = Some rs'"
    and "minDuration \<le> 5 * Interval (config c)" and "5 * Interval (config c) \<le> maxDuration"
  shows "nextCheck rs' = timeNow c (store (world rs)) + Interval (config c)
         \<and> (livenessCheck c (nextCheck rs') t \<noteq> None)
             = (t - nextCheck rs' > 5 * Interval (config c))
         \<and> (livenessCheck c (nextCheck rs') t \<noteq> None)
             = (t - timeNow c (store (world rs)) > 6 * Interval (config c))"
proof -
  have n: "nextCheck rs' = timeNow c (store (world rs)) + Interval (config c)"
    using assms(1) by (rule tick_nextCheck)
  have five: "int64 (5 * Interval (config c)) = 5 * Interval (config c)"
    using assms(2,3) by (rule int64_id)
  have "5 * x \<noteq> (9223372036854775807::int)" for x
    by presburger
  then have odd: "5 * Interval (config c) \<noteq> maxDuration"
    by (simp add: maxDuration_def)
  have "(livenessCheck c (nextCheck rs') t \<noteq> None) = (t - nextCheck rs' > 5 * Interval (config c))"
    using assms(2,3) odd unfolding livenessCheck_def five Since_def
    by (auto simp: minDuration_def maxDuration_def)
  then show ?thesis using n by auto
qed

lemma demo_tick: "tick demoController demoStart = Some demoAfterTick"
  by (simp add: tick_def demo_collect newContainers_def demoStart_def demoAfterTick_def
      enter_def emptyWorld_def)
     (simp add: demoController_def demoConfig_def)

text \<open>
  Claim C9 as stated fails: with an interval of one second and a tick that starts at the
  instant 0, five and a half seconds later more than five intervals have passed since the
  start of the tick, and the liveness check still passes.
\<close>
theorem liveness_five_intervals_counterexample:
  "tick demoController demoStart = Some demoAfterTick
   \<and> timeNow demoController (store (world demoStart)) = 0
   \<and> 5 * Interval (config demoController) < 5500000000 - 0
   \<and> livenessCheck demoController (nextCheck demoAfterTick) 5500000000 = None"
  using demo_tick
  by (simp add: livenessCheck_def Since_def int64_def maxDuration_def minDuration_def
      demoAfterTick_def second_def demoController_def demoConfig_def)

text \<open>After the same tick the check passes at six seconds and fails at six and a half.\<close>
theorem liveness_six_intervals_witness:
  "tick demoController demoStart = Some demoAfterTick
   \<and> minDuration \<le> 5 * Interval (config demoController)
   \<and> 5 * Interval (config demoController) \<le> maxDuration
   \<and> livenessCheck demoController (nextCheck demoAfterTick) 6500000000
       = Some (Failure ''nextCheck too old'')
   \<and> livenessCheck demoController (nextCheck demoAfterTick) 6000000000 = None"
proof -
  have b: "minDuration \<le> 5 * Interval (config demoController)"
      "5 * Interval (config demoController) \<le> maxDuration"
    by (simp_all add: minDuration_def maxDuration_def demoController_def demoConfig_def second_def)
  have t0: "timeNow demoController (store (world demoStart)) = 0"
    "Interval (config demoController) = 1000000000"
    by (simp_all add: demoController_def demoConfig_def second_def)
  have "livenessCheck demoController (nextCheck demoAfterTick) 6500000000 \<noteq> None"
    using liveness_six_intervals [OF demo_tick b, of 6500000000] t0
    by (simp add: demoAfterTick_def second_def)
  moreover have "livenessCheck demoController (nextCheck demoAfterTick) 6000000000 = None"
    using liveness_six_intervals [OF demo_tick b, of 6000000000] t0
    by (simp add: demoAfterTick_def second_def)
  ultimately show ?thesis using demo_tick b by (auto simp: livenessCheck_def split: if_splits)
qed

lemma singleOwner_Cons:
  "set (singleOwner kind (x # xs)) = set (singleOwner kind [x]) \<union> set (singleOwner kind xs)"
  by (auto simp: singleOwner_def)

lemma fold_attached:
  assumes "\<And>x cs. set (attached (g x cs)) \<subseteq> set (attached cs) \<union> set (singleOwner kind [x])"
  shows "set (attached (fold g items cs)) \<subseteq> set (attached cs) \<union> set (singleOwner kind items)"
proof (induction items arbitrary: cs)
  case Nil
  then show ?case by simp
next
  case (Cons x items)
  have "set (attached (fold g items (g x cs))) \<subseteq> set (attached (g x cs)) \<union> set (singleOwner kind items)"
    by (rule Cons.IH)
  then show ?case using assms[of x cs] singleOwner_Cons[of kind x items] by auto
qed

lemma singleOwner_one:
  "getOwnerUID (Meta x) = Some uid \<Longrightarrow> set (singleOwner kind [x]) = {(kind, Meta x)}"
  using getOwnerUID_SomeD[of "Meta x" uid] by (simp add: singleOwner_def)

lemma attach_slots:
  "set (attachedToStack (setResources (\<lambda>r. r\<lparr>Deployment := Some (d::Deployment)\<rparr>) sc))
     \<subseteq> set (attachedToStack sc) \<union> {(RDeployments, Meta d)}"
  "set (attachedToStack (setResources (\<lambda>r. r\<lparr>HPA := Some (h::HPA)\<rparr>) sc))
     \<subseteq> set (attachedToStack sc) \<union> {(RHorizontalPodAutoscalers, Meta h)}"
  "set (attachedToStack (setResources (\<lambda>r. r\<lparr>Service := Some (s::Service)\<rparr>) sc))
     \<subseteq> set (attachedToStack sc) \<union> {(RServices, Meta s)}"
  "set (attachedToStack (setResources (\<lambda>r. r\<lparr>Ingress := Some (i::Ingress)\<rparr>) sc))
     \<subseteq> set (attachedToStack sc) \<union> {(RIngresses, Meta i)}"
  "set (attachedToStack (setResources (\<lambda>r. r\<lparr>IngressSegment := Some (i::Ingress)\<rparr>) sc))
     \<subseteq> set (attachedToStack sc) \<union> {(RIngresses, Meta i)}"
  "set (attachedToStack (setResources (\<lambda>r. r\<lparr>RouteGroup := Some (g::RouteGroup)\<rparr>) sc))
     \<subseteq> set (attachedToStack sc) \<union> {(RRouteGroups, Meta g)}"
  "set (attachedToStack (setResources (\<lambda>r. r\<lparr>RouteGroupSegment := Some (g::RouteGroup)\<rparr>) sc))
     \<subseteq> set (attachedToStack sc) \<union> {(RRouteGroups, Meta g)}"
  "set (attachedToStack (setResources (\<lambda>r. r\<lparr>ConfigMaps := ConfigMaps r @ [cm]\<rparr>) sc))
     \<subseteq> set (attachedToStack sc) \<union> {(RConfigMaps, Meta cm)}"
  "set (attachedToStack (setResources (\<lambda>r. r\<lparr>Secrets := Secrets r @ [se]\<rparr>) sc))
     \<subseteq> set (attachedToStack sc) \<union> {(RSecrets, Meta se)}"
  "set (attachedToStack (setResources (\<lambda>r. r\<lparr>PlatformCredentialsSets := PlatformCredentialsSets r @ [pc]\<rparr>) sc))
     \<subseteq> set (attachedToStack sc) \<union> {(RPlatformCredentialsSets, Meta pc)}"
  by (auto simp: attachedToStack_def attachedToResources_def setResources_def slot_def
      split: option.splits)

lemma collectDeployment_attached:
  "set (attached (collectDeployment x cs)) \<subseteq> set (attached cs) \<union> set (singleOwner RDeployments [x])"
proof (cases "getOwnerUID (Meta x)")
  case None
  then show ?thesis by (simp add: collectDeployment_def)
next
  case (Some uid)
  show ?thesis
    unfolding singleOwner_one[OF Some] collectDeployment_def Some option.case
    by (rule forOwningStack_attached) (rule attach_slots)
qed

lemma collectConfigMap_attached:
  "set (attached (collectConfigMap x cs)) \<subseteq> set (attached cs) \<union> set (singleOwner RConfigMaps [x])"
proof (cases "getOwnerUID (Meta x)")
  case None
  then show ?thesis by (simp add: collectConfigMap_def)
next
  case (Some uid)
  show ?thesis
    unfolding singleOwner_one[OF Some] collectConfigMap_def Some option.case
    by (rule forOwningStack_attached) (rule attach_slots)
qed

lemma collectSecret_attached:
  "set (attached (collectSecret x cs)) \<subseteq> set (attached cs) \<union> set (singleOwner RSecrets [x])"
proof (cases "getOwnerUID (Meta x)")
  case None
  then show ?thesis by (simp add: collectSecret_def)
next
  case (Some uid)
  show ?thesis
    unfolding singleOwner_one[OF Some] collectSecret_def Some option.case
    by (rule forOwningStack_attached) (rule attach_slots)
qed

lemma collectPlatformCredentialsSetItem_attached:
  "set (attached (collectPlatformCredentialsSetItem x cs))
     \<subseteq> set (attached cs) \<union> set (singleOwner RPlatformCredentialsSets [x])"
proof (cases "getOwnerUID (Meta x)")
  case None
  then show ?thesis by (simp add: collectPlatformCredentialsSetItem_def)
next
  case (Some uid)
  show ?thesis
    unfolding singleOwner_one[OF Some] collectPlatformCredentialsSetItem_def Some option.case
    by (rule forOwningStack_attached) (rule attach_slots)
qed

lemma collectService_attached:
  "set (attached (collectService x cs)) \<subseteq> set (attached cs) \<union> set (singleOwner RServices [x])"
proof (cases "getOwnerUID (Meta x)")
  case None
  then show ?thesis by (simp add: collectService_def)
next
  case (Some uid)
  show ?thesis
    unfolding singleOwner_one[OF Some] collectService_def Some option.case
    by (rule forOwningStackOrDeployment_attached) (rule attach_slots)
qed

lemma collectHPA_attached:
  "set (attached (collectHPA x cs))
     \<subseteq> set (attached cs) \<union> set (singleOwner RHorizontalPodAutoscalers [x])"
proof (cases "getOwnerUID (Meta x)")
  case None
  then show ?thesis by (simp add: collectHPA_def)
next
  case (Some uid)
  show ?thesis
    unfolding singleOwner_one[OF Some] collectHPA_def Some option.case
    by (rule forOwningStackOrDeployment_attached) (rule attach_slots)
qed

lemma collectIngress_attached:
  "set (attached (collectIngress k x cs)) \<subseteq> set (attached cs) \<union> set (singleOwner RIngresses [x])"
proof (cases "getOwnerUID (Meta x)")
  case None
  then show ?thesis by (simp add: collectIngress_def)
next
  case (Some uid)
  have a: "set (attached (AList.map_entry uid (\<lambda>s. s\<lparr>StackSetIngress := Some x\<rparr>) cs))
             \<subseteq> set (attached cs) \<union> {(RIngresses, Meta x)}"
    by (rule set_map_entry_stackset) (auto simp: attachedToStackSet_def slot_def split: option.splits)
  have b: "set (attached (forOwningStack uid
                 (if suffix (SegmentSuffix k) (Name (Meta x))
                  then setResources (\<lambda>r. r\<lparr>IngressSegment := Some x\<rparr>)
                  else setResources (\<lambda>r. r\<lparr>Ingress := Some x\<rparr>)) cs))
             \<subseteq> set (attached cs) \<union> {(RIngresses, Meta x)}"
    by (rule forOwningStack_attached)
       (cases "suffix (SegmentSuffix k) (Name (Meta x))"; simp only: if_True if_False attach_slots)
  show ?thesis
    unfolding singleOwner_one[OF Some] collectIngress_def Some option.case
    using a b by (cases "map_of cs uid") simp_all
qed

lemma collectRouteGroup_attached:
  "set (attached (collectRouteGroup k x cs)) \<subseteq> set (attached cs) \<union> set (singleOwner RRouteGroups [x])"
proof (cases "getOwnerUID (Meta x)")
  case None
  then show ?thesis by (simp add: collectRouteGroup_def)
next
  case (Some uid)
  have a: "set (attached (AList.map_entry uid (\<lambda>s. s\<lparr>StackSetRouteGroup := Some x\<rparr>) cs))
             \<subseteq> set (attached cs) \<union> {(RRouteGroups, Meta x)}"
    by (rule set_map_entry_stackset) (auto simp: attachedToStackSet_def slot_def split: option.splits)
  have b: "set (attached (forOwningStack uid
                 (if suffix (SegmentSuffix k) (Name (Meta x))
                  then setResources (\<lambda>r. r\<lparr>RouteGroupSegment := Some x\<rparr>)
                  else setResources (\<lambda>r. r\<lparr>RouteGroup := Some x\<rparr>)) cs))
             \<subseteq> set (attached cs) \<union> {(RRouteGroups, Meta x)}"
    by (rule forOwningStack_attached)
       (cases "suffix (SegmentSuffix k) (Name (Meta x))"; simp only: if_True if_False attach_slots)
  show ?thesis
    unfolding singleOwner_one[OF Some] collectRouteGroup_def Some option.case
    using a b by (cases "map_of cs uid") simp_all
qed

lemma collectStack_attached:
  "set (attached (collectStack k x cs)) \<subseteq> set (attached cs) \<union> set (singleOwner RStacks [x])"
proof (cases "getOwnerUID (Meta x)")
  case None
  then show ?thesis by (simp add: collectStack_def)
next
  case (Some uid)
  let ?v = "\<lparr>Stack = fixupStackTypeMeta k x, PendingRemoval = False, Resources = emptyResources\<rparr>"
  have v: "set (attachedToStack ?v) = {(RStacks, Meta x)}"
    by (simp add: attachedToStack_def attachedToResources_def emptyResources_def slot_def
        fixupStackTypeMeta_def)
  have a: "set (attached (AList.map_entry uid
              (\<lambda>s. s\<lparr>StackContainers := AList.update (UID (Meta x)) ?v (StackContainers s)\<rparr>) cs))
             \<subseteq> set (attached cs) \<union> {(RStacks, Meta x)}"
  proof (rule set_map_entry_stackset)
    fix ssc
    show "set (attachedToStackSet (ssc\<lparr>StackContainers := AList.update (UID (Meta x)) ?v (StackContainers ssc)\<rparr>))
            \<subseteq> set (attachedToStackSet ssc) \<union> {(RStacks, Meta x)}"
      using set_update_stacks[of "UID (Meta x)" ?v "StackContainers ssc"] v
      by (auto simp: attachedToStackSet_def)
  qed
  show ?thesis
    unfolding singleOwner_one[OF Some] collectStack_def Some option.case
    using a by (auto split: option.splits)
qed

lemma singleOwner_length: "x \<in> set (singleOwner kind items) \<Longrightarrow> length (OwnerReferences (snd x)) = 1"
  by (auto simp: singleOwner_def)

lemma allSingleOwner_fold:
  assumes "\<And>x cs. set (attached (g x cs)) \<subseteq> set (attached cs) \<union> set (singleOwner kind [x])"
    and "allSingleOwner cs"
  shows "allSingleOwner (fold g items cs)"
  using fold_attached[of g kind items cs, OF assms(1)] assms(2) singleOwner_length
  unfolding allSingleOwner_def by blast

lemma preserves_listing:
  assumes "\<And>x cs. set (attached (g x cs)) \<subseteq> set (attached cs) \<union> set (singleOwner kind [x])"
  shows "preserves allSingleOwner (\<lambda>cs w. case invoke cl f w of
            (Inl err, w') \<Rightarrow> (Inl (h err), w')
          | (Inr items, w') \<Rightarrow> (Inr (fold g items cs), w'))"
  unfolding preserves_def
  by (auto split: prod.splits sum.splits intro: allSingleOwner_fold[OF assms])

lemma preserves_collectors:
  "preserves allSingleOwner (collectStacks c)" "preserves allSingleOwner (collectIngresses c)"
  "preserves allSingleOwner (collectRouteGroups c)" "preserves allSingleOwner (collectDeployments c)"
  "preserves allSingleOwner (collectServices c)" "preserves allSingleOwner (collectHPAs c)"
  "preserves allSingleOwner (collectConfigMaps c)" "preserves allSingleOwner (collectSecrets c)"
  "preserves allSingleOwner (collectPlatformCredentialsSet c)"
  unfolding collectStacks_def collectIngresses_def collectRouteGroups_def
      collectDeployments_def collectServices_def collectHPAs_def collectConfigMaps_def
      collectSecrets_def collectPlatformCredentialsSet_def
  by (rule preserves_listing, rule collectStack_attached collectIngress_attached
      collectRouteGroup_attached collectDeployment_attached collectService_attached
      collectHPA_attached collectConfigMap_attached collectSecret_attached
      collectPlatformCredentialsSetItem_attached)+

lemma preserves_whenEnabled: "preserves P f \<Longrightarrow> preserves P (whenEnabled b f)"
  by (auto simp: preserves_def whenEnabled_def)

lemma preservesD: "preserves P f \<Longrightarrow> P cs \<Longrightarrow> f cs w = (Inr cs', w') \<Longrightarrow> P cs'"
  unfolding preserves_def by blast

lemma preserves_andThen:
  assumes "preserves P f" and "preserves P g"
  shows "preserves P (\<lambda>cs w. andThen (f cs w) g)"
  unfolding preserves_def
proof (intro allI impI)
  fix cs w cs' w'
  assume P: "P cs" and run: "andThen (f cs w) g = (Inr cs', w')"
  obtain a w1 where f: "f cs w = (a, w1)" by (cases "f cs w")
  show "P cs'"
  proof (cases a)
    case (Inl err)
    then show ?thesis using run f by (simp add: andThen_def)
  next
    case (Inr cs1)
    have "P cs1" using preservesD[OF assms(1) P] f Inr by simp
    moreover have "g cs1 w1 = (Inr cs', w')" using run f Inr by (simp add: andThen_def)
    ultimately show ?thesis using preservesD[OF assms(2)] by blast
  qed
qed

lemma preserves_pipeline:
  "preserves allSingleOwner (\<lambda>s0 w0.
     andThen (collectStacks c s0 w0) (\<lambda>s1 w1.
     andThen (collectIngresses c s1 w1) (\<lambda>s2 w2.
     andThen (whenEnabled (RouteGroupSupportEnabled (config c)) (collectRouteGroups c) s2 w2) (\<lambda>s3 w3.
     andThen (collectDeployments c s3 w3) (\<lambda>s4 w4.
     andThen (collectServices c s4 w4) (\<lambda>s5 w5.
     andThen (collectHPAs c s5 w5) (\<lambda>s6 w6.
     andThen (whenEnabled (ConfigMapSupportEnabled (config c)) (collectConfigMaps c) s6 w6) (\<lambda>s7 w7.
     andThen (whenEnabled (SecretSupportEnabled (config c)) (collectSecrets c) s7 w7) (\<lambda>s8 w8.
     whenEnabled (PcsSupportEnabled (config c)) (collectPlatformCredentialsSet c) s8 w8)))))))))"
  by (intro preserves_andThen preserves_whenEnabled preserves_collectors)

lemma attached_newContainers: "attached (newContainers c st) = []"
  by (induction st)
     (auto simp: newContainers_def attached_def attachedToStackSet_def NewContainer_def slot_def)

lemma collectResources_single:
  assumes "collectResources c st w = (Inr cs, w')"
  shows "allSingleOwner cs"
proof -
  have "allSingleOwner (newContainers c st)"
    by (simp add: allSingleOwner_def attached_newContainers)
  then show ?thesis
    using assms unfolding collectResources_def by (rule preservesD[OF preserves_pipeline])
qed

text \<open>
  Claim C2. \<open>getOwnerUID\<close> yields an owner exactly for an object with one owner
  reference. Whatever a collector attaches to a StackSet container or to a stack container
  is an object of its listing with exactly one owner reference; after
  \<open>collectResources\<close> every attached resource has exactly one owner reference.
\<close>
theorem single_owner_attachment:
  "(getOwnerUID m \<noteq> None) = (length (OwnerReferences m) = 1)
   \<and> set (attached (fold (collectStack k) stacks cs))
         \<subseteq> set (attached cs) \<union> set (singleOwner RStacks stacks)
   \<and> set (attached (fold (collectIngress k) ingresses cs))
         \<subseteq> set (attached cs) \<union> set (singleOwner RIngresses ingresses)
   \<and> set (attached (fold (collectRouteGroup k) routegroups cs))
         \<subseteq> set (attached cs) \<union> set (singleOwner RRouteGroups routegroups)
   \<and> set (attached (fold collectDeployment deployments cs))
         \<subseteq> set (attached cs) \<union> set (singleOwner RDeployments deployments)
   \<and> set (attached (fold collectService services cs))
         \<subseteq> set (attached cs) \<union> set (singleOwner RServices services)
   \<and> set (attached (fold collectHPA hpas cs))
         \<subseteq> set (attached cs) \<union> set (singleOwner RHorizontalPodAutoscalers hpas)
   \<and> set (attached (fold collectConfigMap configMaps cs))
         \<subseteq> set (attached cs) \<union> set (singleOwner RConfigMaps configMaps)
   \<and> set (attached (fold collectSecret secrets cs))
         \<subseteq> set (attached cs) \<union> set (singleOwner RSecrets secrets)
   \<and> set (attached (fold collectPlatformCredentialsSetItem pcss cs))
         \<subseteq> set (attached cs) \<union> set (singleOwner RPlatformCredentialsSets pcss)
   \<and> (collectResources c st w = (Inr cs', w') \<longrightarrow> allSingleOwner cs')"
proof (intro conjI impI)
  show "(getOwnerUID m \<noteq> None) = (length (OwnerReferences m) = 1)"
    by (rule getOwnerUID_Some_iff)
  show "set (attached (fold (collectStack k) stacks cs))
         \<subseteq> set (attached cs) \<union> set (singleOwner RStacks stacks)"
    by (rule fold_attached) (rule collectStack_attached)
  show "set (attached (fold (collectIngress k) ingresses cs))
         \<subseteq> set (attached cs) \<union> set (singleOwner RIngresses ingresses)"
    by (rule fold_attached) (rule collectIngress_attached)
  show "set (attached (fold (collectRouteGroup k) routegroups cs))
         \<subseteq> set (attached cs) \<union> set (singleOwner RRouteGroups routegroups)"
    by (rule fold_attached) (rule collectRouteGroup_attached)
  show "set (attached (fold collectDeployment deployments cs))
         \<subseteq> set (attached cs) \<union> set (singleOwner RDeployments deployments)"
    by (rule fold_attached) (rule collectDeployment_attached)
  show "set (attached (fold collectService services cs))
         \<subseteq> set (attached cs) \<union> set (singleOwner RServices services)"
    by (rule fold_attached) (rule collectService_attached)
  show "set (attached (fold collectHPA hpas cs))
         \<subseteq> set (attached cs) \<union> set (singleOwner RHorizontalPodAutoscalers hpas)"
    by (rule fold_attached) (rule collectHPA_attached)
  show "set (attached (fold collectConfigMap configMaps cs))
         \<subseteq> set (attached cs) \<union> set (singleOwner RConfigMaps configMaps)"
    by (rule fold_attached) (rule collectConfigMap_attached)
  show "set (attached (fold collectSecret secrets cs))
         \<subseteq> set (attached cs) \<union> set (singleOwner RSecrets secrets)"
    by (rule fold_attached) (rule collectSecret_attached)
  show "set (attached (fold collectPlatformCredentialsSetItem pcss cs))
         \<subseteq> set (attached cs) \<union> set (singleOwner RPlatformCredentialsSets pcss)"
    by (rule fold_attached) (rule collectPlatformCredentialsSetItem_attached)
next
  assume "collectResources c st w = (Inr cs', w')"
  then show "allSingleOwner cs'" by (rule collectResources_single)
qed

lemma busy_fields:
  "config busyController = demoConfig" "core busyController = idleCore"
  "client busyController = busyClient"
  by (simp_all add: busyController_def demoController_def)

lemma busy_lists:
  "ListStacks busyClient ns s = (Inr [shopStack], Suc s)"
  "ListIngresses busyClient ns s = (Inr [orphanIngress, sharedIngress, ownedIngress], Suc s)"
  "ListDeployments busyClient ns s = (Inr [shopDeployment], Suc s)"
  "ListServices busyClient ns s = (Inr [strayService, legacyService], Suc s)"
  "ListHPAs busyClient ns s = (Inr [shopHPA], Suc s)"
  by (simp_all add: busyClient_def okClient_def)

lemma demo_owners:
  "getOwnerUID (Meta shopStack) = Some ''uid-shop''"
  "getOwnerUID (Meta orphanIngress) = None"
  "getOwnerUID (Meta sharedIngress) = None"
  "getOwnerUID (Meta ownedIngress) = Some ''uid-shop-v1''"
  "getOwnerUID (Meta shopDeployment) = Some ''uid-shop-v1''"
  "getOwnerUID (Meta strayService) = Some ''uid-nobody''"
  "getOwnerUID (Meta legacyService) = Some ''uid-dep-1''"
  "getOwnerUID (Meta shopHPA) = Some ''uid-shop-v1''"
  by (simp_all add: getOwnerUID_def shopStack_def demoStack_def orphanIngress_def
      sharedIngress_def ownedIngress_def shopDeployment_def strayService_def legacyService_def
      shopHPA_def object_def meta_def)

lemma demo_names:
  "UID (Meta shopStack) = ''uid-shop-v1''" "Name (Meta ownedIngress) = ''shop-v1''"
  "UID (Meta shopDeployment) = ''uid-dep-1''"
  "fixupStackTypeMeta idleCore shopStack = shopStack"
  "SegmentSuffix idleCore = ''-traffic-segment''"
  by (simp_all add: shopStack_def demoStack_def ownedIngress_def shopDeployment_def
      object_def meta_def fixupStackTypeMeta_def idleCore_def)

lemma demo_base:
  "newContainers busyController [(''uid-shop'', blueSet)]
     = [(''uid-shop'', NewContainer blueSet SimpleTrafficReconciler ''weights'' [] [])]"
  by (simp add: newContainers_def busy_fields demoConfig_def chooseReconciler_def lookup_def
      blueSet_def demoStackSet_def object_def meta_def PrescaleStacksAnnotationKey_def
      StacksetControllerControllerAnnotationKey_def)

lemma busy_index:
  "collectHPA shopHPA
     (collectService legacyService (collectService strayService
       (collectDeployment shopDeployment
         (collectIngress idleCore ownedIngress (collectIngress idleCore sharedIngress
           (collectIngress idleCore orphanIngress
             (collectStack idleCore shopStack
               [(''uid-shop'', NewContainer blueSet SimpleTrafficReconciler ''weights'' [] [])])))))))
   = shopIndex"
proof -
  let ?B = "NewContainer blueSet SimpleTrafficReconciler ''weights'' [] []"
  let ?sc = "\<lambda>r. \<lparr>Stack = shopStack, PendingRemoval = False, Resources = r\<rparr>"
  have B: "StackContainers ?B = []" by (simp add: NewContainer_def)
  have s1: "collectStack idleCore shopStack [(''uid-shop'', ?B)]
              = [(''uid-shop'', ?B\<lparr>StackContainers := [(''uid-shop-v1'', ?sc emptyResources)]\<rparr>)]"
    by (simp add: collectStack_def demo_owners demo_names B)
  have s2: "collectIngress idleCore ownedIngress (collectIngress idleCore sharedIngress
              (collectIngress idleCore orphanIngress
              [(''uid-shop'', ?B\<lparr>StackContainers := [(''uid-shop-v1'', ?sc emptyResources)]\<rparr>)]))
              = [(''uid-shop'', ?B\<lparr>StackContainers :=
                   [(''uid-shop-v1'', ?sc (emptyResources\<lparr>Ingress := Some ownedIngress\<rparr>))]\<rparr>)]"
    by (simp add: collectIngress_def demo_owners demo_names setResources_def suffix_to_prefix)
  have s3: "collectDeployment shopDeployment
              [(''uid-shop'', ?B\<lparr>StackContainers :=
                   [(''uid-shop-v1'', ?sc (emptyResources\<lparr>Ingress := Some ownedIngress\<rparr>))]\<rparr>)]
              = [(''uid-shop'', ?B\<lparr>StackContainers :=
                   [(''uid-shop-v1'', ?sc (emptyResources\<lparr>Deployment := Some shopDeployment,
                        Ingress := Some ownedIngress\<rparr>))]\<rparr>)]"
    by (simp add: collectDeployment_def demo_owners setResources_def)
  have s4: "collectService legacyService (collectService strayService
              [(''uid-shop'', ?B\<lparr>StackContainers :=
                   [(''uid-shop-v1'', ?sc (emptyResources\<lparr>Deployment := Some shopDeployment,
                        Ingress := Some ownedIngress\<rparr>))]\<rparr>)])
              = [(''uid-shop'', ?B\<lparr>StackContainers :=
                   [(''uid-shop-v1'', ?sc (emptyResources\<lparr>Deployment := Some shopDeployment,
                        Service := Some legacyService, Ingress := Some ownedIngress\<rparr>))]\<rparr>)]"
    by (simp add: collectService_def demo_owners demo_names setResources_def deploymentHasUID_def)
  have s5: "collectHPA shopHPA
              [(''uid-shop'', ?B\<lparr>StackContainers :=
                   [(''uid-shop-v1'', ?sc (emptyResources\<lparr>Deployment := Some shopDeployment,
                        Service := Some legacyService, Ingress := Some ownedIngress\<rparr>))]\<rparr>)]
              = shopIndex"
    by (simp add: collectHPA_def demo_owners setResources_def shopIndex_def shopResources_def)
  show ?thesis unfolding s1 s2 s3 s4 s5 ..
qed

lemma busy_collect:
  "fst (collectResources busyController [(''uid-shop'', blueSet)] emptyWorld) = Inr shopIndex"
  by (simp add: collectResources_def andThen_def whenEnabled_def collectStacks_def
      collectIngresses_def collectDeployments_def collectServices_def collectHPAs_def invoke_def
      busy_fields busy_lists demoConfig_def demo_base busy_index)

text \<open>
  In the demo cluster the ingress without owner and the ingress with two owners are
  attached nowhere; the index holds the stack and its four single-owner resources.
\<close>
theorem single_owner_attachment_witness:
  "getOwnerUID (Meta orphanIngress) = None
   \<and> getOwnerUID (Meta sharedIngress) = None
   \<and> getOwnerUID (Meta ownedIngress) = Some ''uid-shop-v1''
   \<and> fst (collectResources busyController [(''uid-shop'', blueSet)] emptyWorld) = Inr shopIndex
   \<and> allSingleOwner shopIndex
   \<and> attached shopIndex =
       [(RStacks, Meta shopStack), (RDeployments, Meta shopDeployment),
        (RHorizontalPodAutoscalers, Meta shopHPA), (RServices, Meta legacyService),
        (RIngresses, Meta ownedIngress)]"
proof -
  obtain w' where run: "collectResources busyController [(''uid-shop'', blueSet)] emptyWorld
                          = (Inr shopIndex, w')"
    using busy_collect by (metis prod.collapse)
  have "allSingleOwner shopIndex"
    using single_owner_attachment [of _ _ _ _ _ _ _ _ _ _ _ _ busyController
        "[(''uid-shop'', blueSet)]" emptyWorld shopIndex w'] run by blast
  moreover have "attached shopIndex =
       [(RStacks, Meta shopStack), (RDeployments, Meta shopDeployment),
        (RHorizontalPodAutoscalers, Meta shopHPA), (RServices, Meta legacyService),
        (RIngresses, Meta ownedIngress)]"
    by (simp add: attached_def attachedToStackSet_def attachedToStack_def attachedToResources_def
        slot_def shopIndex_def shopResources_def emptyResources_def NewContainer_def)
  ultimately show ?thesis using busy_collect demo_owners by simp
qed

lemma viaDeployment_None:
  "(viaDeployment uid f scs = None) = (\<forall>q \<in> set scs. \<not> deploymentHasUID uid (snd q))"
proof (induction scs)
  case Nil
  then show ?case by simp
next
  case (Cons p scs)
  obtain k sc where p: "p = (k, sc)" by (cases p)
  show ?case using Cons by (cases "deploymentHasUID uid sc") (auto simp: p)
qed

lemma viaDeployment_Some:
  assumes "viaDeployment uid f scs = Some scs'"
  shows "\<exists>pre' k' sc post'. scs = pre' @ (k', sc) # post' \<and> deploymentHasUID uid sc
           \<and> scs' = pre' @ (k', f sc) # post'"
  using assms
proof (induction scs arbitrary: scs')
  case Nil
  then show ?case by simp
next
  case (Cons p scs)
  obtain k sc where p: "p = (k, sc)" by (cases p)
  show ?case
  proof (cases "deploymentHasUID uid sc")
    case True
    then have "scs' = (k, f sc) # scs" using Cons.prems by (simp add: p)
    then have "p # scs = [] @ (k, sc) # scs \<and> deploymentHasUID uid sc \<and> scs' = [] @ (k, f sc) # scs"
      using True by (simp add: p)
    then show ?thesis by blast
  next
    case False
    then obtain r where r: "viaDeployment uid f scs = Some r" and s: "scs' = (k, sc) # r"
      using Cons.prems by (auto simp: p)
    from Cons.IH[OF r] obtain pre' k' sc' post' where
      d: "scs = pre' @ (k', sc') # post'" "deploymentHasUID uid sc'" "r = pre' @ (k', f sc') # post'"
      by blast
    have "p # scs = ((k, sc) # pre') @ (k', sc') # post' \<and> deploymentHasUID uid sc'
            \<and> scs' = ((k, sc) # pre') @ (k', f sc') # post'"
      using d s by (simp add: p)
    then show ?thesis by blast
  qed
qed

lemma fallback_neither:
  assumes "\<not> ownedDirectly uid cs" and "\<not> ownedViaDeployment uid cs"
  shows "forOwningStackOrDeployment uid f cs = cs"
  using assms
proof (induction cs)
  case Nil
  then show ?case by simp
next
  case (Cons p cs)
  obtain k ssc where p: "p = (k, ssc)" by (cases p)
  have d: "map_of (StackContainers ssc) uid = None"
    using Cons.prems(1) by (auto simp: ownedDirectly_def p)
  have v: "viaDeployment uid f (StackContainers ssc) = None"
    using Cons.prems(2) by (auto simp: ownedViaDeployment_def p viaDeployment_None)
  have "\<not> ownedDirectly uid cs" "\<not> ownedViaDeployment uid cs"
    using Cons.prems by (auto simp: ownedDirectly_def ownedViaDeployment_def)
  then show ?case using Cons.IH d v by (simp add: p)
qed

lemma fallback_prefix:
  assumes "\<not> ownedDirectly uid pre" and "\<not> ownedViaDeployment uid pre"
  shows "forOwningStackOrDeployment uid f (pre @ cs) = pre @ forOwningStackOrDeployment uid f cs"
  using assms
proof (induction pre)
  case Nil
  then show ?case by simp
next
  case (Cons p pre)
  obtain k ssc where p: "p = (k, ssc)" by (cases p)
  have d: "map_of (StackContainers ssc) uid = None"
    using Cons.prems(1) by (auto simp: ownedDirectly_def p)
  have v: "viaDeployment uid f (StackContainers ssc) = None"
    using Cons.prems(2) by (auto simp: ownedViaDeployment_def p viaDeployment_None)
  have "\<not> ownedDirectly uid pre" "\<not> ownedViaDeployment uid pre"
    using Cons.prems by (auto simp: ownedDirectly_def ownedViaDeployment_def)
  then show ?case using Cons.IH d v by (simp add: p)
qed

lemma fallback_attaches:
  assumes "\<not> ownedDirectly uid cs" and "ownedViaDeployment uid cs"
  shows "attachesAt f (deploymentHasUID uid) cs (forOwningStackOrDeployment uid f cs)"
  using assms
proof (induction cs)
  case Nil
  then show ?case by (simp add: ownedViaDeployment_def)
next
  case (Cons p cs)
  obtain k ssc where p: "p = (k, ssc)" by (cases p)
  have d: "map_of (StackContainers ssc) uid = None"
    using Cons.prems(1) by (auto simp: ownedDirectly_def p)
  have nd: "\<not> ownedDirectly uid cs"
    using Cons.prems(1) by (auto simp: ownedDirectly_def)
  show ?case
  proof (cases "viaDeployment uid f (StackContainers ssc)")
    case (Some scs')
    from viaDeployment_Some[OF Some] obtain pre' k' sc post' where
      e: "StackContainers ssc = pre' @ (k', sc) # post'" "deploymentHasUID uid sc"
         "scs' = pre' @ (k', f sc) # post'"
      by blast
    have "forOwningStackOrDeployment uid f (p # cs) = (k, ssc\<lparr>StackContainers := scs'\<rparr>) # cs"
      using d Some by (simp add: p)
    then have "p # cs = [] @ (k, ssc) # cs \<and> StackContainers ssc = pre' @ (k', sc) # post'
            \<and> deploymentHasUID uid sc
            \<and> forOwningStackOrDeployment uid f (p # cs)
                = [] @ (k, ssc\<lparr>StackContainers := pre' @ (k', f sc) # post'\<rparr>) # cs"
      using e by (simp add: p)
    then show ?thesis unfolding attachesAt_def by blast
  next
    case None
    then have "ownedViaDeployment uid cs"
      using Cons.prems(2) by (auto simp: ownedViaDeployment_def p viaDeployment_None)
    from Cons.IH[OF nd this] obtain pre k1 ssc1 post pre' k' sc post' where
      e: "cs = pre @ (k1, ssc1) # post" "StackContainers ssc1 = pre' @ (k', sc) # post'"
         "deploymentHasUID uid sc"
         "forOwningStackOrDeployment uid f cs
            = pre @ (k1, ssc1\<lparr>StackContainers := pre' @ (k', f sc) # post'\<rparr>) # post"
      unfolding attachesAt_def by blast
    have "forOwningStackOrDeployment uid f (p # cs) = p # forOwningStackOrDeployment uid f cs"
      using d None by (simp add: p)
    then have "p # cs = (p # pre) @ (k1, ssc1) # post \<and> StackContainers ssc1 = pre' @ (k', sc) # post'
            \<and> deploymentHasUID uid sc
            \<and> forOwningStackOrDeployment uid f (p # cs)
                = (p # pre) @ (k1, ssc1\<lparr>StackContainers := pre' @ (k', f sc) # post'\<rparr>) # post"
      using e by simp
    then show ?thesis unfolding attachesAt_def by blast
  qed
qed

lemma direct_first:
  assumes "map_of (StackContainers ssc) uid \<noteq> None"
    and "\<not> ownedDirectly uid pre" and "\<not> ownedViaDeployment uid pre"
  shows "forOwningStackOrDeployment uid f (pre @ (k, ssc) # rest)
           = pre @ (k, ssc\<lparr>StackContainers := AList.map_entry uid f (StackContainers ssc)\<rparr>) # rest"
  using assms(1) by (auto simp: fallback_prefix[OF assms(2,3)])

lemma keys_map_entry: "map fst (AList.map_entry uid f scs) = map fst scs"
  by (induction scs) auto

lemma deployments_map_entry:
  assumes "\<And>sc. Deployment (Resources (f sc)) = Deployment (Resources sc)"
  shows "map (\<lambda>q. Deployment (Resources (snd q))) (AList.map_entry uid f scs)
           = map (\<lambda>q. Deployment (Resources (snd q))) scs"
  using assms by (induction scs) auto

lemma keys_via:
  assumes "viaDeployment uid f scs = Some scs'"
  shows "map fst scs' = map fst scs"
  using viaDeployment_Some[OF assms] by auto

lemma deployments_via:
  assumes "\<And>sc. Deployment (Resources (f sc)) = Deployment (Resources sc)"
    and "viaDeployment uid f scs = Some scs'"
  shows "map (\<lambda>q. Deployment (Resources (snd q))) scs'
           = map (\<lambda>q. Deployment (Resources (snd q))) scs"
  using viaDeployment_Some[OF assms(2)] assms(1) by auto

lemma direct_keys:
  "(map_of scs u \<noteq> None) = (u \<in> set (map fst scs))"
  "(\<exists>y. map_of scs u = Some y) = (u \<in> set (map fst scs))"
  using map_of_eq_None_iff[of scs u] by auto

lemma via_deployments:
  "(\<exists>q \<in> set scs. deploymentHasUID u (snd q))
     = (\<exists>d \<in> set (map (\<lambda>q. Deployment (Resources (snd q))) scs).
          case d of None \<Rightarrow> False | Some x \<Rightarrow> UID (Meta x) = u)"
  by (auto simp: deploymentHasUID_def)

lemma ownedDirectly_Cons:
  "ownedDirectly u ((k, ssc) # cs) = (map_of (StackContainers ssc) u \<noteq> None \<or> ownedDirectly u cs)"
  by (simp add: ownedDirectly_def)

lemma ownedViaDeployment_Cons:
  "ownedViaDeployment u ((k, ssc) # cs)
     = ((\<exists>q \<in> set (StackContainers ssc). deploymentHasUID u (snd q)) \<or> ownedViaDeployment u cs)"
  by (simp add: ownedViaDeployment_def)

lemma forOwning_direct:
  "ownedDirectly u (forOwningStackOrDeployment uid f cs) = ownedDirectly u cs"
proof (induction cs)
  case Nil
  then show ?case by simp
next
  case (Cons p cs)
  obtain k ssc where p: "p = (k, ssc)" by (cases p)
  show ?case
  proof (cases "map_of (StackContainers ssc) uid")
    case (Some s)
    then show ?thesis
      by (simp add: p ownedDirectly_Cons direct_keys keys_map_entry)
  next
    case None
    show ?thesis
    proof (cases "viaDeployment uid f (StackContainers ssc)")
      case (Some scs')
      then show ?thesis
        using None keys_via[OF Some] by (simp add: p ownedDirectly_Cons direct_keys)
    next
      case n: None
      then show ?thesis using None Cons.IH by (simp add: p ownedDirectly_Cons)
    qed
  qed
qed

lemma forOwning_via:
  assumes "\<And>sc. Deployment (Resources (f sc)) = Deployment (Resources sc)"
  shows "ownedViaDeployment u (forOwningStackOrDeployment uid f cs) = ownedViaDeployment u cs"
proof (induction cs)
  case Nil
  then show ?case by simp
next
  case (Cons p cs)
  obtain k ssc where p: "p = (k, ssc)" by (cases p)
  show ?case
  proof (cases "map_of (StackContainers ssc) uid")
    case (Some s)
    then show ?thesis
      by (simp add: p ownedViaDeployment_Cons via_deployments deployments_map_entry[OF assms])
  next
    case None
    show ?thesis
    proof (cases "viaDeployment uid f (StackContainers ssc)")
      case (Some scs')
      then show ?thesis
        using None deployments_via[OF assms Some]
        by (simp add: p ownedViaDeployment_Cons via_deployments)
    next
      case n: None
      then show ?thesis using None Cons.IH by (simp add: p ownedViaDeployment_Cons)
    qed
  qed
qed

lemma map_entry_keeps:
  assumes "\<And>sc. R sc \<Longrightarrow> R (f sc)" and "\<exists>q \<in> set scs. R (snd q)"
  shows "\<exists>q \<in> set (AList.map_entry uid f scs). R (snd q)"
  using assms(2)
proof (induction scs)
  case Nil
  then show ?case by simp
next
  case (Cons p scs)
  obtain k sc where p: "p = (k, sc)" by (cases p)
  show ?case using Cons assms(1) by (auto simp: p)
qed

lemma via_keeps:
  assumes "\<And>sc. R sc \<Longrightarrow> R (f sc)" and "viaDeployment uid f scs = Some scs'"
    and "\<exists>q \<in> set scs. R (snd q)"
  shows "\<exists>q \<in> set scs'. R (snd q)"
proof -
  from viaDeployment_Some[OF assms(2)] obtain pre' k' sc post' where
    e: "scs = pre' @ (k', sc) # post'" "scs' = pre' @ (k', f sc) # post'"
    by blast
  show ?thesis using assms(1,3) unfolding e by auto
qed

lemma forOwning_keeps:
  assumes "\<And>sc. R sc \<Longrightarrow> R (f sc)"
    and "\<exists>p \<in> set cs. \<exists>q \<in> set (StackContainers (snd p)). R (snd q)"
  shows "\<exists>p \<in> set (forOwningStackOrDeployment uid f cs).
           \<exists>q \<in> set (StackContainers (snd p)). R (snd q)"
  using assms(2)
proof (induction cs)
  case Nil
  then show ?case by simp
next
  case (Cons p cs)
  obtain k ssc where p: "p = (k, ssc)" by (cases p)
  show ?case
  proof (cases "map_of (StackContainers ssc) uid")
    case (Some s)
    show ?thesis
    proof (cases "\<exists>q \<in> set (StackContainers ssc). R (snd q)")
      case True
      from map_entry_keeps[of R f, OF assms(1) True]
      show ?thesis using Some by (simp add: p)
    next
      case False
      then show ?thesis using Cons.prems Some by (auto simp: p)
    qed
  next
    case None
    show ?thesis
    proof (cases "viaDeployment uid f (StackContainers ssc)")
      case (Some scs')
      show ?thesis
      proof (cases "\<exists>q \<in> set (StackContainers ssc). R (snd q)")
        case True
        from via_keeps[of R f, OF assms(1) Some True]
        show ?thesis using None Some by (simp add: p)
      next
        case False
        then show ?thesis using Cons.prems None Some by (auto simp: p)
      qed
    next
      case n: None
      show ?thesis
      proof (cases "\<exists>q \<in> set (StackContainers ssc). R (snd q)")
        case True
        then show ?thesis using None n by (auto simp: p)
      next
        case False
        then have "\<exists>p \<in> set cs. \<exists>q \<in> set (StackContainers (snd p)). R (snd q)"
          using Cons.prems by (auto simp: p)
        from Cons.IH[OF this] show ?thesis using None n by (auto simp: p)
      qed
    qed
  qed
qed

lemma attachesAt_gives:
  assumes "attachesAt f P cs cs'" and "\<And>sc. P sc \<Longrightarrow> R (f sc)"
  shows "\<exists>p \<in> set cs'. \<exists>q \<in> set (StackContainers (snd p)). R (snd q)"
proof -
  from assms(1) obtain pre k ssc post pre' k' sc post' where
    e: "P sc" "cs' = pre @ (k, ssc\<lparr>StackContainers := pre' @ (k', f sc) # post'\<rparr>) # post"
    unfolding attachesAt_def by blast
  have "R (f sc)" using assms(2) e(1) by simp
  then show ?thesis unfolding e(2) by auto
qed

lemma collectService_direct:
  "ownedDirectly u (collectService x cs) = ownedDirectly u cs"
  by (simp add: collectService_def forOwning_direct split: option.splits)

lemma collectService_via:
  "ownedViaDeployment u (collectService x cs) = ownedViaDeployment u cs"
  by (simp add: collectService_def forOwning_via setResources_def split: option.splits)

lemma fold_collectService_owned:
  "ownedDirectly u (fold collectService items cs) = ownedDirectly u cs"
  "ownedViaDeployment u (fold collectService items cs) = ownedViaDeployment u cs"
  by (induction items arbitrary: cs) (simp_all add: collectService_direct collectService_via)

lemma fold_collectService_keeps:
  assumes "set items \<subseteq> S"
    and "\<exists>p \<in> set cs. \<exists>q \<in> set (StackContainers (snd p)).
           deploymentHasUID uid (snd q) \<and> Service (Resources (snd q)) \<in> Some ` S"
  shows "\<exists>p \<in> set (fold collectService items cs). \<exists>q \<in> set (StackContainers (snd p)).
           deploymentHasUID uid (snd q) \<and> Service (Resources (snd q)) \<in> Some ` S"
  using assms
proof (induction items arbitrary: cs)
  case Nil
  then show ?case by simp
next
  case (Cons x items)
  have x: "x \<in> S" using Cons.prems(1) by simp
  have "\<exists>p \<in> set (collectService x cs). \<exists>q \<in> set (StackContainers (snd p)).
           deploymentHasUID uid (snd q) \<and> Service (Resources (snd q)) \<in> Some ` S"
  proof (cases "getOwnerUID (Meta x)")
    case None
    then show ?thesis using Cons.prems(2) by (simp add: collectService_def)
  next
    case (Some u)
    have "\<exists>p \<in> set (forOwningStackOrDeployment u (setResources (\<lambda>r. r\<lparr>Service := Some x\<rparr>)) cs).
            \<exists>q \<in> set (StackContainers (snd p)).
              deploymentHasUID uid (snd q) \<and> Service (Resources (snd q)) \<in> Some ` S"
      by (rule forOwning_keeps[where R = "\<lambda>sc. deploymentHasUID uid sc
                \<and> Service (Resources sc) \<in> Some ` S", OF _ Cons.prems(2)])
         (insert x, auto simp: setResources_def deploymentHasUID_def)
    then show ?thesis by (simp add: collectService_def Some)
  qed
  from Cons.IH[OF _ this] Cons.prems(1) show ?case by simp
qed

lemma service_lands:
  assumes "getOwnerUID (Meta service) = Some uid"
    and "\<not> ownedDirectly uid cs" and "ownedViaDeployment uid cs"
  shows "attachesAt (setResources (\<lambda>r. r\<lparr>Service := Some service\<rparr>)) (deploymentHasUID uid)
           (fold collectService items1 cs) (collectService service (fold collectService items1 cs))"
    and "\<exists>p \<in> set (fold collectService items2 (collectService service (fold collectService items1 cs))).
           \<exists>q \<in> set (StackContainers (snd p)).
             deploymentHasUID uid (snd q) \<and> Service (Resources (snd q)) \<in> Some ` set (service # items2)"
proof -
  let ?mid = "fold collectService items1 cs"
  have d: "\<not> ownedDirectly uid ?mid" "ownedViaDeployment uid ?mid"
    using assms(2,3) by (simp_all add: fold_collectService_owned)
  show a: "attachesAt (setResources (\<lambda>r. r\<lparr>Service := Some service\<rparr>)) (deploymentHasUID uid)
           ?mid (collectService service ?mid)"
    using fallback_attaches[OF d] by (simp add: collectService_def assms(1))
  have "\<exists>p \<in> set (collectService service ?mid). \<exists>q \<in> set (StackContainers (snd p)).
          deploymentHasUID uid (snd q) \<and> Service (Resources (snd q)) \<in> Some ` set (service # items2)"
    by (rule attachesAt_gives[OF a]) (auto simp: setResources_def deploymentHasUID_def)
  from fold_collectService_keeps[OF _ this, of items2]
  show "\<exists>p \<in> set (fold collectService items2 (collectService service ?mid)).
           \<exists>q \<in> set (StackContainers (snd p)).
             deploymentHasUID uid (snd q) \<and> Service (Resources (snd q)) \<in> Some ` set (service # items2)"
    by auto
qed

lemma service_stays_out:
  assumes "getOwnerUID m = Some uid"
    and "\<not> ownedDirectly uid cs" and "\<not> ownedViaDeployment uid cs"
    and "(RServices, m) \<notin> set (attached cs)"
  shows "(RServices, m) \<notin> set (attached (fold collectService items cs))"
  using assms(2,3,4)
proof (induction items arbitrary: cs)
  case Nil
  then show ?case by simp
next
  case (Cons x items)
  have inv: "\<not> ownedDirectly uid (collectService x cs)" "\<not> ownedViaDeployment uid (collectService x cs)"
    using Cons.prems(1,2) by (simp_all add: collectService_direct collectService_via)
  have "(RServices, m) \<notin> set (attached (collectService x cs))"
  proof (cases "Meta x = m")
    case True
    then have "collectService x cs = cs"
      using assms(1) fallback_neither[OF Cons.prems(1,2)] by (simp add: collectService_def)
    then show ?thesis using Cons.prems(3) by simp
  next
    case False
    then have "(RServices, m) \<notin> set (singleOwner RServices [x])"
      by (auto simp: singleOwner_def)
    then show ?thesis using collectService_attached[of x cs] Cons.prems(3) by auto
  qed
  from Cons.IH[OF inv this] show ?case by simp
qed

lemma collectServices_lists:
  assumes "ListServices (client c) (ConfigNamespace (config c)) (store w) = (Inr items, s')"
  shows "collectServices c cs w
           = (Inr (fold collectService items cs),
              w\<lparr>store := s',
                calls := calls w @ [Call VList RServices (ConfigNamespace (config c)) []]\<rparr>)"
  using assms by (simp add: collectServices_def invoke_def)

lemma collectServices_fails:
  assumes "ListServices (client c) (ConfigNamespace (config c)) (store w) = (Inl err, s')"
  shows "collectServices c cs w
           = (Inl (Failure (''failed to list Services: '' @ Error err)),
              w\<lparr>store := s',
                calls := calls w @ [Call VList RServices (ConfigNamespace (config c)) []]\<rparr>)"
  using assms by (simp add: collectServices_def invoke_def)

lemma collectServices_fallback:
  "ListServices (client c) (ConfigNamespace (config c)) (store w)
       = (Inr (items1 @ service # items2), s')
     \<and> getOwnerUID (Meta service) = Some uid
     \<and> \<not> ownedDirectly uid cs \<and> ownedViaDeployment uid cs \<longrightarrow>
     (\<exists>mid. attachesAt (setResources (\<lambda>r. r\<lparr>Service := Some service\<rparr>)) (deploymentHasUID uid)
              (fold collectService items1 cs) mid
        \<and> collectServices c cs w
            = (Inr (fold collectService items2 mid),
               w\<lparr>store := s',
                 calls := calls w @ [Call VList RServices (ConfigNamespace (config c)) []]\<rparr>))
     \<and> (\<exists>cs'. fst (collectServices c cs w) = Inr cs'
          \<and> (\<exists>p \<in> set cs'. \<exists>q \<in> set (StackContainers (snd p)).
                deploymentHasUID uid (snd q)
                \<and> Service (Resources (snd q)) \<in> Some ` set (service # items2)))"
proof (intro impI, elim conjE)
  assume l: "ListServices (client c) (ConfigNamespace (config c)) (store w)
               = (Inr (items1 @ service # items2), s')"
    and o: "getOwnerUID (Meta service) = Some uid"
    and d: "\<not> ownedDirectly uid cs" "ownedViaDeployment uid cs"
  note r = collectServices_lists[OF l, of cs]
  note a = service_lands[OF o d]
  have "attachesAt (setResources (\<lambda>r. r\<lparr>Service := Some service\<rparr>)) (deploymentHasUID uid)
              (fold collectService items1 cs) (collectService service (fold collectService items1 cs))
        \<and> collectServices c cs w
            = (Inr (fold collectService items2 (collectService service (fold collectService items1 cs))),
               w\<lparr>store := s',
                 calls := calls w @ [Call VList RServices (ConfigNamespace (config c)) []]\<rparr>)"
    using a(1) r by simp
  then have one: "\<exists>mid. attachesAt (setResources (\<lambda>r. r\<lparr>Service := Some service\<rparr>)) (deploymentHasUID uid)
              (fold collectService items1 cs) mid
        \<and> collectServices c cs w
            = (Inr (fold collectService items2 mid),
               w\<lparr>store := s',
                 calls := calls w @ [Call VList RServices (ConfigNamespace (config c)) []]\<rparr>)"
    by blast
  have "fst (collectServices c cs w)
          = Inr (fold collectService items2 (collectService service (fold collectService items1 cs)))"
    using r by simp
  then have two: "\<exists>cs'. fst (collectServices c cs w) = Inr cs'
          \<and> (\<exists>p \<in> set cs'. \<exists>q \<in> set (StackContainers (snd p)).
                deploymentHasUID uid (snd q)
                \<and> Service (Resources (snd q)) \<in> Some ` set (service # items2))"
    using a(2) by blast
  show "(\<exists>mid. attachesAt (setResources (\<lambda>r. r\<lparr>Service := Some service\<rparr>)) (deploymentHasUID uid)
              (fold collectService items1 cs) mid
        \<and> collectServices c cs w
            = (Inr (fold collectService items2 mid),
               w\<lparr>store := s',
                 calls := calls w @ [Call VList RServices (ConfigNamespace (config c)) []]\<rparr>))
     \<and> (\<exists>cs'. fst (collectServices c cs w) = Inr cs'
          \<and> (\<exists>p \<in> set cs'. \<exists>q \<in> set (StackContainers (snd p)).
                deploymentHasUID uid (snd q)
                \<and> Service (Resources (snd q)) \<in> Some ` set (service # items2)))"
    using one two by (rule conjI)
qed

lemma collectServices_neither:
  "ListServices (client c) (ConfigNamespace (config c)) (store w)
       = (Inr (items1 @ service # items2), s')
     \<and> getOwnerUID (Meta service) = Some uid
     \<and> \<not> ownedDirectly uid cs \<and> \<not> ownedViaDeployment uid cs \<longrightarrow>
     collectServices c cs w
       = (Inr (fold collectService items2 (fold collectService items1 cs)),
          w\<lparr>store := s',
            calls := calls w @ [Call VList RServices (ConfigNamespace (config c)) []]\<rparr>)
     \<and> ((RServices, Meta service) \<notin> set (attached cs) \<longrightarrow>
          (\<exists>cs'. fst (collectServices c cs w) = Inr cs'
             \<and> (RServices, Meta service) \<notin> set (attached cs')))"
proof (intro impI, elim conjE)
  assume l: "ListServices (client c) (ConfigNamespace (config c)) (store w)
               = (Inr (items1 @ service # items2), s')"
    and o: "getOwnerUID (Meta service) = Some uid"
    and d: "\<not> ownedDirectly uid cs" "\<not> ownedViaDeployment uid cs"
  note r = collectServices_lists[OF l, of cs]
  have m: "\<not> ownedDirectly uid (fold collectService items1 cs)"
          "\<not> ownedViaDeployment uid (fold collectService items1 cs)"
    using d by (simp_all add: fold_collectService_owned)
  have skip: "collectService service (fold collectService items1 cs) = fold collectService items1 cs"
    using fallback_neither[OF m] by (simp add: collectService_def o)
  have one: "collectServices c cs w
       = (Inr (fold collectService items2 (fold collectService items1 cs)),
          w\<lparr>store := s',
            calls := calls w @ [Call VList RServices (ConfigNamespace (config c)) []]\<rparr>)"
    using r skip by simp
  have two: "\<exists>cs'. fst (collectServices c cs w) = Inr cs'
             \<and> (RServices, Meta service) \<notin> set (attached cs')"
    if "(RServices, Meta service) \<notin> set (attached cs)"
    using service_stays_out[OF o d that, of "items1 @ service # items2"] r by simp
  show "collectServices c cs w
       = (Inr (fold collectService items2 (fold collectService items1 cs)),
          w\<lparr>store := s',
            calls := calls w @ [Call VList RServices (ConfigNamespace (config c)) []]\<rparr>)
     \<and> ((RServices, Meta service) \<notin> set (attached cs) \<longrightarrow>
          (\<exists>cs'. fst (collectServices c cs w) = Inr cs'
             \<and> (RServices, Meta service) \<notin> set (attached cs')))"
    using one two by blast
qed

lemma collectServices_direct:
  "ListServices (client c) (ConfigNamespace (config c)) (store w)
       = (Inr (items1 @ service # items2), s')
     \<and> getOwnerUID (Meta service) = Some uid
     \<and> fold collectService items1 cs = pre @ (k, ssc) # rest
     \<and> map_of (StackContainers ssc) uid \<noteq> None
     \<and> \<not> ownedDirectly uid pre \<and> \<not> ownedViaDeployment uid pre \<longrightarrow>
     collectServices c cs w
       = (Inr (fold collectService items2
                 (pre @ (k, ssc\<lparr>StackContainers :=
                            AList.map_entry uid (setResources (\<lambda>r. r\<lparr>Service := Some service\<rparr>))
                              (StackContainers ssc)\<rparr>) # rest)),
          w\<lparr>store := s',
            calls := calls w @ [Call VList RServices (ConfigNamespace (config c)) []]\<rparr>)"
proof (intro impI, elim conjE)
  assume l: "ListServices (client c) (ConfigNamespace (config c)) (store w)
               = (Inr (items1 @ service # items2), s')"
    and o: "getOwnerUID (Meta service) = Some uid"
    and e: "fold collectService items1 cs = pre @ (k, ssc) # rest"
    and d: "map_of (StackContainers ssc) uid \<noteq> None"
           "\<not> ownedDirectly uid pre" "\<not> ownedViaDeployment uid pre"
  have "collectService service (pre @ (k, ssc) # rest)
          = pre @ (k, ssc\<lparr>StackContainers :=
                            AList.map_entry uid (setResources (\<lambda>r. r\<lparr>Service := Some service\<rparr>))
                              (StackContainers ssc)\<rparr>) # rest"
    using direct_first[OF d] by (simp add: collectService_def o)
  then show "collectServices c cs w
       = (Inr (fold collectService items2
                 (pre @ (k, ssc\<lparr>StackContainers :=
                            AList.map_entry uid (setResources (\<lambda>r. r\<lparr>Service := Some service\<rparr>))
                              (StackContainers ssc)\<rparr>) # rest)),
          w\<lparr>store := s',
            calls := calls w @ [Call VList RServices (ConfigNamespace (config c)) []]\<rparr>)"
    using collectServices_lists[OF l, of cs] e by simp
qed

lemma collectHPA_direct:
  "ownedDirectly u (collectHPA x cs) = ownedDirectly u cs"
  by (simp add: collectHPA_def forOwning_direct split: option.splits)

lemma collectHPA_via:
  "ownedViaDeployment u (collectHPA x cs) = ownedViaDeployment u cs"
  by (simp add: collectHPA_def forOwning_via setResources_def split: option.splits)

lemma fold_collectHPA_owned:
  "ownedDirectly u (fold collectHPA items cs) = ownedDirectly u cs"
  "ownedViaDeployment u (fold collectHPA items cs) = ownedViaDeployment u cs"
  by (induction items arbitrary: cs) (simp_all add: collectHPA_direct collectHPA_via)

lemma fold_collectHPA_keeps:
  assumes "set items \<subseteq> S"
    and "\<exists>p \<in> set cs. \<exists>q \<in> set (StackContainers (snd p)).
           deploymentHasUID uid (snd q) \<and> HPA (Resources (snd q)) \<in> Some ` S"
  shows "\<exists>p \<in> set (fold collectHPA items cs). \<exists>q \<in> set (StackContainers (snd p)).
           deploymentHasUID uid (snd q) \<and> HPA (Resources (snd q)) \<in> Some ` S"
  using assms
proof (induction items arbitrary: cs)
  case Nil
  then show ?case by simp
next
  case (Cons x items)
  have x: "x \<in> S" using Cons.prems(1) by simp
  have "\<exists>p \<in> set (collectHPA x cs). \<exists>q \<in> set (StackContainers (snd p)).
           deploymentHasUID uid (snd q) \<and> HPA (Resources (snd q)) \<in> Some ` S"
  proof (cases "getOwnerUID (Meta x)")
    case None
    then show ?thesis using Cons.prems(2) by (simp add: collectHPA_def)
  next
    case (Some u)
    have "\<exists>p \<in> set (forOwningStackOrDeployment u (setResources (\<lambda>r. r\<lparr>HPA := Some x\<rparr>)) cs).
            \<exists>q \<in> set (StackContainers (snd p)).
              deploymentHasUID uid (snd q) \<and> HPA (Resources (snd q)) \<in> Some ` S"
      by (rule forOwning_keeps[where R = "\<lambda>sc. deploymentHasUID uid sc
                \<and> HPA (Resources sc) \<in> Some ` S", OF _ Cons.prems(2)])
         (insert x, auto simp: setResources_def deploymentHasUID_def)
    then show ?thesis by (simp add: collectHPA_def Some)
  qed
  from Cons.IH[OF _ this] Cons.prems(1) show ?case by simp
qed

lemma hpa_lands:
  assumes "getOwnerUID (Meta hpa) = Some uid"
    and "\<not> ownedDirectly uid cs" and "ownedViaDeployment uid cs"
  shows "attachesAt (setResources (\<lambda>r. r\<lparr>HPA := Some hpa\<rparr>)) (deploymentHasUID uid)
           (fold collectHPA items1 cs) (collectHPA hpa (fold collectHPA items1 cs))"
    and "\<exists>p \<in> set (fold collectHPA items2 (collectHPA hpa (fold collectHPA items1 cs))).
           \<exists>q \<in> set (StackContainers (snd p)).
             deploymentHasUID uid (snd q) \<and> HPA (Resources (snd q)) \<in> Some ` set (hpa # items2)"
proof -
  let ?mid = "fold collectHPA items1 cs"
  have d: "\<not> ownedDirectly uid ?mid" "ownedViaDeployment uid ?mid"
    using assms(2,3) by (simp_all add: fold_collectHPA_owned)
  show a: "attachesAt (setResources (\<lambda>r. r\<lparr>HPA := Some hpa\<rparr>)) (deploymentHasUID uid)
           ?mid (collectHPA hpa ?mid)"
    using fallback_attaches[OF d] by (simp add: collectHPA_def assms(1))
  have "\<exists>p \<in> set (collectHPA hpa ?mid). \<exists>q \<in> set (StackContainers (snd p)).
          deploymentHasUID uid (snd q) \<and> HPA (Resources (snd q)) \<in> Some ` set (hpa # items2)"
    by (rule attachesAt_gives[OF a]) (auto simp: setResources_def deploymentHasUID_def)
  from fold_collectHPA_keeps[OF _ this, of items2]
  show "\<exists>p \<in> set (fold collectHPA items2 (collectHPA hpa ?mid)).
           \<exists>q \<in> set (StackContainers (snd p)).
             deploymentHasUID uid (snd q) \<and> HPA (Resources (snd q)) \<in> Some ` set (hpa # items2)"
    by auto
qed

lemma hpa_stays_out:
  assumes "getOwnerUID m = Some uid"
    and "\<not> ownedDirectly uid cs" and "\<not> ownedViaDeployment uid cs"
    and "(RHorizontalPodAutoscalers, m) \<notin> set (attached cs)"
  shows "(RHorizontalPodAutoscalers, m) \<notin> set (attached (fold collectHPA items cs))"
  using assms(2,3,4)
proof (induction items arbitrary: cs)
  case Nil
  then show ?case by simp
next
  case (Cons x items)
  have inv: "\<not> ownedDirectly uid (collectHPA x cs)" "\<not> ownedViaDeployment uid (collectHPA x cs)"
    using Cons.prems(1,2) by (simp_all add: collectHPA_direct collectHPA_via)
  have "(RHorizontalPodAutoscalers, m) \<notin> set (attached (collectHPA x cs))"
  proof (cases "Meta x = m")
    case True
    then have "collectHPA x cs = cs"
      using assms(1) fallback_neither[OF Cons.prems(1,2)] by (simp add: collectHPA_def)
    then show ?thesis using Cons.prems(3) by simp
  next
    case False
    then have "(RHorizontalPodAutoscalers, m) \<notin> set (singleOwner RHorizontalPodAutoscalers [x])"
      by (auto simp: singleOwner_def)
    then show ?thesis using collectHPA_attached[of x cs] Cons.prems(3) by auto
  qed
  from Cons.IH[OF inv this] show ?case by simp
qed

lemma collectHPAs_lists:
  assumes "ListHPAs (client c) (ConfigNamespace (config c)) (store w) = (Inr items, s')"
  shows "collectHPAs c cs w
           = (Inr (fold collectHPA items cs),
              w\<lparr>store := s',
                calls := calls w @ [Call VList RHorizontalPodAutoscalers (ConfigNamespace (config c)) []]\<rparr>)"
  using assms by (simp add: collectHPAs_def invoke_def)

lemma collectHPAs_fails:
  assumes "ListHPAs (client c) (ConfigNamespace (config c)) (store w) = (Inl err, s')"
  shows "collectHPAs c cs w
           = (Inl (Failure (''failed to list HPAs: '' @ Error err)),
              w\<lparr>store := s',
                calls := calls w @ [Call VList RHorizontalPodAutoscalers (ConfigNamespace (config c)) []]\<rparr>)"
  using assms by (simp add: collectHPAs_def invoke_def)

lemma collectHPAs_fallback:
  "ListHPAs (client c) (ConfigNamespace (config c)) (store w)
       = (Inr (items1 @ hpa # items2), s')
     \<and> getOwnerUID (Meta hpa) = Some uid
     \<and> \<not> ownedDirectly uid cs \<and> ownedViaDeployment uid cs \<longrightarrow>
     (\<exists>mid. attachesAt (setResources (\<lambda>r. r\<lparr>HPA := Some hpa\<rparr>)) (deploymentHasUID uid)
              (fold collectHPA items1 cs) mid
        \<and> collectHPAs c cs w
            = (Inr (fold collectHPA items2 mid),
               w\<lparr>store := s',
                 calls := calls w @ [Call VList RHorizontalPodAutoscalers (ConfigNamespace (config c)) []]\<rparr>))
     \<and> (\<exists>cs'. fst (collectHPAs c cs w) = Inr cs'
          \<and> (\<exists>p \<in> set cs'. \<exists>q \<in> set (StackContainers (snd p)).
                deploymentHasUID uid (snd q)
                \<and> HPA (Resources (snd q)) \<in> Some ` set (hpa # items2)))"
proof (intro impI, elim conjE)
  assume l: "ListHPAs (client c) (ConfigNamespace (config c)) (store w)
               = (Inr (items1 @ hpa # items2), s')"
    and o: "getOwnerUID (Meta hpa) = Some uid"
    and d: "\<not> ownedDirectly uid cs" "ownedViaDeployment uid cs"
  note r = collectHPAs_lists[OF l, of cs]
  note a = hpa_lands[OF o d]
  have "attachesAt (setResources (\<lambda>r. r\<lparr>HPA := Some hpa\<rparr>)) (deploymentHasUID uid)
              (fold collectHPA items1 cs) (collectHPA hpa (fold collectHPA items1 cs))
        \<and> collectHPAs c cs w
            = (Inr (fold collectHPA items2 (collectHPA hpa (fold collectHPA items1 cs))),
               w\<lparr>store := s',
                 calls := calls w @ [Call VList RHorizontalPodAutoscalers (ConfigNamespace (config c)) []]\<rparr>)"
    using a(1) r by simp
  then have one: "\<exists>mid. attachesAt (setResources (\<lambda>r. r\<lparr>HPA := Some hpa\<rparr>)) (deploymentHasUID uid)
              (fold collectHPA items1 cs) mid
        \<and> collectHPAs c cs w
            = (Inr (fold collectHPA items2 mid),
               w\<lparr>store := s',
                 calls := calls w @ [Call VList RHorizontalPodAutoscalers (ConfigNamespace (config c)) []]\<rparr>)"
    by blast
  have "fst (collectHPAs c cs w)
          = Inr (fold collectHPA items2 (collectHPA hpa (fold collectHPA items1 cs)))"
    using r by simp
  then have two: "\<exists>cs'. fst (collectHPAs c cs w) = Inr cs'
          \<and> (\<exists>p \<in> set cs'. \<exists>q \<in> set (StackContainers (snd p)).
                deploymentHasUID uid (snd q)
                \<and> HPA (Resources (snd q)) \<in> Some ` set (hpa # items2))"
    using a(2) by blast
  show "(\<exists>mid. attachesAt (setResources (\<lambda>r. r\<lparr>HPA := Some hpa\<rparr>)) (deploymentHasUID uid)
              (fold collectHPA items1 cs) mid
        \<and> collectHPAs c cs w
            = (Inr (fold collectHPA items2 mid),
               w\<lparr>store := s',
                 calls := calls w @ [Call VList RHorizontalPodAutoscalers (ConfigNamespace (config c)) []]\<rparr>))
     \<and> (\<exists>cs'. fst (collectHPAs c cs w) = Inr cs'
          \<and> (\<exists>p \<in> set cs'. \<exists>q \<in> set (StackContainers (snd p)).
                deploymentHasUID uid (snd q)
                \<and> HPA (Resources (snd q)) \<in> Some ` set (hpa # items2)))"
    using one two by (rule conjI)
qed

lemma collectHPAs_neither:
  "ListHPAs (client c) (ConfigNamespace (config c)) (store w)
       = (Inr (items1 @ hpa # items2), s')
     \<and> getOwnerUID (Meta hpa) = Some uid
     \<and> \<not> ownedDirectly uid cs \<and> \<not> ownedViaDeployment uid cs \<longrightarrow>
     collectHPAs c cs w
       = (Inr (fold collectHPA items2 (fold collectHPA items1 cs)),
          w\<lparr>store := s',
            calls := calls w @ [Call VList RHorizontalPodAutoscalers (ConfigNamespace (config c)) []]\<rparr>)
     \<and> ((RHorizontalPodAutoscalers, Meta hpa) \<notin> set (attached cs) \<longrightarrow>
          (\<exists>cs'. fst (collectHPAs c cs w) = Inr cs'
             \<and> (RHorizontalPodAutoscalers, Meta hpa) \<notin> set (attached cs')))"
proof (intro impI, elim conjE)
  assume l: "ListHPAs (client c) (ConfigNamespace (config c)) (store w)
               = (Inr (items1 @ hpa # items2), s')"
    and o: "getOwnerUID (Meta hpa) = Some uid"
    and d: "\<not> ownedDirectly uid cs" "\<not> ownedViaDeployment uid cs"
  note r = collectHPAs_lists[OF l, of cs]
  have m: "\<not> ownedDirectly uid (fold collectHPA items1 cs)"
          "\<not> ownedViaDeployment uid (fold collectHPA items1 cs)"
    using d by (simp_all add: fold_collectHPA_owned)
  have skip: "collectHPA hpa (fold collectHPA items1 cs) = fold collectHPA items1 cs"
    using fallback_neither[OF m] by (simp add: collectHPA_def o)
  have one: "collectHPAs c cs w
       = (Inr (fold collectHPA items2 (fold collectHPA items1 cs)),
          w\<lparr>store := s',
            calls := calls w @ [Call VList RHorizontalPodAutoscalers (ConfigNamespace (config c)) []]\<rparr>)"
    using r skip by simp
  have two: "\<exists>cs'. fst (collectHPAs c cs w) = Inr cs'
             \<and> (RHorizontalPodAutoscalers, Meta hpa) \<notin> set (attached cs')"
    if "(RHorizontalPodAutoscalers, Meta hpa) \<notin> set (attached cs)"
    using hpa_stays_out[OF o d that, of "items1 @ hpa # items2"] r by simp
  show "collectHPAs c cs w
       = (Inr (fold collectHPA items2 (fold collectHPA items1 cs)),
          w\<lparr>store := s',
            calls := calls w @ [Call VList RHorizontalPodAutoscalers (ConfigNamespace (config c)) []]\<rparr>)
     \<and> ((RHorizontalPodAutoscalers, Meta hpa) \<notin> set (attached cs) \<longrightarrow>
          (\<exists>cs'. fst (collectHPAs c cs w) = Inr cs'
             \<and> (RHorizontalPodAutoscalers, Meta hpa) \<notin> set (attached cs')))"
    using one two by blast
qed

lemma collectHPAs_direct:
  "ListHPAs (client c) (ConfigNamespace (config c)) (store w)
       = (Inr (items1 @ hpa # items2), s')
     \<and> getOwnerUID (Meta hpa) = Some uid
     \<and> fold collectHPA items1 cs = pre @ (k, ssc) # rest
     \<and> map_of (StackContainers ssc) uid \<noteq> None
     \<and> \<not> ownedDirectly uid pre \<and> \<not> ownedViaDeployment uid pre \<longrightarrow>
     collectHPAs c cs w
       = (Inr (fold collectHPA items2
                 (pre @ (k, ssc\<lparr>StackContainers :=
                            AList.map_entry uid (setResources (\<lambda>r. r\<lparr>HPA := Some hpa\<rparr>))
                              (StackContainers ssc)\<rparr>) # rest)),
          w\<lparr>store := s',
            calls := calls w @ [Call VList RHorizontalPodAutoscalers (ConfigNamespace (config c)) []]\<rparr>)"
proof (intro impI, elim conjE)
  assume l: "ListHPAs (client c) (ConfigNamespace (config c)) (store w)
               = (Inr (items1 @ hpa # items2), s')"
    and o: "getOwnerUID (Meta hpa) = Some uid"
    and e: "fold collectHPA items1 cs = pre @ (k, ssc) # rest"
    and d: "map_of (StackContainers ssc) uid \<noteq> None"
           "\<not> ownedDirectly uid pre" "\<not> ownedViaDeployment uid pre"
  have "collectHPA hpa (pre @ (k, ssc) # rest)
          = pre @ (k, ssc\<lparr>StackContainers :=
                            AList.map_entry uid (setResources (\<lambda>r. r\<lparr>HPA := Some hpa\<rparr>))
                              (StackContainers ssc)\<rparr>) # rest"
    using direct_first[OF d] by (simp add: collectHPA_def o)
  then show "collectHPAs c cs w
       = (Inr (fold collectHPA items2
                 (pre @ (k, ssc\<lparr>StackContainers :=
                            AList.map_entry uid (setResources (\<lambda>r. r\<lparr>HPA := Some hpa\<rparr>))
                              (StackContainers ssc)\<rparr>) # rest)),
          w\<lparr>store := s',
            calls := calls w @ [Call VList RHorizontalPodAutoscalers (ConfigNamespace (config c)) []]\<rparr>)"
    using collectHPAs_lists[OF l, of cs] e by simp
qed

lemma fallback_per_object:
  "(getOwnerUID (Meta service) = Some uid \<longrightarrow>
      (\<not> ownedDirectly uid cs \<and> ownedViaDeployment uid cs \<longrightarrow>
         attachesAt (setResources (\<lambda>r. r\<lparr>Service := Some service\<rparr>)) (deploymentHasUID uid)
           cs (collectService service cs))
      \<and> (\<not> ownedDirectly uid cs \<and> \<not> ownedViaDeployment uid cs \<longrightarrow>
           collectService service cs = cs)
      \<and> (map_of (StackContainers ssc) uid \<noteq> None
           \<and> \<not> ownedDirectly uid pre \<and> \<not> ownedViaDeployment uid pre \<longrightarrow>
           collectService service (pre @ (k, ssc) # rest)
             = pre @ (k, ssc\<lparr>StackContainers :=
                        AList.map_entry uid (setResources (\<lambda>r. r\<lparr>Service := Some service\<rparr>))
                          (StackContainers ssc)\<rparr>) # rest))
   \<and> (getOwnerUID (Meta hpa) = Some uid \<longrightarrow>
      (\<not> ownedDirectly uid cs \<and> ownedViaDeployment uid cs \<longrightarrow>
         attachesAt (setResources (\<lambda>r. r\<lparr>HPA := Some hpa\<rparr>)) (deploymentHasUID uid)
           cs (collectHPA hpa cs))
      \<and> (\<not> ownedDirectly uid cs \<and> \<not> ownedViaDeployment uid cs \<longrightarrow> collectHPA hpa cs = cs)
      \<and> (map_of (StackContainers ssc) uid \<noteq> None
           \<and> \<not> ownedDirectly uid pre \<and> \<not> ownedViaDeployment uid pre \<longrightarrow>
           collectHPA hpa (pre @ (k, ssc) # rest)
             = pre @ (k, ssc\<lparr>StackContainers :=
                        AList.map_entry uid (setResources (\<lambda>r. r\<lparr>HPA := Some hpa\<rparr>))
                          (StackContainers ssc)\<rparr>) # rest))"
  by (simp add: collectService_def collectHPA_def fallback_attaches fallback_neither direct_first)

text \<open>
  Claim C8. For a service or an autoscaler with the single owner \<open>uid\<close>: if no StackSet
  has a stack container with that UID and some stack holds a collected deployment with that
  UID, the object is attached to exactly one stack, one whose deployment has that UID; if
  neither is the case, the index stays as it is; and in the first StackSet that matches at
  all, a stack container with that UID gets the object whether or not a deployment there
  has the UID too: the direct lookup comes before the fallback.

  \<open>collectServices\<close> and \<open>collectHPAs\<close> list the objects and take them in the order
  of the listing, each on the index that the objects before it have left; a failed listing
  is the error of the collector. For a listed object with the single owner \<open>uid\<close>, the
  matching being judged on the index that the collector was given: if no stack container
  has that UID and a collected deployment has it, the object is attached at its turn to one
  stack whose deployment has that UID, and in the index that the collector returns a stack
  with that deployment holds the object or one listed after it; if neither matches, the
  collector returns what it returns for the listing without the object, and an object that
  was not attached before is not attached afterwards; and if at its turn the first StackSet
  that matches at all has a stack container with that UID, that container gets the object.
\<close>
theorem deployment_fallback:
  "((getOwnerUID (Meta service) = Some uid \<longrightarrow>
      (\<not> ownedDirectly uid cs \<and> ownedViaDeployment uid cs \<longrightarrow>
         attachesAt (setResources (\<lambda>r. r\<lparr>Service := Some service\<rparr>)) (deploymentHasUID uid)
           cs (collectService service cs))
      \<and> (\<not> ownedDirectly uid cs \<and> \<not> ownedViaDeployment uid cs \<longrightarrow>
           collectService service cs = cs)
      \<and> (map_of (StackContainers ssc) uid \<noteq> None
           \<and> \<not> ownedDirectly uid pre \<and> \<not> ownedViaDeployment uid pre \<longrightarrow>
           collectService service (pre @ (k, ssc) # rest)
             = pre @ (k, ssc\<lparr>StackContainers :=
                        AList.map_entry uid (setResources (\<lambda>r. r\<lparr>Service := Some service\<rparr>))
                          (StackContainers ssc)\<rparr>) # rest))
   \<and> (getOwnerUID (Meta hpa) = Some uid \<longrightarrow>
      (\<not> ownedDirectly uid cs \<and> ownedViaDeployment uid cs \<longrightarrow>
         attachesAt (setResources (\<lambda>r. r\<lparr>HPA := Some hpa\<rparr>)) (deploymentHasUID uid)
           cs (collectHPA hpa cs))
      \<and> (\<not> ownedDirectly uid cs \<and> \<not> ownedViaDeployment uid cs \<longrightarrow> collectHPA hpa cs = cs)
      \<and> (map_of (StackContainers ssc) uid \<noteq> None
           \<and> \<not> ownedDirectly uid pre \<and> \<not> ownedViaDeployment uid pre \<longrightarrow>
           collectHPA hpa (pre @ (k, ssc) # rest)
             = pre @ (k, ssc\<lparr>StackContainers :=
                        AList.map_entry uid (setResources (\<lambda>r. r\<lparr>HPA := Some hpa\<rparr>))
                          (StackContainers ssc)\<rparr>) # rest)))
   \<and> (ListServices (client c) (ConfigNamespace (config c)) (store w) = (Inr services, s') \<longrightarrow>
     collectServices c cs w
       = (Inr (fold collectService services cs),
          w\<lparr>store := s',
            calls := calls w @ [Call VList RServices (ConfigNamespace (config c)) []]\<rparr>))
   \<and> (ListServices (client c) (ConfigNamespace (config c)) (store w) = (Inl err, s') \<longrightarrow>
     collectServices c cs w
       = (Inl (Failure (''failed to list Services: '' @ Error err)),
          w\<lparr>store := s',
            calls := calls w @ [Call VList RServices (ConfigNamespace (config c)) []]\<rparr>))
   \<and> (ListServices (client c) (ConfigNamespace (config c)) (store w)
       = (Inr (services1 @ service # services2), s')
     \<and> getOwnerUID (Meta service) = Some uid
     \<and> \<not> ownedDirectly uid cs \<and> ownedViaDeployment uid cs \<longrightarrow>
     (\<exists>mid. attachesAt (setResources (\<lambda>r. r\<lparr>Service := Some service\<rparr>)) (deploymentHasUID uid)
              (fold collectService services1 cs) mid
        \<and> collectServices c cs w
            = (Inr (fold collectService services2 mid),
               w\<lparr>store := s',
                 calls := calls w @ [Call VList RServices (ConfigNamespace (config c)) []]\<rparr>))
     \<and> (\<exists>cs'. fst (collectServices c cs w) = Inr cs'
          \<and> (\<exists>p \<in> set cs'. \<exists>q \<in> set (StackContainers (snd p)).
                deploymentHasUID uid (snd q)
                \<and> Service (Resources (snd q)) \<in> Some ` set (service # services2))))
   \<and> (ListServices (client c) (ConfigNamespace (config c)) (store w)
       = (Inr (services1 @ service # services2), s')
     \<and> getOwnerUID (Meta service) = Some uid
     \<and> \<not> ownedDirectly uid cs \<and> \<not> ownedViaDeployment uid cs \<longrightarrow>
     collectServices c cs w
       = (Inr (fold collectService services2 (fold collectService services1 cs)),
          w\<lparr>store := s',
            calls := calls w @ [Call VList RServices (ConfigNamespace (config c)) []]\<rparr>)
     \<and> ((RServices, Meta service) \<notin> set (attached cs) \<longrightarrow>
          (\<exists>cs'. fst (collectServices c cs w) = Inr cs'
             \<and> (RServices, Meta service) \<notin> set (attached cs'))))
   \<and> (ListServices (client c) (ConfigNamespace (config c)) (store w)
       = (Inr (services1 @ service # services2), s')
     \<and> getOwnerUID (Meta service) = Some uid
     \<and> fold collectService services1 cs = pre @ (k, ssc) # rest
     \<and> map_of (StackContainers ssc) uid \<noteq> None
     \<and> \<not> ownedDirectly uid pre \<and> \<not> ownedViaDeployment uid pre \<longrightarrow>
     collectServices c cs w
       = (Inr (fold collectService services2
                 (pre @ (k, ssc\<lparr>StackContainers :=
                            AList.map_entry uid (setResources (\<lambda>r. r\<lparr>Service := Some service\<rparr>))
                              (StackContainers ssc)\<rparr>) # rest)),
          w\<lparr>store := s',
            calls := calls w @ [Call VList RServices (ConfigNamespace (config c)) []]\<rparr>))
   \<and> (ListHPAs (client c) (ConfigNamespace (config c)) (store w) = (Inr hpas, s') \<longrightarrow>
     collectHPAs c cs w
       = (Inr (fold collectHPA hpas cs),
          w\<lparr>store := s',
            calls := calls w @ [Call VList RHorizontalPodAutoscalers (ConfigNamespace (config c)) []]\<rparr>))
   \<and> (ListHPAs (client c) (ConfigNamespace (config c)) (store w) = (Inl err, s') \<longrightarrow>
     collectHPAs c cs w
       = (Inl (Failure (''failed to list HPAs: '' @ Error err)),
          w\<lparr>store := s',
            calls := calls w @ [Call VList RHorizontalPodAutoscalers (ConfigNamespace (config c)) []]\<rparr>))
   \<and> (ListHPAs (client c) (ConfigNamespace (config c)) (store w)
       = (Inr (hpas1 @ hpa # hpas2), s')
     \<and> getOwnerUID (Meta hpa) = Some uid
     \<and> \<not> ownedDirectly uid cs \<and> ownedViaDeployment uid cs \<longrightarrow>
     (\<exists>mid. attachesAt (setResources (\<lambda>r. r\<lparr>HPA := Some hpa\<rparr>)) (deploymentHasUID uid)
              (fold collectHPA hpas1 cs) mid
        \<and> collectHPAs c cs w
            = (Inr (fold collectHPA hpas2 mid),
               w\<lparr>store := s',
                 calls := calls w @ [Call VList RHorizontalPodAutoscalers (ConfigNamespace (config c)) []]\<rparr>))
     \<and> (\<exists>cs'. fst (collectHPAs c cs w) = Inr cs'
          \<and> (\<exists>p \<in> set cs'. \<exists>q \<in> set (StackContainers (snd p)).
                deploymentHasUID uid (snd q)
                \<and> HPA (Resources (snd q)) \<in> Some ` set (hpa # hpas2))))
   \<and> (ListHPAs (client c) (ConfigNamespace (config c)) (store w)
       = (Inr (hpas1 @ hpa # hpas2), s')
     \<and> getOwnerUID (Meta hpa) = Some uid
     \<and> \<not> ownedDirectly uid cs \<and> \<not> ownedViaDeployment uid cs \<longrightarrow>
     collectHPAs c cs w
       = (Inr (fold collectHPA hpas2 (fold collectHPA hpas1 cs)),
          w\<lparr>store := s',
            calls := calls w @ [Call VList RHorizontalPodAutoscalers (ConfigNamespace (config c)) []]\<rparr>)
     \<and> ((RHorizontalPodAutoscalers, Meta hpa) \<notin> set (attached cs) \<longrightarrow>
          (\<exists>cs'. fst (collectHPAs c cs w) = Inr cs'
             \<and> (RHorizontalPodAutoscalers, Meta hpa) \<notin> set (attached cs'))))
   \<and> (ListHPAs (client c) (ConfigNamespace (config c)) (store w)
       = (Inr (hpas1 @ hpa # hpas2), s')
     \<and> getOwnerUID (Meta hpa) = Some uid
     \<and> fold collectHPA hpas1 cs = pre @ (k, ssc) # rest
     \<and> map_of (StackContainers ssc) uid \<noteq> None
     \<and> \<not> ownedDirectly uid pre \<and> \<not> ownedViaDeployment uid pre \<longrightarrow>
     collectHPAs c cs w
       = (Inr (fold collectHPA hpas2
                 (pre @ (k, ssc\<lparr>StackContainers :=
                            AList.map_entry uid (setResources (\<lambda>r. r\<lparr>HPA := Some hpa\<rparr>))
                              (StackContainers ssc)\<rparr>) # rest)),
          w\<lparr>store := s',
            calls := calls w @ [Call VList RHorizontalPodAutoscalers (ConfigNamespace (config c)) []]\<rparr>))"
  by (rule conjI[OF fallback_per_object])
     (intro conjI,
      (rule impI, erule collectServices_lists),
      (rule impI, erule collectServices_fails),
      rule collectServices_fallback,
      rule collectServices_neither,
      rule collectServices_direct,
      (rule impI, erule collectHPAs_lists),
      (rule impI, erule collectHPAs_fails),
      rule collectHPAs_fallback,
      rule collectHPAs_neither,
      rule collectHPAs_direct)

lemma deployed_facts:
  "\<not> ownedDirectly ''uid-dep-1'' (deployedIndex (emptyResources\<lparr>Deployment := Some shopDeployment\<rparr>))"
  "ownedViaDeployment ''uid-dep-1'' (deployedIndex (emptyResources\<lparr>Deployment := Some shopDeployment\<rparr>))"
  "\<not> ownedDirectly ''uid-nobody'' (deployedIndex (emptyResources\<lparr>Deployment := Some shopDeployment\<rparr>))"
  "\<not> ownedViaDeployment ''uid-nobody'' (deployedIndex (emptyResources\<lparr>Deployment := Some shopDeployment\<rparr>))"
  by (simp_all add: ownedDirectly_def ownedViaDeployment_def deployedIndex_def deploymentHasUID_def
      demo_names)

text \<open>
  The service that the deployment owns goes to the stack of that deployment, the service of
  an unknown owner goes nowhere, and the autoscaler that the stack owns goes to the stack:
  for one object at a time, and for \<open>collectServices\<close> and \<open>collectHPAs\<close> in a cluster
  that lists both services and the autoscaler of the stack.
\<close>
theorem deployment_fallback_witness:
  "getOwnerUID (Meta legacyService) = Some ''uid-dep-1''
   \<and> getOwnerUID (Meta strayService) = Some ''uid-nobody''
   \<and> \<not> ownedDirectly ''uid-dep-1'' (deployedIndex (emptyResources\<lparr>Deployment := Some shopDeployment\<rparr>))
   \<and> ownedViaDeployment ''uid-dep-1'' (deployedIndex (emptyResources\<lparr>Deployment := Some shopDeployment\<rparr>))
   \<and> attachesAt (setResources (\<lambda>r. r\<lparr>Service := Some legacyService\<rparr>)) (deploymentHasUID ''uid-dep-1'')
        (deployedIndex (emptyResources\<lparr>Deployment := Some shopDeployment\<rparr>))
        (collectService legacyService (deployedIndex (emptyResources\<lparr>Deployment := Some shopDeployment\<rparr>)))
   \<and> collectService legacyService (deployedIndex (emptyResources\<lparr>Deployment := Some shopDeployment\<rparr>))
       = deployedIndex (emptyResources\<lparr>Deployment := Some shopDeployment, Service := Some legacyService\<rparr>)
   \<and> collectService strayService (deployedIndex (emptyResources\<lparr>Deployment := Some shopDeployment\<rparr>))
       = deployedIndex (emptyResources\<lparr>Deployment := Some shopDeployment\<rparr>)
   \<and> collectHPA legacyHPA (deployedIndex (emptyResources\<lparr>Deployment := Some shopDeployment\<rparr>))
       = deployedIndex (emptyResources\<lparr>Deployment := Some shopDeployment, HPA := Some legacyHPA\<rparr>)
   \<and> ListServices (client busyController) (ConfigNamespace (config busyController)) (store emptyWorld)
       = (Inr [strayService, legacyService], 1)
   \<and> collectServices busyController
        (deployedIndex (emptyResources\<lparr>Deployment := Some shopDeployment\<rparr>)) emptyWorld
       = (Inr (deployedIndex
                 (emptyResources\<lparr>Deployment := Some shopDeployment, Service := Some legacyService\<rparr>)),
          emptyWorld\<lparr>store := 1, calls := [Call VList RServices ''default'' []]\<rparr>)
   \<and> ListHPAs (client busyController) (ConfigNamespace (config busyController)) (store emptyWorld)
       = (Inr [shopHPA], 1)
   \<and> getOwnerUID (Meta shopHPA) = Some ''uid-shop-v1''
   \<and> collectHPAs busyController
        (deployedIndex (emptyResources\<lparr>Deployment := Some shopDeployment\<rparr>)) emptyWorld
       = (Inr (deployedIndex
                 (emptyResources\<lparr>Deployment := Some shopDeployment, HPA := Some shopHPA\<rparr>)),
          emptyWorld\<lparr>store := 1, calls := [Call VList RHorizontalPodAutoscalers ''default'' []]\<rparr>)"
proof -
  let ?I = "deployedIndex (emptyResources\<lparr>Deployment := Some shopDeployment\<rparr>)"
  let ?ssc = "(NewContainer blueSet SimpleTrafficReconciler ''weights'' [] [])
         \<lparr>StackContainers :=
            [(''uid-shop-v1'',
              \<lparr>Stack = shopStack, PendingRemoval = False,
                 Resources = emptyResources\<lparr>Deployment := Some shopDeployment\<rparr>\<rparr>)]\<rparr>"
  note th = deployment_fallback [THEN conjunct1, of legacyService "''uid-dep-1''" ?I _ "[]" _ _ legacyHPA]
  note th2 = deployment_fallback [THEN conjunct1, of strayService "''uid-nobody''" ?I _ "[]" _ _ legacyHPA]
  have h: "getOwnerUID (Meta legacyHPA) = Some ''uid-dep-1''"
    by (simp add: getOwnerUID_def legacyHPA_def object_def meta_def)
  have a: "attachesAt (setResources (\<lambda>r. r\<lparr>Service := Some legacyService\<rparr>))
             (deploymentHasUID ''uid-dep-1'') ?I (collectService legacyService ?I)"
    using th demo_owners deployed_facts by blast
  have b: "collectService strayService ?I = ?I"
    using th2 demo_owners deployed_facts by blast
  have c: "collectService legacyService ?I
       = deployedIndex (emptyResources\<lparr>Deployment := Some shopDeployment, Service := Some legacyService\<rparr>)"
    by (simp add: collectService_def demo_owners deployedIndex_def deploymentHasUID_def demo_names
        setResources_def)
  have d: "collectHPA legacyHPA ?I
       = deployedIndex (emptyResources\<lparr>Deployment := Some shopDeployment, HPA := Some legacyHPA\<rparr>)"
    by (simp add: collectHPA_def h deployedIndex_def deploymentHasUID_def demo_names
        setResources_def)
  have ls: "ListServices (client busyController) (ConfigNamespace (config busyController))
              (store emptyWorld) = (Inr [strayService, legacyService], 1)"
    by (simp add: busy_fields busy_lists emptyWorld_def)
  have lh: "ListHPAs (client busyController) (ConfigNamespace (config busyController))
              (store emptyWorld) = (Inr [shopHPA], 1)"
    by (simp add: busy_fields busy_lists emptyWorld_def)
  have ps: "ListServices (client busyController) (ConfigNamespace (config busyController))
              (store emptyWorld) = (Inr ([] @ strayService # [legacyService]), 1)
            \<and> getOwnerUID (Meta strayService) = Some ''uid-nobody''
            \<and> \<not> ownedDirectly ''uid-nobody'' ?I \<and> \<not> ownedViaDeployment ''uid-nobody'' ?I"
    using ls demo_owners deployed_facts by simp
  have "collectServices busyController ?I emptyWorld
          = (Inr (fold collectService [legacyService] (fold collectService [] ?I)),
             emptyWorld\<lparr>store := 1,
               calls := calls emptyWorld
                 @ [Call VList RServices (ConfigNamespace (config busyController)) []]\<rparr>)"
    by (rule mp[OF deployment_fallback [THEN conjunct2, THEN conjunct2, THEN conjunct2,
          THEN conjunct2, THEN conjunct1,
          of busyController emptyWorld "[]" strayService "[legacyService]" 1 "''uid-nobody''" ?I]
          ps, THEN conjunct1])
  then have e: "collectServices busyController ?I emptyWorld
       = (Inr (deployedIndex
                 (emptyResources\<lparr>Deployment := Some shopDeployment, Service := Some legacyService\<rparr>)),
          emptyWorld\<lparr>store := 1, calls := [Call VList RServices ''default'' []]\<rparr>)"
    using c by (simp add: busy_fields demoConfig_def emptyWorld_def)
  have ph: "ListHPAs (client busyController) (ConfigNamespace (config busyController))
              (store emptyWorld) = (Inr ([] @ shopHPA # []), 1)
            \<and> getOwnerUID (Meta shopHPA) = Some ''uid-shop-v1''
            \<and> fold collectHPA [] ?I = [] @ (''uid-shop'', ?ssc) # []
            \<and> map_of (StackContainers ?ssc) ''uid-shop-v1'' \<noteq> None
            \<and> \<not> ownedDirectly ''uid-shop-v1'' [] \<and> \<not> ownedViaDeployment ''uid-shop-v1'' []"
    using lh demo_owners
    by (simp add: deployedIndex_def ownedDirectly_def ownedViaDeployment_def)
  have "collectHPAs busyController ?I emptyWorld
          = (Inr (fold collectHPA []
                    ([] @ (''uid-shop'',
                           ?ssc\<lparr>StackContainers :=
                                  AList.map_entry ''uid-shop-v1''
                                    (setResources (\<lambda>r. r\<lparr>HPA := Some shopHPA\<rparr>))
                                    (StackContainers ?ssc)\<rparr>) # [])),
             emptyWorld\<lparr>store := 1,
               calls := calls emptyWorld
                 @ [Call VList RHorizontalPodAutoscalers (ConfigNamespace (config busyController)) []]\<rparr>)"
    by (rule mp[OF deployment_fallback [THEN conjunct2, THEN conjunct2, THEN conjunct2,
          THEN conjunct2, THEN conjunct2, THEN conjunct2, THEN conjunct2, THEN conjunct2,
          THEN conjunct2, THEN conjunct2,
          of busyController emptyWorld "[]" shopHPA "[]" 1 "''uid-shop-v1''" ?I "[]"
            "''uid-shop''" ?ssc "[]"]
          ph])
  then have f: "collectHPAs busyController ?I emptyWorld
       = (Inr (deployedIndex
                 (emptyResources\<lparr>Deployment := Some shopDeployment, HPA := Some shopHPA\<rparr>)),
          emptyWorld\<lparr>store := 1, calls := [Call VList RHorizontalPodAutoscalers ''default'' []]\<rparr>)"
    by (simp add: busy_fields demoConfig_def emptyWorld_def deployedIndex_def setResources_def)
  show ?thesis using a b c d e f ls lh demo_owners deployed_facts by simp
qed








lemma retryUpdateLoop_final:
  assumes "retryUpdateLoop f r s = Some y"
  shows "\<exists>r0 s0. f r0 s0 = y \<and> (\<forall>err. fst y = Some err \<longrightarrow> \<not> IsConflict err)
             \<and> ((r0 = r \<and> s0 = s) \<or> r0)"
proof (rule retryUpdateLoop.raw_induct
    [where P = "\<lambda>f r s y. \<exists>r0 s0. f r0 s0 = y \<and> (\<forall>err. fst y = Some err \<longrightarrow> \<not> IsConflict err)
                   \<and> ((r0 = r \<and> s0 = s) \<or> r0)", OF _ assms])
  fix loop :: "(bool \<Rightarrow> 'a \<Rightarrow> error option \<times> 'a) \<Rightarrow> bool \<Rightarrow> 'a \<Rightarrow> (error option \<times> 'a) option"
    and f r s y
  assume IH: "\<And>f r s y. loop f r s = Some y \<Longrightarrow>
                \<exists>r0 s0. f r0 s0 = y \<and> (\<forall>err. fst y = Some err \<longrightarrow> \<not> IsConflict err)
                   \<and> ((r0 = r \<and> s0 = s) \<or> r0)"
    and body: "(case f r s of
                  (None, s') \<Rightarrow> Some (None, s')
                | (Some err, s') \<Rightarrow>
                    if IsConflict err then loop f True s' else Some (Some err, s')) = Some y"
  obtain res s1 where step: "f r s = (res, s1)" by (cases "f r s")
  show "\<exists>r0 s0. f r0 s0 = y \<and> (\<forall>err. fst y = Some err \<longrightarrow> \<not> IsConflict err)
           \<and> ((r0 = r \<and> s0 = s) \<or> r0)"
  proof (cases res)
    case None
    then have "y = (None, s1)" using body step by simp
    then have "f r s = y \<and> (\<forall>err. fst y = Some err \<longrightarrow> \<not> IsConflict err)
                 \<and> ((r = r \<and> s = s) \<or> r)"
      using step None by simp
    then show ?thesis by blast
  next
    case (Some err)
    show ?thesis
    proof (cases "IsConflict err")
      case True
      then have "loop f True s1 = Some y" using body step Some by simp
      from IH[OF this] show ?thesis by blast
    next
      case False
      then have "y = (Some err, s1)" using body step Some by simp
      then have "f r s = y \<and> (\<forall>err. fst y = Some err \<longrightarrow> \<not> IsConflict err)
                   \<and> ((r = r \<and> s = s) \<or> r)"
        using step Some False by simp
      then show ?thesis by blast
    qed
  qed
qed

lemma retryUpdateLoop_steps:
  "f r s = (None, s1) \<Longrightarrow> retryUpdateLoop f r s = Some (None, s1)"
  "f r s = (Some err, s1) \<Longrightarrow> \<not> IsConflict err \<Longrightarrow> retryUpdateLoop f r s = Some (Some err, s1)"
  "f r s = (Some err, s1) \<Longrightarrow> IsConflict err \<Longrightarrow> retryUpdateLoop f r s = retryUpdateLoop f True s1"
  by (subst retryUpdateLoop.simps, simp)+

lemma updateStackStatusFn_cases:
  assumes "updateStackStatusFn c sc status retry (stack, w) = (res, (stack', w'))"
  shows "(retry \<and> res \<noteq> None \<and> stack' = stack
            \<and> calls w' = calls w @ [Call VGet RStacks (scNamespace sc) (Name (Meta stack))])
         \<or> (res = None \<and> DeepEqualStackStatus (equality c) status (Status stack')
            \<and> (\<not> retry \<longrightarrow> stack' = stack \<and> w' = w)
            \<and> (retry \<longrightarrow> calls w' = calls w @ [Call VGet RStacks (scNamespace sc) (Name (Meta stack))]))
         \<or> (\<exists>stack1. \<not> DeepEqualStackStatus (equality c) status (Status stack1)
              \<and> stack' = stack1\<lparr>Status := status\<rparr> \<and> (\<not> retry \<longrightarrow> stack1 = stack)
              \<and> calls w' = calls w
                   @ (if retry then [Call VGet RStacks (scNamespace sc) (Name (Meta stack))] else [])
                   @ [Call VUpdateStatus RStacks (scNamespace sc) (Name (Meta stack'))])"
  using assms
  by (cases retry)
     (auto simp: updateStackStatusFn_def invoke_def split: prod.splits sum.splits if_splits)

lemma updateStackSetStatusFn_cases:
  assumes "updateStackSetStatusFn c ssc status retry (stackset, w) = (res, (stackset', w'))"
  shows "(retry \<and> res \<noteq> None \<and> stackset' = stackset
            \<and> calls w' = calls w @ [Call VGet RStackSets (Namespace (Meta (StackSet ssc)))
                                      (Name (Meta (StackSet ssc)))])
         \<or> (res = None \<and> DeepEqualStackSetStatus (equality c) status (Status stackset')
            \<and> (\<not> retry \<longrightarrow> stackset' = stackset \<and> w' = w)
            \<and> (retry \<longrightarrow> calls w' = calls w @ [Call VGet RStackSets (Namespace (Meta (StackSet ssc)))
                                                   (Name (Meta (StackSet ssc)))]))
         \<or> (\<exists>stackset1. \<not> DeepEqualStackSetStatus (equality c) status (Status stackset1)
              \<and> stackset' = stackset1\<lparr>Status := status\<rparr> \<and> (\<not> retry \<longrightarrow> stackset1 = stackset)
              \<and> calls w' = calls w
                   @ (if retry then [Call VGet RStackSets (Namespace (Meta (StackSet ssc)))
                                       (Name (Meta (StackSet ssc)))] else [])
                   @ [Call VUpdateStatus RStackSets (Namespace (Meta (StackSet ssc)))
                        (Name (Meta stackset'))])"
  using assms
  by (cases retry)
     (auto simp: updateStackSetStatusFn_def invoke_def split: prod.splits sum.splits if_splits)

lemma turns_and_loop:

  "(updateStackStatusFn c sc status retry (stack, w) = (res, (stack', w')) \<longrightarrow>
      (retry \<and> res \<noteq> None \<and> stack' = stack
         \<and> calls w' = calls w @ [Call VGet RStacks (scNamespace sc) (Name (Meta stack))])
      \<or> (res = None \<and> DeepEqualStackStatus (equality c) status (Status stack')
         \<and> (\<not> retry \<longrightarrow> stack' = stack \<and> w' = w)
         \<and> (retry \<longrightarrow> calls w' = calls w @ [Call VGet RStacks (scNamespace sc) (Name (Meta stack))]))
      \<or> (\<exists>stack1. \<not> DeepEqualStackStatus (equality c) status (Status stack1)
           \<and> stack' = stack1\<lparr>Status := status\<rparr> \<and> (\<not> retry \<longrightarrow> stack1 = stack)
           \<and> calls w' = calls w
                @ (if retry then [Call VGet RStacks (scNamespace sc) (Name (Meta stack))] else [])
                @ [Call VUpdateStatus RStacks (scNamespace sc) (Name (Meta stack'))]))
   \<and> (updateStackSetStatusFn c ssc sstatus retry (stackset, w) = (sres, (stackset', w'')) \<longrightarrow>
      (retry \<and> sres \<noteq> None \<and> stackset' = stackset
         \<and> calls w'' = calls w @ [Call VGet RStackSets (Namespace (Meta (StackSet ssc)))
                                    (Name (Meta (StackSet ssc)))])
      \<or> (sres = None \<and> DeepEqualStackSetStatus (equality c) sstatus (Status stackset')
         \<and> (\<not> retry \<longrightarrow> stackset' = stackset \<and> w'' = w)
         \<and> (retry \<longrightarrow> calls w'' = calls w @ [Call VGet RStackSets (Namespace (Meta (StackSet ssc)))
                                                 (Name (Meta (StackSet ssc)))]))
      \<or> (\<exists>stackset1. \<not> DeepEqualStackSetStatus (equality c) sstatus (Status stackset1)
           \<and> stackset' = stackset1\<lparr>Status := sstatus\<rparr> \<and> (\<not> retry \<longrightarrow> stackset1 = stackset)
           \<and> calls w'' = calls w
                @ (if retry then [Call VGet RStackSets (Namespace (Meta (StackSet ssc)))
                                    (Name (Meta (StackSet ssc)))] else [])
                @ [Call VUpdateStatus RStackSets (Namespace (Meta (StackSet ssc)))
                     (Name (Meta stackset'))]))
   \<and> (f r s = (Some err, s1) \<and> IsConflict err \<longrightarrow>
        retryUpdateLoop f r s = retryUpdateLoop f True s1)
   \<and> (f r s = (Some err, s1) \<and> \<not> IsConflict err \<longrightarrow>
        retryUpdateLoop f r s = Some (Some err, s1))
   \<and> (f r s = (None, s1) \<longrightarrow> retryUpdateLoop f r s = Some (None, s1))
   \<and> (retryUpdate (updateStackStatusFn c sc status) (stack, w) = Some (res, (stack', w')) \<longrightarrow>
        (\<exists>e. res = Some e \<and> \<not> IsConflict e)
        \<or> (res = None \<and> DeepEqualStackStatus (equality c) status (Status stack')
             \<and> (w' = w \<or> (\<exists>name. last (calls w') = Call VGet RStacks (scNamespace sc) name)))
        \<or> (res = None \<and> Status stack' = status
             \<and> (\<exists>name. last (calls w') = Call VUpdateStatus RStacks (scNamespace sc) name)))
   \<and> (retryUpdate (updateStackSetStatusFn c ssc sstatus) (stackset, w)
          = Some (sres, (stackset', w'')) \<longrightarrow>
        (\<exists>e. sres = Some e \<and> \<not> IsConflict e)
        \<or> (sres = None \<and> DeepEqualStackSetStatus (equality c) sstatus (Status stackset')
             \<and> (w'' = w \<or> (\<exists>name. last (calls w'')
                                = Call VGet RStackSets (Namespace (Meta (StackSet ssc))) name)))
        \<or> (sres = None \<and> Status stackset' = sstatus
             \<and> (\<exists>name. last (calls w'')
                   = Call VUpdateStatus RStackSets (Namespace (Meta (StackSet ssc))) name)))"
proof (intro conjI impI)
  assume "updateStackStatusFn c sc status retry (stack, w) = (res, (stack', w'))"
  then show "(retry \<and> res \<noteq> None \<and> stack' = stack
         \<and> calls w' = calls w @ [Call VGet RStacks (scNamespace sc) (Name (Meta stack))])
      \<or> (res = None \<and> DeepEqualStackStatus (equality c) status (Status stack')
         \<and> (\<not> retry \<longrightarrow> stack' = stack \<and> w' = w)
         \<and> (retry \<longrightarrow> calls w' = calls w @ [Call VGet RStacks (scNamespace sc) (Name (Meta stack))]))
      \<or> (\<exists>stack1. \<not> DeepEqualStackStatus (equality c) status (Status stack1)
           \<and> stack' = stack1\<lparr>Status := status\<rparr> \<and> (\<not> retry \<longrightarrow> stack1 = stack)
           \<and> calls w' = calls w
                @ (if retry then [Call VGet RStacks (scNamespace sc) (Name (Meta stack))] else [])
                @ [Call VUpdateStatus RStacks (scNamespace sc) (Name (Meta stack'))])"
    by (rule updateStackStatusFn_cases)
next
  assume "updateStackSetStatusFn c ssc sstatus retry (stackset, w) = (sres, (stackset', w''))"
  then show "(retry \<and> sres \<noteq> None \<and> stackset' = stackset
         \<and> calls w'' = calls w @ [Call VGet RStackSets (Namespace (Meta (StackSet ssc)))
                                    (Name (Meta (StackSet ssc)))])
      \<or> (sres = None \<and> DeepEqualStackSetStatus (equality c) sstatus (Status stackset')
         \<and> (\<not> retry \<longrightarrow> stackset' = stackset \<and> w'' = w)
         \<and> (retry \<longrightarrow> calls w'' = calls w @ [Call VGet RStackSets (Namespace (Meta (StackSet ssc)))
                                                 (Name (Meta (StackSet ssc)))]))
      \<or> (\<exists>stackset1. \<not> DeepEqualStackSetStatus (equality c) sstatus (Status stackset1)
           \<and> stackset' = stackset1\<lparr>Status := sstatus\<rparr> \<and> (\<not> retry \<longrightarrow> stackset1 = stackset)
           \<and> calls w'' = calls w
                @ (if retry then [Call VGet RStackSets (Namespace (Meta (StackSet ssc)))
                                    (Name (Meta (StackSet ssc)))] else [])
                @ [Call VUpdateStatus RStackSets (Namespace (Meta (StackSet ssc)))
                     (Name (Meta stackset'))])"
    by (rule updateStackSetStatusFn_cases)
next
  assume "f r s = (Some err, s1) \<and> IsConflict err"
  then show "retryUpdateLoop f r s = retryUpdateLoop f True s1"
    by (simp add: retryUpdateLoop_steps(3))
next
  assume "f r s = (Some err, s1) \<and> \<not> IsConflict err"
  then show "retryUpdateLoop f r s = Some (Some err, s1)"
    by (simp add: retryUpdateLoop_steps(2))
next
  assume "f r s = (None, s1)"
  then show "retryUpdateLoop f r s = Some (None, s1)"
    by (rule retryUpdateLoop_steps(1))
next
  assume run: "retryUpdate (updateStackStatusFn c sc status) (stack, w) = Some (res, (stack', w'))"
  from retryUpdateLoop_final[OF run[unfolded retryUpdate_def]]
  obtain r0 stack0 w0 where
    last: "updateStackStatusFn c sc status r0 (stack0, w0) = (res, (stack', w'))"
    and nc: "\<forall>e. res = Some e \<longrightarrow> \<not> IsConflict e"
    and first: "(r0 = False \<and> (stack0, w0) = (stack, w)) \<or> r0"
    by auto
  show "(\<exists>e. res = Some e \<and> \<not> IsConflict e)
        \<or> (res = None \<and> DeepEqualStackStatus (equality c) status (Status stack')
             \<and> (w' = w \<or> (\<exists>name. last (calls w') = Call VGet RStacks (scNamespace sc) name)))
        \<or> (res = None \<and> Status stack' = status
             \<and> (\<exists>name. last (calls w') = Call VUpdateStatus RStacks (scNamespace sc) name))"
  proof (cases res)
    case (Some e)
    then show ?thesis using nc by simp
  next
    case None
    then show ?thesis using updateStackStatusFn_cases[OF last] first by auto
  qed
next
  assume run: "retryUpdate (updateStackSetStatusFn c ssc sstatus) (stackset, w)
                 = Some (sres, (stackset', w''))"
  from retryUpdateLoop_final[OF run[unfolded retryUpdate_def]]
  obtain r0 stackset0 w0 where
    last: "updateStackSetStatusFn c ssc sstatus r0 (stackset0, w0) = (sres, (stackset', w''))"
    and nc: "\<forall>e. sres = Some e \<longrightarrow> \<not> IsConflict e"
    and first: "(r0 = False \<and> (stackset0, w0) = (stackset, w)) \<or> r0"
    by auto
  show "(\<exists>e. sres = Some e \<and> \<not> IsConflict e)
        \<or> (sres = None \<and> DeepEqualStackSetStatus (equality c) sstatus (Status stackset')
             \<and> (w'' = w \<or> (\<exists>name. last (calls w'')
                                = Call VGet RStackSets (Namespace (Meta (StackSet ssc))) name)))
        \<or> (sres = None \<and> Status stackset' = sstatus
             \<and> (\<exists>name. last (calls w'')
                   = Call VUpdateStatus RStackSets (Namespace (Meta (StackSet ssc))) name))"
  proof (cases sres)
    case (Some e)
    then show ?thesis using nc by simp
  next
    case None
    then show ?thesis using updateStackSetStatusFn_cases[OF last] first by auto
  qed
qed

lemma stack_turn_sync:
  "DeepEqualStackStatus (equality c) status (Status stack) \<Longrightarrow>
     updateStackStatusFn c sc status False (stack, w) = (None, (stack, w))"
  by (simp add: updateStackStatusFn_def)

lemma stack_turn_write:
  assumes "\<not> DeepEqualStackStatus (equality c) status (Status stack)"
    and "UpdateStackStatus (client c) (scNamespace sc) (stack\<lparr>Status := status\<rparr>) (store w) = (r, s1)"
  shows "updateStackStatusFn c sc status False (stack, w)
           = ((case r of Inl e \<Rightarrow> Some e | Inr x \<Rightarrow> None),
              (stack\<lparr>Status := status\<rparr>,
               w\<lparr>store := s1,
                 calls := calls w @ [Call VUpdateStatus RStacks (scNamespace sc) (Name (Meta stack))]\<rparr>))"
  using assms by (cases r) (simp_all add: updateStackStatusFn_def invoke_def)

lemma stack_turn_retry:
  assumes "GetStack (client c) (scNamespace sc) (Name (Meta stack)) (store w) = (Inr fresh, s2)"
  shows "updateStackStatusFn c sc status True (stack, w)
           = updateStackStatusFn c sc status False
               (fresh, w\<lparr>store := s2,
                         calls := calls w @ [Call VGet RStacks (scNamespace sc) (Name (Meta stack))]\<rparr>)"
  using assms by (simp add: updateStackStatusFn_def invoke_def)

lemma stack_turn_lost:
  assumes "GetStack (client c) (scNamespace sc) (Name (Meta stack)) (store w) = (Inl e, s2)"
  shows "updateStackStatusFn c sc status True (stack, w)
           = (Some e, (stack, w\<lparr>store := s2,
                         calls := calls w @ [Call VGet RStacks (scNamespace sc) (Name (Meta stack))]\<rparr>))"
  using assms by (simp add: updateStackStatusFn_def invoke_def)

lemma stackset_turn_sync:
  "DeepEqualStackSetStatus (equality c) status (Status stackset) \<Longrightarrow>
     updateStackSetStatusFn c ssc status False (stackset, w) = (None, (stackset, w))"
  by (simp add: updateStackSetStatusFn_def)

lemma stackset_turn_write:
  assumes "\<not> DeepEqualStackSetStatus (equality c) status (Status stackset)"
    and "UpdateStackSetStatus (client c) (Namespace (Meta (StackSet ssc)))
           (stackset\<lparr>Status := status\<rparr>) (store w) = (r, s1)"
  shows "updateStackSetStatusFn c ssc status False (stackset, w)
           = ((case r of Inl e \<Rightarrow> Some e | Inr x \<Rightarrow> None),
              (stackset\<lparr>Status := status\<rparr>,
               w\<lparr>store := s1,
                 calls := calls w @ [Call VUpdateStatus RStackSets (Namespace (Meta (StackSet ssc)))
                                       (Name (Meta stackset))]\<rparr>))"
  using assms by (cases r) (simp_all add: updateStackSetStatusFn_def invoke_def)

lemma stackset_turn_retry:
  assumes "GetStackSet (client c) (Namespace (Meta (StackSet ssc))) (Name (Meta (StackSet ssc)))
             (store w) = (Inr fresh, s2)"
  shows "updateStackSetStatusFn c ssc status True (stackset, w)
           = updateStackSetStatusFn c ssc status False
               (fresh, w\<lparr>store := s2,
                         calls := calls w @ [Call VGet RStackSets (Namespace (Meta (StackSet ssc)))
                                               (Name (Meta (StackSet ssc)))]\<rparr>)"
  using assms by (simp add: updateStackSetStatusFn_def invoke_def)

lemma stackset_turn_lost:
  assumes "GetStackSet (client c) (Namespace (Meta (StackSet ssc))) (Name (Meta (StackSet ssc)))
             (store w) = (Inl e, s2)"
  shows "updateStackSetStatusFn c ssc status True (stackset, w)
           = (Some e, (stackset, w\<lparr>store := s2,
                         calls := calls w @ [Call VGet RStackSets (Namespace (Meta (StackSet ssc)))
                                               (Name (Meta (StackSet ssc)))]\<rparr>))"
  using assms by (simp add: updateStackSetStatusFn_def invoke_def)

text \<open>The runs of \<open>retryUpdate\<close> for one Stack, by what the API server answers.\<close>
lemma stack_run_sync:
  assumes "DeepEqualStackStatus (equality c) status (Status stack)"
  shows "retryUpdate (updateStackStatusFn c sc status) (stack, w) = Some (None, (stack, w))"
  unfolding retryUpdate_def
  using retryUpdateLoop_steps(1)[of "updateStackStatusFn c sc status" False "(stack, w)", OF stack_turn_sync[OF assms]]
  by simp

lemma stack_run_first:
  assumes "\<not> DeepEqualStackStatus (equality c) status (Status stack)"
    and "UpdateStackStatus (client c) (scNamespace sc) (stack\<lparr>Status := status\<rparr>) (store w) = (r, s1)"
    and "\<forall>e. r = Inl e \<longrightarrow> \<not> IsConflict e"
  shows "retryUpdate (updateStackStatusFn c sc status) (stack, w)
           = Some ((case r of Inl e \<Rightarrow> Some e | Inr x \<Rightarrow> None),
                   (stack\<lparr>Status := status\<rparr>,
                    w\<lparr>store := s1,
                      calls := calls w @ [Call VUpdateStatus RStacks (scNamespace sc) (Name (Meta stack))]\<rparr>))"
proof (cases r)
  case (Inl e)
  show ?thesis unfolding retryUpdate_def
    using retryUpdateLoop_steps(2)[of "updateStackStatusFn c sc status" False "(stack, w)",
        OF stack_turn_write[OF assms(1,2), unfolded Inl sum.case]]
      assms(3) Inl by simp
next
  case (Inr x)
  show ?thesis unfolding retryUpdate_def
    using retryUpdateLoop_steps(1)[of "updateStackStatusFn c sc status" False "(stack, w)",
        OF stack_turn_write[OF assms(1,2), unfolded Inr sum.case]] Inr
    by simp
qed

lemma stack_run_conflict:
  assumes "\<not> DeepEqualStackStatus (equality c) status (Status stack)"
    and "UpdateStackStatus (client c) (scNamespace sc) (stack\<lparr>Status := status\<rparr>) (store w) = (Inl e, s1)"
    and "IsConflict e"
  shows "retryUpdate (updateStackStatusFn c sc status) (stack, w)
           = retryUpdateLoop (updateStackStatusFn c sc status) True
               (stack\<lparr>Status := status\<rparr>,
                w\<lparr>store := s1,
                  calls := calls w @ [Call VUpdateStatus RStacks (scNamespace sc) (Name (Meta stack))]\<rparr>)"
  unfolding retryUpdate_def
  using retryUpdateLoop_steps(3)[of "updateStackStatusFn c sc status" False "(stack, w)",
      OF stack_turn_write[OF assms(1,2), unfolded sum.case] assms(3)]
  by simp

lemma stack_run_refetch:
  assumes "\<not> DeepEqualStackStatus (equality c) status (Status stack)"
    and "UpdateStackStatus (client c) (scNamespace sc) (stack\<lparr>Status := status\<rparr>) (store w) = (Inl e, s1)"
    and "IsConflict e"
    and "GetStack (client c) (scNamespace sc) (Name (Meta stack)) s1 = (Inr fresh, s2)"
    and "DeepEqualStackStatus (equality c) status (Status fresh)"
  shows "retryUpdate (updateStackStatusFn c sc status) (stack, w)
           = Some (None,
                   (fresh,
                    w\<lparr>store := s2,
                      calls := calls w
                        @ [Call VUpdateStatus RStacks (scNamespace sc) (Name (Meta stack)),
                           Call VGet RStacks (scNamespace sc) (Name (Meta stack))]\<rparr>))"
proof -
  let ?w1 = "w\<lparr>store := s1,
                calls := calls w @ [Call VUpdateStatus RStacks (scNamespace sc) (Name (Meta stack))]\<rparr>"
  have g: "GetStack (client c) (scNamespace sc) (Name (Meta (stack\<lparr>Status := status\<rparr>))) (store ?w1)
             = (Inr fresh, s2)"
    using assms(4) by simp
  have t: "updateStackStatusFn c sc status True (stack\<lparr>Status := status\<rparr>, ?w1)
          = (None, (fresh, w\<lparr>store := s2,
                      calls := calls w
                        @ [Call VUpdateStatus RStacks (scNamespace sc) (Name (Meta stack)),
                           Call VGet RStacks (scNamespace sc) (Name (Meta stack))]\<rparr>))"
    by (simp add: stack_turn_retry[OF g] stack_turn_sync[OF assms(5)])
  from retryUpdateLoop_steps(1)[of "updateStackStatusFn c sc status" True "(stack\<lparr>Status := status\<rparr>, ?w1)", OF t]
  show ?thesis
    by (simp add: stack_run_conflict[OF assms(1,2,3)])
qed

lemma stack_run_rewrite:
  assumes "\<not> DeepEqualStackStatus (equality c) status (Status stack)"
    and "UpdateStackStatus (client c) (scNamespace sc) (stack\<lparr>Status := status\<rparr>) (store w) = (Inl e, s1)"
    and "IsConflict e"
    and "GetStack (client c) (scNamespace sc) (Name (Meta stack)) s1 = (Inr fresh, s2)"
    and "\<not> DeepEqualStackStatus (equality c) status (Status fresh)"
    and "UpdateStackStatus (client c) (scNamespace sc) (fresh\<lparr>Status := status\<rparr>) s2 = (Inr x, s3)"
  shows "retryUpdate (updateStackStatusFn c sc status) (stack, w)
           = Some (None,
                   (fresh\<lparr>Status := status\<rparr>,
                    w\<lparr>store := s3,
                      calls := calls w
                        @ [Call VUpdateStatus RStacks (scNamespace sc) (Name (Meta stack)),
                           Call VGet RStacks (scNamespace sc) (Name (Meta stack)),
                           Call VUpdateStatus RStacks (scNamespace sc) (Name (Meta fresh))]\<rparr>))"
proof -
  let ?w1 = "w\<lparr>store := s1,
                calls := calls w @ [Call VUpdateStatus RStacks (scNamespace sc) (Name (Meta stack))]\<rparr>"
  let ?w2 = "?w1\<lparr>store := s2,
                calls := calls ?w1 @ [Call VGet RStacks (scNamespace sc)
                                        (Name (Meta (stack\<lparr>Status := status\<rparr>)))]\<rparr>"
  have g: "GetStack (client c) (scNamespace sc) (Name (Meta (stack\<lparr>Status := status\<rparr>))) (store ?w1)
             = (Inr fresh, s2)"
    using assms(4) by simp
  have u: "UpdateStackStatus (client c) (scNamespace sc) (fresh\<lparr>Status := status\<rparr>) (store ?w2)
             = (Inr x, s3)"
    using assms(6) by simp
  have t: "updateStackStatusFn c sc status True (stack\<lparr>Status := status\<rparr>, ?w1)
          = (None, (fresh\<lparr>Status := status\<rparr>,
                    w\<lparr>store := s3,
                      calls := calls w
                        @ [Call VUpdateStatus RStacks (scNamespace sc) (Name (Meta stack)),
                           Call VGet RStacks (scNamespace sc) (Name (Meta stack)),
                           Call VUpdateStatus RStacks (scNamespace sc) (Name (Meta fresh))]\<rparr>))"
    unfolding stack_turn_retry[OF g] stack_turn_write[OF assms(5) u] by simp
  from retryUpdateLoop_steps(1)[of "updateStackStatusFn c sc status" True "(stack\<lparr>Status := status\<rparr>, ?w1)", OF t]
  show ?thesis
    by (simp add: stack_run_conflict[OF assms(1,2,3)])
qed

lemma stackset_run_sync:
  assumes "DeepEqualStackSetStatus (equality c) status (Status stackset)"
  shows "retryUpdate (updateStackSetStatusFn c ssc status) (stackset, w) = Some (None, (stackset, w))"
  unfolding retryUpdate_def
  using retryUpdateLoop_steps(1)[of "updateStackSetStatusFn c ssc status" False "(stackset, w)", OF stackset_turn_sync[OF assms]]
  by simp

lemma stackset_run_first:
  assumes "\<not> DeepEqualStackSetStatus (equality c) status (Status stackset)"
    and "UpdateStackSetStatus (client c) (Namespace (Meta (StackSet ssc)))
           (stackset\<lparr>Status := status\<rparr>) (store w) = (r, s1)"
    and "\<forall>e. r = Inl e \<longrightarrow> \<not> IsConflict e"
  shows "retryUpdate (updateStackSetStatusFn c ssc status) (stackset, w)
           = Some ((case r of Inl e \<Rightarrow> Some e | Inr x \<Rightarrow> None),
                   (stackset\<lparr>Status := status\<rparr>,
                    w\<lparr>store := s1,
                      calls := calls w @ [Call VUpdateStatus RStackSets (Namespace (Meta (StackSet ssc)))
                                            (Name (Meta stackset))]\<rparr>))"
proof (cases r)
  case (Inl e)
  show ?thesis unfolding retryUpdate_def
    using retryUpdateLoop_steps(2)[of "updateStackSetStatusFn c ssc status" False "(stackset, w)",
        OF stackset_turn_write[OF assms(1,2), unfolded Inl sum.case]]
      assms(3) Inl by simp
next
  case (Inr x)
  show ?thesis unfolding retryUpdate_def
    using retryUpdateLoop_steps(1)[of "updateStackSetStatusFn c ssc status" False "(stackset, w)",
        OF stackset_turn_write[OF assms(1,2), unfolded Inr sum.case]] Inr
    by simp
qed

lemma stackset_run_conflict:
  assumes "\<not> DeepEqualStackSetStatus (equality c) status (Status stackset)"
    and "UpdateStackSetStatus (client c) (Namespace (Meta (StackSet ssc)))
           (stackset\<lparr>Status := status\<rparr>) (store w) = (Inl e, s1)"
    and "IsConflict e"
  shows "retryUpdate (updateStackSetStatusFn c ssc status) (stackset, w)
           = retryUpdateLoop (updateStackSetStatusFn c ssc status) True
               (stackset\<lparr>Status := status\<rparr>,
                w\<lparr>store := s1,
                  calls := calls w @ [Call VUpdateStatus RStackSets (Namespace (Meta (StackSet ssc)))
                                        (Name (Meta stackset))]\<rparr>)"
  unfolding retryUpdate_def
  using retryUpdateLoop_steps(3)[of "updateStackSetStatusFn c ssc status" False "(stackset, w)",
      OF stackset_turn_write[OF assms(1,2), unfolded sum.case] assms(3)]
  by simp

lemma stackset_run_refetch:
  assumes "\<not> DeepEqualStackSetStatus (equality c) status (Status stackset)"
    and "UpdateStackSetStatus (client c) (Namespace (Meta (StackSet ssc)))
           (stackset\<lparr>Status := status\<rparr>) (store w) = (Inl e, s1)"
    and "IsConflict e"
    and "GetStackSet (client c) (Namespace (Meta (StackSet ssc))) (Name (Meta (StackSet ssc))) s1
           = (Inr fresh, s2)"
    and "DeepEqualStackSetStatus (equality c) status (Status fresh)"
  shows "retryUpdate (updateStackSetStatusFn c ssc status) (stackset, w)
           = Some (None,
                   (fresh,
                    w\<lparr>store := s2,
                      calls := calls w
                        @ [Call VUpdateStatus RStackSets (Namespace (Meta (StackSet ssc)))
                             (Name (Meta stackset)),
                           Call VGet RStackSets (Namespace (Meta (StackSet ssc)))
                             (Name (Meta (StackSet ssc)))]\<rparr>))"
proof -
  let ?w1 = "w\<lparr>store := s1,
                calls := calls w @ [Call VUpdateStatus RStackSets (Namespace (Meta (StackSet ssc)))
                                      (Name (Meta stackset))]\<rparr>"
  have g: "GetStackSet (client c) (Namespace (Meta (StackSet ssc))) (Name (Meta (StackSet ssc)))
             (store ?w1) = (Inr fresh, s2)"
    using assms(4) by simp
  have t: "updateStackSetStatusFn c ssc status True (stackset\<lparr>Status := status\<rparr>, ?w1)
          = (None, (fresh, w\<lparr>store := s2,
                      calls := calls w
                        @ [Call VUpdateStatus RStackSets (Namespace (Meta (StackSet ssc)))
                             (Name (Meta stackset)),
                           Call VGet RStackSets (Namespace (Meta (StackSet ssc)))
                             (Name (Meta (StackSet ssc)))]\<rparr>))"
    by (simp add: stackset_turn_retry[OF g] stackset_turn_sync[OF assms(5)])
  from retryUpdateLoop_steps(1)[of "updateStackSetStatusFn c ssc status" True "(stackset\<lparr>Status := status\<rparr>, ?w1)", OF t]
  show ?thesis
    by (simp add: stackset_run_conflict[OF assms(1,2,3)])
qed

lemma stackset_run_rewrite:
  assumes "\<not> DeepEqualStackSetStatus (equality c) status (Status stackset)"
    and "UpdateStackSetStatus (client c) (Namespace (Meta (StackSet ssc)))
           (stackset\<lparr>Status := status\<rparr>) (store w) = (Inl e, s1)"
    and "IsConflict e"
    and "GetStackSet (client c) (Namespace (Meta (StackSet ssc))) (Name (Meta (StackSet ssc))) s1
           = (Inr fresh, s2)"
    and "\<not> DeepEqualStackSetStatus (equality c) status (Status fresh)"
    and "UpdateStackSetStatus (client c) (Namespace (Meta (StackSet ssc)))
           (fresh\<lparr>Status := status\<rparr>) s2 = (Inr x, s3)"
  shows "retryUpdate (updateStackSetStatusFn c ssc status) (stackset, w)
           = Some (None,
                   (fresh\<lparr>Status := status\<rparr>,
                    w\<lparr>store := s3,
                      calls := calls w
                        @ [Call VUpdateStatus RStackSets (Namespace (Meta (StackSet ssc)))
                             (Name (Meta stackset)),
                           Call VGet RStackSets (Namespace (Meta (StackSet ssc)))
                             (Name (Meta (StackSet ssc))),
                           Call VUpdateStatus RStackSets (Namespace (Meta (StackSet ssc)))
                             (Name (Meta fresh))]\<rparr>))"
proof -
  let ?w1 = "w\<lparr>store := s1,
                calls := calls w @ [Call VUpdateStatus RStackSets (Namespace (Meta (StackSet ssc)))
                                      (Name (Meta stackset))]\<rparr>"
  let ?w2 = "?w1\<lparr>store := s2,
                calls := calls ?w1 @ [Call VGet RStackSets (Namespace (Meta (StackSet ssc)))
                                        (Name (Meta (StackSet ssc)))]\<rparr>"
  have g: "GetStackSet (client c) (Namespace (Meta (StackSet ssc))) (Name (Meta (StackSet ssc)))
             (store ?w1) = (Inr fresh, s2)"
    using assms(4) by simp
  have u: "UpdateStackSetStatus (client c) (Namespace (Meta (StackSet ssc)))
             (fresh\<lparr>Status := status\<rparr>) (store ?w2) = (Inr x, s3)"
    using assms(6) by simp
  have t: "updateStackSetStatusFn c ssc status True (stackset\<lparr>Status := status\<rparr>, ?w1)
          = (None, (fresh\<lparr>Status := status\<rparr>,
                    w\<lparr>store := s3,
                      calls := calls w
                        @ [Call VUpdateStatus RStackSets (Namespace (Meta (StackSet ssc)))
                             (Name (Meta stackset)),
                           Call VGet RStackSets (Namespace (Meta (StackSet ssc)))
                             (Name (Meta (StackSet ssc))),
                           Call VUpdateStatus RStackSets (Namespace (Meta (StackSet ssc)))
                             (Name (Meta fresh))]\<rparr>))"
    unfolding stackset_turn_retry[OF g] stackset_turn_write[OF assms(5) u] by simp
  from retryUpdateLoop_steps(1)[of "updateStackSetStatusFn c ssc status" True "(stackset\<lparr>Status := status\<rparr>, ?w1)", OF t]
  show ?thesis
    by (simp add: stackset_run_conflict[OF assms(1,2,3)])
qed

lemma stacks_in_sync:
  assumes "\<forall>p \<in> set scs.
             DeepEqualStackStatus (equality c) (GenerateStackStatus (core c) (snd p))
               (Status (Stack (snd p)))"
  shows "reconcileStackStatuses c scs w = Some (None, w)"
  using assms
proof (induction scs)
  case Nil
  then show ?case by simp
next
  case (Cons p scs)
  obtain k sc where p: "p = (k, sc)" by (cases p)
  show ?case using Cons by (simp add: p stack_run_sync)
qed

lemma stacks_error:
  assumes "reconcileStackStatuses c scs w = Some (Some e, w1)"
  shows "\<exists>p \<in> set scs. \<exists>e1 w0. \<not> IsConflict e1
           \<and> failWith (refOf (Stack (snd p))) ''FailedUpdateStackStatus'' e1 w0 = (Some e, w1)"
  using assms
proof (induction scs arbitrary: w)
  case Nil
  then show ?case by simp
next
  case (Cons p scs)
  obtain k sc where p: "p = (k, sc)" by (cases p)
  show ?case
  proof (cases "retryUpdate (updateStackStatusFn c sc (GenerateStackStatus (core c) sc)) (Stack sc, w)")
    case None
    then show ?thesis using Cons.prems by (simp add: p)
  next
    case (Some y)
    obtain r stack' w' where y: "y = (r, (stack', w'))" by (cases y) auto
    show ?thesis
    proof (cases r)
      case None
      then have "reconcileStackStatuses c scs w' = Some (Some e, w1)"
        using Cons.prems Some y by (simp add: p)
      from Cons.IH[OF this] show ?thesis by auto
    next
      case (Some e1)
      have f: "failWith (refOf (Stack sc)) ''FailedUpdateStackStatus'' e1 w' = (Some e, w1)"
        using Cons.prems \<open>retryUpdate _ _ = Some y\<close> y Some by (simp add: p)
      have "\<not> IsConflict e1"
        using retryUpdateLoop_final[OF \<open>retryUpdate _ _ = Some y\<close>[unfolded retryUpdate_def]] y Some
        by auto
      then show ?thesis using f by (auto simp: p)
    qed
  qed
qed

lemma loop_sync:
  "DeepEqualStackStatus (equality c) (GenerateStackStatus (core c) sc) (Status (Stack sc)) \<longrightarrow>
      reconcileStackStatuses c ((k, sc) # rest) w = reconcileStackStatuses c rest w"
  by (simp add: stack_run_sync)

lemma loop_write:
  "\<not> DeepEqualStackStatus (equality c) (GenerateStackStatus (core c) sc) (Status (Stack sc))
      \<and> UpdateStackStatus (client c) (scNamespace sc) ((Stack sc)\<lparr>Status := GenerateStackStatus (core c) sc\<rparr>) (store w) = (Inr x, t1) \<longrightarrow>
      reconcileStackStatuses c ((k, sc) # rest) w
        = reconcileStackStatuses c rest (w\<lparr>store := t1, calls := calls w @ [Call VUpdateStatus RStacks (scNamespace sc) (Name (Meta (Stack sc)))]\<rparr>)"
  using stack_run_first[of c "GenerateStackStatus (core c) sc" "Stack sc" sc w "Inr x" t1]
  by auto

lemma loop_error:
  "\<not> DeepEqualStackStatus (equality c) (GenerateStackStatus (core c) sc) (Status (Stack sc))
      \<and> UpdateStackStatus (client c) (scNamespace sc) ((Stack sc)\<lparr>Status := GenerateStackStatus (core c) sc\<rparr>) (store w) = (Inl e, t1)
      \<and> \<not> IsConflict e \<longrightarrow>
      reconcileStackStatuses c ((k, sc) # rest) w
        = Some (failWith (refOf (Stack sc)) ''FailedUpdateStackStatus'' e
                  (w\<lparr>store := t1, calls := calls w @ [Call VUpdateStatus RStacks (scNamespace sc) (Name (Meta (Stack sc)))]\<rparr>))"
  using stack_run_first[of c "GenerateStackStatus (core c) sc" "Stack sc" sc w "Inl e" t1]
  by auto

lemma loop_refetch:
  "\<not> DeepEqualStackStatus (equality c) (GenerateStackStatus (core c) sc) (Status (Stack sc))
      \<and> UpdateStackStatus (client c) (scNamespace sc) ((Stack sc)\<lparr>Status := GenerateStackStatus (core c) sc\<rparr>) (store w) = (Inl e, t1)
      \<and> IsConflict e
      \<and> GetStack (client c) (scNamespace sc) (Name (Meta (Stack sc))) t1 = (Inr fresh, t2)
      \<and> DeepEqualStackStatus (equality c) (GenerateStackStatus (core c) sc) (Status fresh) \<longrightarrow>
      reconcileStackStatuses c ((k, sc) # rest) w
        = reconcileStackStatuses c rest
            (w\<lparr>store := t2,
               calls := calls w
                 @ [Call VUpdateStatus RStacks (scNamespace sc) (Name (Meta (Stack sc))),
                    Call VGet RStacks (scNamespace sc) (Name (Meta (Stack sc)))]\<rparr>)"
  using stack_run_refetch[of c "GenerateStackStatus (core c) sc" "Stack sc" sc w e t1 fresh t2]
  by auto

lemma loop_rewrite:
  "\<not> DeepEqualStackStatus (equality c) (GenerateStackStatus (core c) sc) (Status (Stack sc))
      \<and> UpdateStackStatus (client c) (scNamespace sc) ((Stack sc)\<lparr>Status := GenerateStackStatus (core c) sc\<rparr>) (store w) = (Inl e, t1)
      \<and> IsConflict e
      \<and> GetStack (client c) (scNamespace sc) (Name (Meta (Stack sc))) t1 = (Inr fresh, t2)
      \<and> \<not> DeepEqualStackStatus (equality c) (GenerateStackStatus (core c) sc) (Status fresh)
      \<and> UpdateStackStatus (client c) (scNamespace sc) (fresh\<lparr>Status := GenerateStackStatus (core c) sc\<rparr>) t2 = (Inr x, t3) \<longrightarrow>
      reconcileStackStatuses c ((k, sc) # rest) w
        = reconcileStackStatuses c rest
            (w\<lparr>store := t3,
               calls := calls w
                 @ [Call VUpdateStatus RStacks (scNamespace sc) (Name (Meta (Stack sc))),
                    Call VGet RStacks (scNamespace sc) (Name (Meta (Stack sc))),
                    Call VUpdateStatus RStacks (scNamespace sc) (Name (Meta fresh))]\<rparr>)"
  using stack_run_rewrite[of c "GenerateStackStatus (core c) sc" "Stack sc" sc w e t1 fresh t2 x t3]
  by auto

lemma loop_returns:
  "retryUpdate (updateStackStatusFn c sc (GenerateStackStatus (core c) sc)) (Stack sc, w) = Some (None, (fresh, w1)) \<longrightarrow>
      reconcileStackStatuses c ((k, sc) # rest) w = reconcileStackStatuses c rest w1"
  by simp

lemma loop_fails:
  "retryUpdate (updateStackStatusFn c sc (GenerateStackStatus (core c) sc)) (Stack sc, w) = Some (Some e, (fresh, w1)) \<longrightarrow>
      reconcileStackStatuses c ((k, sc) # rest) w = Some (failWith (refOf (Stack sc)) ''FailedUpdateStackStatus'' e w1)"
  by simp

lemma set_skipped:
  "reconcileStackStatuses c (StackContainers ssc) w = Some (Some e, w1) \<longrightarrow>
      ReconcileStatuses c ssc w = Some (Some e, w1)"
  by (simp add: ReconcileStatuses_def)

lemma set_sync:
  "reconcileStackStatuses c (StackContainers ssc) w = Some (None, w1)
      \<and> DeepEqualStackSetStatus (equality c) (GenerateStackSetStatus (core c) ssc) (Status (StackSet ssc)) \<longrightarrow>
      ReconcileStatuses c ssc w = Some (None, w1)"
  by (simp add: ReconcileStatuses_def stackset_run_sync)

lemma set_write:
  "reconcileStackStatuses c (StackContainers ssc) w = Some (None, w1)
      \<and> \<not> DeepEqualStackSetStatus (equality c) (GenerateStackSetStatus (core c) ssc) (Status (StackSet ssc))
      \<and> UpdateStackSetStatus (client c) (Namespace (Meta (StackSet ssc))) ((StackSet ssc)\<lparr>Status := GenerateStackSetStatus (core c) ssc\<rparr>) (store w1) = (Inr xset, t1) \<longrightarrow>
      ReconcileStatuses c ssc w
        = Some (None, w1\<lparr>store := t1, calls := calls w1 @ [Call VUpdateStatus RStackSets (Namespace (Meta (StackSet ssc))) (Name (Meta (StackSet ssc)))]\<rparr>)"
  using stackset_run_first[of c "GenerateStackSetStatus (core c) ssc" "StackSet ssc" ssc w1
      "Inr xset" t1]
  by (auto simp: ReconcileStatuses_def)

lemma set_error:
  "reconcileStackStatuses c (StackContainers ssc) w = Some (None, w1)
      \<and> \<not> DeepEqualStackSetStatus (equality c) (GenerateStackSetStatus (core c) ssc) (Status (StackSet ssc))
      \<and> UpdateStackSetStatus (client c) (Namespace (Meta (StackSet ssc))) ((StackSet ssc)\<lparr>Status := GenerateStackSetStatus (core c) ssc\<rparr>) (store w1) = (Inl e, t1)
      \<and> \<not> IsConflict e \<longrightarrow>
      ReconcileStatuses c ssc w
        = Some (failWith (refOf (StackSet ssc)) ''FailedUpdateStackSetStatus'' e
                  (w1\<lparr>store := t1, calls := calls w1 @ [Call VUpdateStatus RStackSets (Namespace (Meta (StackSet ssc))) (Name (Meta (StackSet ssc)))]\<rparr>))"
  using stackset_run_first[of c "GenerateStackSetStatus (core c) ssc" "StackSet ssc" ssc w1
      "Inl e" t1]
  by (auto simp: ReconcileStatuses_def)

lemma set_refetch:
  "reconcileStackStatuses c (StackContainers ssc) w = Some (None, w1)
      \<and> \<not> DeepEqualStackSetStatus (equality c) (GenerateStackSetStatus (core c) ssc) (Status (StackSet ssc))
      \<and> UpdateStackSetStatus (client c) (Namespace (Meta (StackSet ssc))) ((StackSet ssc)\<lparr>Status := GenerateStackSetStatus (core c) ssc\<rparr>) (store w1) = (Inl e, t1)
      \<and> IsConflict e
      \<and> GetStackSet (client c) (Namespace (Meta (StackSet ssc))) (Name (Meta (StackSet ssc))) t1 = (Inr freshset, t2)
      \<and> DeepEqualStackSetStatus (equality c) (GenerateStackSetStatus (core c) ssc) (Status freshset) \<longrightarrow>
      ReconcileStatuses c ssc w
        = Some (None,
            w1\<lparr>store := t2,
               calls := calls w1
                 @ [Call VUpdateStatus RStackSets (Namespace (Meta (StackSet ssc))) (Name (Meta (StackSet ssc))),
                    Call VGet RStackSets (Namespace (Meta (StackSet ssc))) (Name (Meta (StackSet ssc)))]\<rparr>)"
  using stackset_run_refetch[of c "GenerateStackSetStatus (core c) ssc" "StackSet ssc" ssc w1
      e t1 freshset t2]
  by (auto simp: ReconcileStatuses_def)

lemma set_rewrite:
  "reconcileStackStatuses c (StackContainers ssc) w = Some (None, w1)
      \<and> \<not> DeepEqualStackSetStatus (equality c) (GenerateStackSetStatus (core c) ssc) (Status (StackSet ssc))
      \<and> UpdateStackSetStatus (client c) (Namespace (Meta (StackSet ssc))) ((StackSet ssc)\<lparr>Status := GenerateStackSetStatus (core c) ssc\<rparr>) (store w1) = (Inl e, t1)
      \<and> IsConflict e
      \<and> GetStackSet (client c) (Namespace (Meta (StackSet ssc))) (Name (Meta (StackSet ssc))) t1 = (Inr freshset, t2)
      \<and> \<not> DeepEqualStackSetStatus (equality c) (GenerateStackSetStatus (core c) ssc) (Status freshset)
      \<and> UpdateStackSetStatus (client c) (Namespace (Meta (StackSet ssc))) (freshset\<lparr>Status := GenerateStackSetStatus (core c) ssc\<rparr>) t2 = (Inr xset, t3) \<longrightarrow>
      ReconcileStatuses c ssc w
        = Some (None,
            w1\<lparr>store := t3,
               calls := calls w1
                 @ [Call VUpdateStatus RStackSets (Namespace (Meta (StackSet ssc))) (Name (Meta (StackSet ssc))),
                    Call VGet RStackSets (Namespace (Meta (StackSet ssc))) (Name (Meta (StackSet ssc))),
                    Call VUpdateStatus RStackSets (Namespace (Meta (StackSet ssc))) (Name (Meta freshset))]\<rparr>)"
  using stackset_run_rewrite[of c "GenerateStackSetStatus (core c) ssc" "StackSet ssc" ssc w1
      e t1 freshset t2 xset t3]
  by (auto simp: ReconcileStatuses_def)

lemma set_returns:
  "reconcileStackStatuses c (StackContainers ssc) w = Some (None, w1)
      \<and> retryUpdate (updateStackSetStatusFn c ssc (GenerateStackSetStatus (core c) ssc)) (StackSet ssc, w1)
          = Some (None, (freshset, w2)) \<longrightarrow>
      ReconcileStatuses c ssc w = Some (None, w2)"
  by (simp add: ReconcileStatuses_def)

lemma set_fails:
  "reconcileStackStatuses c (StackContainers ssc) w = Some (None, w1)
      \<and> retryUpdate (updateStackSetStatusFn c ssc (GenerateStackSetStatus (core c) ssc)) (StackSet ssc, w1)
          = Some (Some e, (freshset, w2)) \<longrightarrow>
      ReconcileStatuses c ssc w
        = Some (failWith (refOf (StackSet ssc)) ''FailedUpdateStackSetStatus'' e w2)"
  by (simp add: ReconcileStatuses_def)

lemma all_sync:
  "(\<forall>p \<in> set (StackContainers ssc).
         DeepEqualStackStatus (equality c) (GenerateStackStatus (core c) (snd p))
           (Status (Stack (snd p))))
      \<and> DeepEqualStackSetStatus (equality c) (GenerateStackSetStatus (core c) ssc) (Status (StackSet ssc)) \<longrightarrow>
      ReconcileStatuses c ssc w = Some (None, w)"
  by (simp add: ReconcileStatuses_def stacks_in_sync stackset_run_sync)

lemma only_other_errors:
  "ReconcileStatuses c ssc w = Some (Some e, w1) \<longrightarrow>
      (\<exists>e1 w0. \<not> IsConflict e1
         \<and> ((\<exists>p \<in> set (StackContainers ssc).
                 failWith (refOf (Stack (snd p))) ''FailedUpdateStackStatus'' e1 w0 = (Some e, w1))
              \<or> failWith (refOf (StackSet ssc)) ''FailedUpdateStackSetStatus'' e1 w0
                   = (Some e, w1)))"
proof
  assume run: "ReconcileStatuses c ssc w = Some (Some e, w1)"
  show "\<exists>e1 w0. \<not> IsConflict e1
         \<and> ((\<exists>p \<in> set (StackContainers ssc).
                 failWith (refOf (Stack (snd p))) ''FailedUpdateStackStatus'' e1 w0 = (Some e, w1))
              \<or> failWith (refOf (StackSet ssc)) ''FailedUpdateStackSetStatus'' e1 w0
                   = (Some e, w1))"
  proof (cases "reconcileStackStatuses c (StackContainers ssc) w")
    case None
    then show ?thesis using run by (simp add: ReconcileStatuses_def)
  next
    case (Some y)
    obtain r w2 where y: "y = (r, w2)" by (cases y)
    show ?thesis
    proof (cases r)
      case (Some e2)
      then have "reconcileStackStatuses c (StackContainers ssc) w = Some (Some e, w1)"
        using run \<open>reconcileStackStatuses c (StackContainers ssc) w = Some y\<close> y
        by (simp add: ReconcileStatuses_def)
      from stacks_error[OF this] show ?thesis by blast
    next
      case None
      note stacks = \<open>reconcileStackStatuses c (StackContainers ssc) w = Some y\<close>[unfolded y None]
      show ?thesis
      proof (cases "retryUpdate (updateStackSetStatusFn c ssc (GenerateStackSetStatus (core c) ssc))
                      (StackSet ssc, w2)")
        case None
        then show ?thesis using run stacks by (simp add: ReconcileStatuses_def)
      next
        case (Some z)
        obtain r2 stackset' w3 where z: "z = (r2, (stackset', w3))" by (cases z) auto
        show ?thesis
        proof (cases r2)
          case None
          then show ?thesis using run stacks Some z by (simp add: ReconcileStatuses_def)
        next
          case (Some e1)
          have f: "failWith (refOf (StackSet ssc)) ''FailedUpdateStackSetStatus'' e1 w3 = (Some e, w1)"
            using run stacks \<open>retryUpdate _ _ = Some z\<close> z Some by (simp add: ReconcileStatuses_def)
          have "\<not> IsConflict e1"
            using retryUpdateLoop_final[OF \<open>retryUpdate _ _ = Some z\<close>[unfolded retryUpdate_def]] z Some
            by auto
          then show ?thesis using f by blast
        qed
      qed
    qed
  qed
qed

text \<open>
  Claim C3. One turn of the update function of \<open>ReconcileStatuses\<close>, for a Stack and for
  the StackSet: on a retry it fetches the object first, and a failed fetch is the error of
  the turn; it sends a status update only if the computed status differs semantically from
  the status of the object in hand (the fetched one on a retry), and otherwise sends nothing
  more and returns no error. \<open>retryUpdate\<close> goes on, with the retry flag set, exactly
  when the turn ends in a conflict, and returns otherwise. So a run that returns ends in an
  error that is no conflict, in a status update that succeeded, or with an object that
  already carries the computed status and no update after it.

  \<open>ReconcileStatuses\<close> itself, for each stack container in the order of its loop and
  then for the StackSet: an object in hand that carries the computed status gets no
  request; one that differs gets one status update, and that is all if the update succeeds;
  an update that fails without a conflict ends \<open>ReconcileStatuses\<close> with that error,
  reported as an event; after a conflict the object is fetched, and if the fetched object
  carries the computed status nothing more is sent for it, else the status is written onto
  the fetched object. If every object in hand carries its computed status,
  \<open>ReconcileStatuses\<close> sends nothing at all; and an error that it returns is never a
  conflict.
\<close>
theorem status_write_retry:
  "((updateStackStatusFn c sc status retry (stack, w) = (res, (stack', w')) \<longrightarrow>
      (retry \<and> res \<noteq> None \<and> stack' = stack
         \<and> calls w' = calls w @ [Call VGet RStacks (scNamespace sc) (Name (Meta stack))])
      \<or> (res = None \<and> DeepEqualStackStatus (equality c) status (Status stack')
         \<and> (\<not> retry \<longrightarrow> stack' = stack \<and> w' = w)
         \<and> (retry \<longrightarrow> calls w' = calls w @ [Call VGet RStacks (scNamespace sc) (Name (Meta stack))]))
      \<or> (\<exists>stack1. \<not> DeepEqualStackStatus (equality c) status (Status stack1)
           \<and> stack' = stack1\<lparr>Status := status\<rparr> \<and> (\<not> retry \<longrightarrow> stack1 = stack)
           \<and> calls w' = calls w
                @ (if retry then [Call VGet RStacks (scNamespace sc) (Name (Meta stack))] else [])
                @ [Call VUpdateStatus RStacks (scNamespace sc) (Name (Meta stack'))]))
   \<and> (updateStackSetStatusFn c ssc sstatus retry (stackset, w) = (sres, (stackset', w'')) \<longrightarrow>
      (retry \<and> sres \<noteq> None \<and> stackset' = stackset
         \<and> calls w'' = calls w @ [Call VGet RStackSets (Namespace (Meta (StackSet ssc)))
                                    (Name (Meta (StackSet ssc)))])
      \<or> (sres = None \<and> DeepEqualStackSetStatus (equality c) sstatus (Status stackset')
         \<and> (\<not> retry \<longrightarrow> stackset' = stackset \<and> w'' = w)
         \<and> (retry \<longrightarrow> calls w'' = calls w @ [Call VGet RStackSets (Namespace (Meta (StackSet ssc)))
                                                 (Name (Meta (StackSet ssc)))]))
      \<or> (\<exists>stackset1. \<not> DeepEqualStackSetStatus (equality c) sstatus (Status stackset1)
           \<and> stackset' = stackset1\<lparr>Status := sstatus\<rparr> \<and> (\<not> retry \<longrightarrow> stackset1 = stackset)
           \<and> calls w'' = calls w
                @ (if retry then [Call VGet RStackSets (Namespace (Meta (StackSet ssc)))
                                    (Name (Meta (StackSet ssc)))] else [])
                @ [Call VUpdateStatus RStackSets (Namespace (Meta (StackSet ssc)))
                     (Name (Meta stackset'))]))
   \<and> (f r s = (Some err, s1) \<and> IsConflict err \<longrightarrow>
        retryUpdateLoop f r s = retryUpdateLoop f True s1)
   \<and> (f r s = (Some err, s1) \<and> \<not> IsConflict err \<longrightarrow>
        retryUpdateLoop f r s = Some (Some err, s1))
   \<and> (f r s = (None, s1) \<longrightarrow> retryUpdateLoop f r s = Some (None, s1))
   \<and> (retryUpdate (updateStackStatusFn c sc status) (stack, w) = Some (res, (stack', w')) \<longrightarrow>
        (\<exists>e. res = Some e \<and> \<not> IsConflict e)
        \<or> (res = None \<and> DeepEqualStackStatus (equality c) status (Status stack')
             \<and> (w' = w \<or> (\<exists>name. last (calls w') = Call VGet RStacks (scNamespace sc) name)))
        \<or> (res = None \<and> Status stack' = status
             \<and> (\<exists>name. last (calls w') = Call VUpdateStatus RStacks (scNamespace sc) name)))
   \<and> (retryUpdate (updateStackSetStatusFn c ssc sstatus) (stackset, w)
          = Some (sres, (stackset', w'')) \<longrightarrow>
        (\<exists>e. sres = Some e \<and> \<not> IsConflict e)
        \<or> (sres = None \<and> DeepEqualStackSetStatus (equality c) sstatus (Status stackset')
             \<and> (w'' = w \<or> (\<exists>name. last (calls w'')
                                = Call VGet RStackSets (Namespace (Meta (StackSet ssc))) name)))
        \<or> (sres = None \<and> Status stackset' = sstatus
             \<and> (\<exists>name. last (calls w'')
                   = Call VUpdateStatus RStackSets (Namespace (Meta (StackSet ssc))) name))))
   \<and> (DeepEqualStackStatus (equality c) (GenerateStackStatus (core c) sc) (Status (Stack sc)) \<longrightarrow>
      reconcileStackStatuses c ((k, sc) # rest) w = reconcileStackStatuses c rest w)
   \<and> (\<not> DeepEqualStackStatus (equality c) (GenerateStackStatus (core c) sc) (Status (Stack sc))
      \<and> UpdateStackStatus (client c) (scNamespace sc) ((Stack sc)\<lparr>Status := GenerateStackStatus (core c) sc\<rparr>) (store w) = (Inr x, t1) \<longrightarrow>
      reconcileStackStatuses c ((k, sc) # rest) w
        = reconcileStackStatuses c rest (w\<lparr>store := t1, calls := calls w @ [Call VUpdateStatus RStacks (scNamespace sc) (Name (Meta (Stack sc)))]\<rparr>))
   \<and> (\<not> DeepEqualStackStatus (equality c) (GenerateStackStatus (core c) sc) (Status (Stack sc))
      \<and> UpdateStackStatus (client c) (scNamespace sc) ((Stack sc)\<lparr>Status := GenerateStackStatus (core c) sc\<rparr>) (store w) = (Inl e, t1)
      \<and> \<not> IsConflict e \<longrightarrow>
      reconcileStackStatuses c ((k, sc) # rest) w
        = Some (failWith (refOf (Stack sc)) ''FailedUpdateStackStatus'' e
                  (w\<lparr>store := t1, calls := calls w @ [Call VUpdateStatus RStacks (scNamespace sc) (Name (Meta (Stack sc)))]\<rparr>)))
   \<and> (\<not> DeepEqualStackStatus (equality c) (GenerateStackStatus (core c) sc) (Status (Stack sc))
      \<and> UpdateStackStatus (client c) (scNamespace sc) ((Stack sc)\<lparr>Status := GenerateStackStatus (core c) sc\<rparr>) (store w) = (Inl e, t1)
      \<and> IsConflict e
      \<and> GetStack (client c) (scNamespace sc) (Name (Meta (Stack sc))) t1 = (Inr fresh, t2)
      \<and> DeepEqualStackStatus (equality c) (GenerateStackStatus (core c) sc) (Status fresh) \<longrightarrow>
      reconcileStackStatuses c ((k, sc) # rest) w
        = reconcileStackStatuses c rest
            (w\<lparr>store := t2,
               calls := calls w
                 @ [Call VUpdateStatus RStacks (scNamespace sc) (Name (Meta (Stack sc))),
                    Call VGet RStacks (scNamespace sc) (Name (Meta (Stack sc)))]\<rparr>))
   \<and> (\<not> DeepEqualStackStatus (equality c) (GenerateStackStatus (core c) sc) (Status (Stack sc))
      \<and> UpdateStackStatus (client c) (scNamespace sc) ((Stack sc)\<lparr>Status := GenerateStackStatus (core c) sc\<rparr>) (store w) = (Inl e, t1)
      \<and> IsConflict e
      \<and> GetStack (client c) (scNamespace sc) (Name (Meta (Stack sc))) t1 = (Inr fresh, t2)
      \<and> \<not> DeepEqualStackStatus (equality c) (GenerateStackStatus (core c) sc) (Status fresh)
      \<and> UpdateStackStatus (client c) (scNamespace sc) (fresh\<lparr>Status := GenerateStackStatus (core c) sc\<rparr>) t2 = (Inr x, t3) \<longrightarrow>
      reconcileStackStatuses c ((k, sc) # rest) w
        = reconcileStackStatuses c rest
            (w\<lparr>store := t3,
               calls := calls w
                 @ [Call VUpdateStatus RStacks (scNamespace sc) (Name (Meta (Stack sc))),
                    Call VGet RStacks (scNamespace sc) (Name (Meta (Stack sc))),
                    Call VUpdateStatus RStacks (scNamespace sc) (Name (Meta fresh))]\<rparr>))
   \<and> (retryUpdate (updateStackStatusFn c sc (GenerateStackStatus (core c) sc)) (Stack sc, w) = Some (None, (fresh, w1)) \<longrightarrow>
      reconcileStackStatuses c ((k, sc) # rest) w = reconcileStackStatuses c rest w1)
   \<and> (retryUpdate (updateStackStatusFn c sc (GenerateStackStatus (core c) sc)) (Stack sc, w) = Some (Some e, (fresh, w1)) \<longrightarrow>
      reconcileStackStatuses c ((k, sc) # rest) w = Some (failWith (refOf (Stack sc)) ''FailedUpdateStackStatus'' e w1))
   \<and> (reconcileStackStatuses c (StackContainers ssc) w = Some (Some e, w1) \<longrightarrow>
      ReconcileStatuses c ssc w = Some (Some e, w1))
   \<and> (reconcileStackStatuses c (StackContainers ssc) w = Some (None, w1)
      \<and> DeepEqualStackSetStatus (equality c) (GenerateStackSetStatus (core c) ssc) (Status (StackSet ssc)) \<longrightarrow>
      ReconcileStatuses c ssc w = Some (None, w1))
   \<and> (reconcileStackStatuses c (StackContainers ssc) w = Some (None, w1)
      \<and> \<not> DeepEqualStackSetStatus (equality c) (GenerateStackSetStatus (core c) ssc) (Status (StackSet ssc))
      \<and> UpdateStackSetStatus (client c) (Namespace (Meta (StackSet ssc))) ((StackSet ssc)\<lparr>Status := GenerateStackSetStatus (core c) ssc\<rparr>) (store w1) = (Inr xset, t1) \<longrightarrow>
      ReconcileStatuses c ssc w
        = Some (None, w1\<lparr>store := t1, calls := calls w1 @ [Call VUpdateStatus RStackSets (Namespace (Meta (StackSet ssc))) (Name (Meta (StackSet ssc)))]\<rparr>))
   \<and> (reconcileStackStatuses c (StackContainers ssc) w = Some (None, w1)
      \<and> \<not> DeepEqualStackSetStatus (equality c) (GenerateStackSetStatus (core c) ssc) (Status (StackSet ssc))
      \<and> UpdateStackSetStatus (client c) (Namespace (Meta (StackSet ssc))) ((StackSet ssc)\<lparr>Status := GenerateStackSetStatus (core c) ssc\<rparr>) (store w1) = (Inl e, t1)
      \<and> \<not> IsConflict e \<longrightarrow>
      ReconcileStatuses c ssc w
        = Some (failWith (refOf (StackSet ssc)) ''FailedUpdateStackSetStatus'' e
                  (w1\<lparr>store := t1, calls := calls w1 @ [Call VUpdateStatus RStackSets (Namespace (Meta (StackSet ssc))) (Name (Meta (StackSet ssc)))]\<rparr>)))
   \<and> (reconcileStackStatuses c (StackContainers ssc) w = Some (None, w1)
      \<and> \<not> DeepEqualStackSetStatus (equality c) (GenerateStackSetStatus (core c) ssc) (Status (StackSet ssc))
      \<and> UpdateStackSetStatus (client c) (Namespace (Meta (StackSet ssc))) ((StackSet ssc)\<lparr>Status := GenerateStackSetStatus (core c) ssc\<rparr>) (store w1) = (Inl e, t1)
      \<and> IsConflict e
      \<and> GetStackSet (client c) (Namespace (Meta (StackSet ssc))) (Name (Meta (StackSet ssc))) t1 = (Inr freshset, t2)
      \<and> DeepEqualStackSetStatus (equality c) (GenerateStackSetStatus (core c) ssc) (Status freshset) \<longrightarrow>
      ReconcileStatuses c ssc w
        = Some (None,
            w1\<lparr>store := t2,
               calls := calls w1
                 @ [Call VUpdateStatus RStackSets (Namespace (Meta (StackSet ssc))) (Name (Meta (StackSet ssc))),
                    Call VGet RStackSets (Namespace (Meta (StackSet ssc))) (Name (Meta (StackSet ssc)))]\<rparr>))
   \<and> (reconcileStackStatuses c (StackContainers ssc) w = Some (None, w1)
      \<and> \<not> DeepEqualStackSetStatus (equality c) (GenerateStackSetStatus (core c) ssc) (Status (StackSet ssc))
      \<and> UpdateStackSetStatus (client c) (Namespace (Meta (StackSet ssc))) ((StackSet ssc)\<lparr>Status := GenerateStackSetStatus (core c) ssc\<rparr>) (store w1) = (Inl e, t1)
      \<and> IsConflict e
      \<and> GetStackSet (client c) (Namespace (Meta (StackSet ssc))) (Name (Meta (StackSet ssc))) t1 = (Inr freshset, t2)
      \<and> \<not> DeepEqualStackSetStatus (equality c) (GenerateStackSetStatus (core c) ssc) (Status freshset)
      \<and> UpdateStackSetStatus (client c) (Namespace (Meta (StackSet ssc))) (freshset\<lparr>Status := GenerateStackSetStatus (core c) ssc\<rparr>) t2 = (Inr xset, t3) \<longrightarrow>
      ReconcileStatuses c ssc w
        = Some (None,
            w1\<lparr>store := t3,
               calls := calls w1
                 @ [Call VUpdateStatus RStackSets (Namespace (Meta (StackSet ssc))) (Name (Meta (StackSet ssc))),
                    Call VGet RStackSets (Namespace (Meta (StackSet ssc))) (Name (Meta (StackSet ssc))),
                    Call VUpdateStatus RStackSets (Namespace (Meta (StackSet ssc))) (Name (Meta freshset))]\<rparr>))
   \<and> (reconcileStackStatuses c (StackContainers ssc) w = Some (None, w1)
      \<and> retryUpdate (updateStackSetStatusFn c ssc (GenerateStackSetStatus (core c) ssc)) (StackSet ssc, w1)
          = Some (None, (freshset, w2)) \<longrightarrow>
      ReconcileStatuses c ssc w = Some (None, w2))
   \<and> (reconcileStackStatuses c (StackContainers ssc) w = Some (None, w1)
      \<and> retryUpdate (updateStackSetStatusFn c ssc (GenerateStackSetStatus (core c) ssc)) (StackSet ssc, w1)
          = Some (Some e, (freshset, w2)) \<longrightarrow>
      ReconcileStatuses c ssc w
        = Some (failWith (refOf (StackSet ssc)) ''FailedUpdateStackSetStatus'' e w2))
   \<and> ((\<forall>p \<in> set (StackContainers ssc).
         DeepEqualStackStatus (equality c) (GenerateStackStatus (core c) (snd p))
           (Status (Stack (snd p))))
      \<and> DeepEqualStackSetStatus (equality c) (GenerateStackSetStatus (core c) ssc) (Status (StackSet ssc)) \<longrightarrow>
      ReconcileStatuses c ssc w = Some (None, w))
   \<and> (ReconcileStatuses c ssc w = Some (Some e, w1) \<longrightarrow>
      (\<exists>e1 w0. \<not> IsConflict e1
         \<and> ((\<exists>p \<in> set (StackContainers ssc).
                 failWith (refOf (Stack (snd p))) ''FailedUpdateStackStatus'' e1 w0 = (Some e, w1))
              \<or> failWith (refOf (StackSet ssc)) ''FailedUpdateStackSetStatus'' e1 w0
                   = (Some e, w1))))"
  by (rule conjI[OF turns_and_loop]) (intro conjI, rule loop_sync, rule loop_write, rule loop_error, rule loop_refetch, rule loop_rewrite, rule loop_returns, rule loop_fails, rule set_skipped, rule set_sync, rule set_write, rule set_error, rule set_refetch, rule set_rewrite, rule set_returns, rule set_fails, rule all_sync, rule only_other_errors)

lemma conflict_fields:
  "equality conflictController = plainSemantic" "client conflictController = conflictClient"
  by (simp_all add: conflictController_def demoController_def)

lemma conflict_turn1:
  "updateStackStatusFn conflictController (demoContainer staleStack False) (StackStatus ''ready'')
     False (staleStack, emptyWorld)
   = (Some (Conflict ''the object has been modified''),
      (staleStack\<lparr>Status := StackStatus ''ready''\<rparr>,
       emptyWorld\<lparr>store := 1, calls := [Call VUpdateStatus RStacks ''default'' ''shop-v1'']\<rparr>))"
  by (simp add: updateStackStatusFn_def conflict_fields plainSemantic_def invoke_def
      conflictClient_def okClient_def emptyWorld_def scNamespace_def demoContainer_def
      staleStack_def demoStack_def object_def meta_def)

lemma conflict_turn2:
  "updateStackStatusFn conflictController (demoContainer staleStack False) (StackStatus ''ready'')
     True (staleStack\<lparr>Status := StackStatus ''ready''\<rparr>,
           emptyWorld\<lparr>store := 1, calls := [Call VUpdateStatus RStacks ''default'' ''shop-v1'']\<rparr>)
   = (None,
      (shopStack,
       emptyWorld\<lparr>store := 2,
                  calls := [Call VUpdateStatus RStacks ''default'' ''shop-v1'',
                            Call VGet RStacks ''default'' ''shop-v1'']\<rparr>))"
  by (simp add: updateStackStatusFn_def conflict_fields plainSemantic_def invoke_def
      conflictClient_def okClient_def emptyWorld_def scNamespace_def demoContainer_def
      staleStack_def shopStack_def demoStack_def object_def meta_def)

lemma conflict_core:
  "GenerateStackStatus (core conflictController) sc = StackStatus ''ready''"
  "GenerateStackSetStatus (core conflictController) ssc = Status (StackSet ssc)"
  by (simp_all add: conflictController_def readyCore_def idleCore_def)

lemma stale_fields:
  "StackContainers staleContainer = [(''uid-shop-v1'', demoContainer staleStack False)]"
  "StackSet staleContainer = blueSet"
  "Stack (demoContainer staleStack False) = staleStack"
  "scNamespace (demoContainer staleStack False) = ''default''"
  "Name (Meta staleStack) = ''shop-v1''"
  "Status staleStack = StackStatus ''pending''"
  "Status shopStack = StackStatus ''ready''"
  by (simp_all add: staleContainer_def NewContainer_def demoContainer_def scNamespace_def
      staleStack_def shopStack_def demoStack_def object_def meta_def)

text \<open>
  The first update meets a conflict; the fetch shows that the stack already has the
  computed status, and the run ends after one update and one fetch: for
  \<open>retryUpdate\<close> with the update function of the stack, and for \<open>ReconcileStatuses\<close>
  on the container of the StackSet, whose own status needs no update.
\<close>
theorem status_write_retry_witness:
  "retryUpdate
     (updateStackStatusFn conflictController (demoContainer staleStack False) (StackStatus ''ready''))
     (staleStack, emptyWorld)
   = Some (None,
       (shopStack,
        emptyWorld\<lparr>store := 2,
                   calls := [Call VUpdateStatus RStacks ''default'' ''shop-v1'',
                             Call VGet RStacks ''default'' ''shop-v1'']\<rparr>))
   \<and> IsConflict (Conflict ''the object has been modified'')
   \<and> DeepEqualStackStatus (equality conflictController) (StackStatus ''ready'') (Status shopStack)
   \<and> \<not> DeepEqualStackStatus (equality conflictController)
         (GenerateStackStatus (core conflictController) (demoContainer staleStack False))
         (Status staleStack)
   \<and> ReconcileStatuses conflictController staleContainer emptyWorld
     = Some (None,
         emptyWorld\<lparr>store := 2,
                    calls := [Call VUpdateStatus RStacks ''default'' ''shop-v1'',
                              Call VGet RStacks ''default'' ''shop-v1'']\<rparr>)"
proof -
  let ?F = "updateStackStatusFn conflictController (demoContainer staleStack False) (StackStatus ''ready'')"
  let ?s1 = "(staleStack\<lparr>Status := StackStatus ''ready''\<rparr>,
       emptyWorld\<lparr>store := 1, calls := [Call VUpdateStatus RStacks ''default'' ''shop-v1'']\<rparr>)"
  let ?s2 = "(shopStack,
       emptyWorld\<lparr>store := 2,
                  calls := [Call VUpdateStatus RStacks ''default'' ''shop-v1'',
                            Call VGet RStacks ''default'' ''shop-v1'']\<rparr>)"
  let ?sc = "demoContainer staleStack False"
  let ?w2 = "emptyWorld\<lparr>store := 2,
                  calls := [Call VUpdateStatus RStacks ''default'' ''shop-v1'',
                            Call VGet RStacks ''default'' ''shop-v1'']\<rparr>"
  have a: "retryUpdateLoop ?F False (staleStack, emptyWorld) = retryUpdateLoop ?F True ?s1"
    using status_write_retry [THEN conjunct1, THEN conjunct2, THEN conjunct2, THEN conjunct1,
        of ?F False "(staleStack, emptyWorld)" "Conflict ''the object has been modified''" ?s1]
      conflict_turn1
    by simp
  have b: "retryUpdateLoop ?F True ?s1 = Some (None, ?s2)"
    using status_write_retry [THEN conjunct1, THEN conjunct2, THEN conjunct2, THEN conjunct2,
        THEN conjunct2, THEN conjunct1, of ?F True ?s1 ?s2] conflict_turn2
    by simp
  have d: "DeepEqualStackStatus (equality conflictController) (StackStatus ''ready'') (Status shopStack)"
    by (simp add: conflict_fields plainSemantic_def stale_fields)
  have n: "\<not> DeepEqualStackStatus (equality conflictController)
         (GenerateStackStatus (core conflictController) ?sc) (Status staleStack)"
    by (simp add: conflict_fields conflict_core plainSemantic_def stale_fields)
  have p: "\<not> DeepEqualStackStatus (equality conflictController)
              (GenerateStackStatus (core conflictController) ?sc) (Status (Stack ?sc))
           \<and> UpdateStackStatus (client conflictController) (scNamespace ?sc)
               ((Stack ?sc)\<lparr>Status := GenerateStackStatus (core conflictController) ?sc\<rparr>)
               (store emptyWorld)
             = (Inl (Conflict ''the object has been modified''), 1)
           \<and> IsConflict (Conflict ''the object has been modified'')
           \<and> GetStack (client conflictController) (scNamespace ?sc) (Name (Meta (Stack ?sc))) 1
             = (Inr shopStack, 2)
           \<and> DeepEqualStackStatus (equality conflictController)
               (GenerateStackStatus (core conflictController) ?sc) (Status shopStack)"
    using n d
    by (simp add: conflict_fields conflict_core stale_fields conflictClient_def okClient_def
        emptyWorld_def)
  have "reconcileStackStatuses conflictController ((''uid-shop-v1'', ?sc) # []) emptyWorld
          = reconcileStackStatuses conflictController []
              (emptyWorld\<lparr>store := 2,
                 calls := calls emptyWorld
                   @ [Call VUpdateStatus RStacks (scNamespace ?sc) (Name (Meta (Stack ?sc))),
                      Call VGet RStacks (scNamespace ?sc) (Name (Meta (Stack ?sc)))]\<rparr>)"
    by (rule mp[OF status_write_retry [THEN conjunct2, THEN conjunct2, THEN conjunct2,
          THEN conjunct2, THEN conjunct1,
          of conflictController ?sc emptyWorld "Conflict ''the object has been modified''" 1
            shopStack 2 "''uid-shop-v1''" "[]"] p])
  then have l: "reconcileStackStatuses conflictController (StackContainers staleContainer) emptyWorld
                  = Some (None, ?w2)"
    by (simp add: stale_fields emptyWorld_def)
  have q: "reconcileStackStatuses conflictController (StackContainers staleContainer) emptyWorld
             = Some (None, ?w2)
           \<and> DeepEqualStackSetStatus (equality conflictController)
               (GenerateStackSetStatus (core conflictController) staleContainer)
               (Status (StackSet staleContainer))"
    using l by (simp add: conflict_fields conflict_core plainSemantic_def)
  have r: "ReconcileStatuses conflictController staleContainer emptyWorld = Some (None, ?w2)"
    by (rule mp[OF status_write_retry [THEN conjunct2, THEN conjunct2, THEN conjunct2,
          THEN conjunct2, THEN conjunct2, THEN conjunct2, THEN conjunct2, THEN conjunct2,
          THEN conjunct2, THEN conjunct1,
          of conflictController staleContainer emptyWorld ?w2] q])
  show ?thesis using a b d n r by (simp add: retryUpdate_def stale_fields)
qed

lemma orReturn_simps:
  "orReturn (None, w) obj reason rest = rest w"
  "orReturn (Some err, w) obj reason rest = failWith obj reason err w"
  by (simp_all add: orReturn_def)

lemma runSteps_unfold:
  "runSteps obj sc [] = (\<lambda>w. (None, w))"
  "runSteps obj sc (step # rest)
     = (\<lambda>w. orReturn (runOp (snd step) sc w) obj (fst step) (runSteps obj sc rest))"
  by (rule ext, simp)+

lemma ReconcileStackResources_steps:
  "ReconcileStackResources c ssc sc w = runSteps (refOf (Stack sc)) sc (stackSteps c) w"
  by (cases "RouteGroupSupportEnabled (config c)"; cases "ConfigMapSupportEnabled (config c)";
      cases "SecretSupportEnabled (config c)"; cases "PcsSupportEnabled (config c)")
     (simp_all add: ReconcileStackResources_def stackSteps_def orReturn_simps runSteps_unfold)

lemma runSteps_stops:
  assumes "runSteps obj sc pre w = (None, w1)" and "runOp op sc w1 = (Some err, w2)"
  shows "runSteps obj sc (pre @ (reason, op) # post) w = failWith obj reason err w2"
  using assms
proof (induction pre arbitrary: w)
  case Nil
  then show ?case by (simp add: orReturn_simps)
next
  case (Cons step pre)
  obtain r wa where r: "runOp (snd step) sc w = (r, wa)" by (cases "runOp (snd step) sc w")
  show ?case
  proof (cases r)
    case None
    then show ?thesis using Cons r by (simp add: orReturn_simps)
  next
    case (Some e)
    then have "failWith obj (fst step) e wa = (None, w1)"
      using Cons.prems(1) r by (simp add: orReturn_simps)
    then show ?thesis by (simp add: failWith_def split: prod.splits)
  qed
qed

lemma runSteps_all:
  assumes "runSteps obj sc pre w = (None, w1)"
  shows "runSteps obj sc (pre @ post) w = runSteps obj sc post w1"
  using assms
proof (induction pre arbitrary: w)
  case Nil
  then show ?case by simp
next
  case (Cons step pre)
  obtain r wa where r: "runOp (snd step) sc w = (r, wa)" by (cases "runOp (snd step) sc w")
  show ?case
  proof (cases r)
    case None
    then show ?thesis using Cons r by (simp add: orReturn_simps)
  next
    case (Some e)
    then have "failWith obj (fst step) e wa = (None, w1)"
      using Cons.prems(1) r by (simp add: orReturn_simps)
    then show ?thesis by (simp add: failWith_def split: prod.splits)
  qed
qed

subsection \<open>What leaves the record of the stages alone\<close>


lemma stages_Eventf: "stages (Eventf obj ty reason msg w) = stages w"
  by (simp add: Eventf_def)

lemma stages_errorEventf: "errorEventf obj reason err w = (e, w') \<Longrightarrow> stages w' = stages w"
  by (cases err) (auto simp: stages_Eventf)

lemma stages_failWith: "failWith obj reason err w = (r, w') \<Longrightarrow> stages w' = stages w"
  by (auto simp: failWith_def split: prod.splits dest: stages_errorEventf)

lemma stages_proceed: "stages (proceed obj reason (r, w)) = stages w"
  by (cases r) (auto simp: proceed_def intro: stages_errorEventf[OF surjective_pairing])

lemma stages_runOp: "runOp op sc w = (r, w') \<Longrightarrow> stages w' = stages w"
  by (auto simp: runOp_def split: prod.splits)

lemma stages_runSteps: "runSteps obj sc steps w = (r, w') \<Longrightarrow> stages w' = stages w"
proof (induction steps arbitrary: w)
  case Nil
  then show ?case by simp
next
  case (Cons step steps)
  obtain r1 w1 where r: "runOp (snd step) sc w = (r1, w1)" by (cases "runOp (snd step) sc w")
  show ?case
  proof (cases r1)
    case None
    then show ?thesis using Cons r stages_runOp[OF r] by (simp add: orReturn_simps)
  next
    case (Some e)
    then show ?thesis
      using Cons.prems r stages_runOp[OF r] stages_failWith by (fastforce simp: orReturn_simps)
  qed
qed

lemma stages_ReconcileStackResources:
  "ReconcileStackResources c ssc sc w = (r, w') \<Longrightarrow> stages w' = stages w"
  unfolding ReconcileStackResources_steps by (rule stages_runSteps)

lemma stages_reconcileStack:
  "stages (reconcileStack c container k sc w) = stages w @ [SReconcileStackResources k]"
proof -
  obtain r w' where r: "ReconcileStackResources c container sc (enter (SReconcileStackResources k) w) = (r, w')"
    by (cases "ReconcileStackResources c container sc (enter (SReconcileStackResources k) w)")
  have a: "stages w' = stages (enter (SReconcileStackResources k) w)"
    by (rule stages_ReconcileStackResources[OF r])
  have "stages (reconcileStack c container k sc w) = stages w'"
    by (simp add: reconcileStack_def r stages_proceed)
  then show ?thesis using a by (simp add: enter_def)
qed

lemma stages_reconcileRest:
  "stages (reconcileRest c container done scs w)
     = stages w @ map (\<lambda>p. SReconcileStackResources (fst p)) (filter (\<lambda>p. fst p \<notin> set done) scs)"
proof (induction scs arbitrary: w)
  case Nil
  then show ?case by simp
next
  case (Cons p scs)
  obtain k sc where p: "p = (k, sc)" by (cases p)
  show ?case using Cons by (simp add: p stages_reconcileStack)
qed

lemma stages_reconcileInOrder:
  "reconcileInOrder c container ids w = Inr w' \<Longrightarrow>
     stages w' = stages w @ map SReconcileStackResources ids"
proof (induction ids arbitrary: w)
  case Nil
  then show ?case by simp
next
  case (Cons k ids)
  then show ?case by (auto simp: stages_reconcileStack split: option.splits)
qed


lemma reconcileInOrder_total:
  "(\<forall>k \<in> set ids. map_of (StackContainers container) k \<noteq> None) \<Longrightarrow>
     \<exists>w'. reconcileInOrder c container ids w = Inr w'"
  by (induction ids arbitrary: w) auto
































lemma failWith_reports:
  assumes "failWith obj reason err w = (r, w')"
  shows "(\<exists>x. r = Some (Evented x)) \<and> calls w' = calls w \<and> store w' = store w
         \<and> ((\<forall>x. err \<noteq> Evented x) \<longrightarrow>
               r = Some (Evented err)
               \<and> events w' = events w @ [Event obj EventTypeWarning reason (Error err)])
         \<and> ((\<exists>x. err = Evented x) \<longrightarrow> r = Some err \<and> w' = w)"
  using assms by (cases err) (auto simp: failWith_def Eventf_def)

lemma pendingDeletes_Cons:
  "pendingDeletes ((k, sc) # rest)
     = (if PendingRemoval sc
        then Call VDelete RStacks (Namespace (Meta (Stack sc))) (Name (Meta (Stack sc)))
               # pendingDeletes rest
        else pendingDeletes rest)"
  by (simp add: pendingDeletes_def)

lemma cleanupLoop_calls:
  assumes "cleanupLoop c ssc scs w = (res, w')"
  shows "(res = None \<longrightarrow> calls w' = calls w @ pendingDeletes scs)
         \<and> (res \<noteq> None \<longrightarrow>
              (\<exists>n err w1. n < length (pendingDeletes scs)
                 \<and> calls w' = calls w @ take (Suc n) (pendingDeletes scs)
                 \<and> failWith (refOf (StackSet ssc)) ''FailedDeleteStack'' err w1 = (res, w')))"
  using assms
proof (induction scs arbitrary: w)
  case Nil
  then show ?case by (simp add: pendingDeletes_def)
next
  case (Cons p scs)
  obtain k sc where p: "p = (k, sc)" by (cases p)
  show ?case
  proof (cases "PendingRemoval sc")
    case False
    then show ?thesis using Cons by (simp add: p pendingDeletes_Cons)
  next
    case True
    let ?call = "Call VDelete RStacks (Namespace (Meta (Stack sc))) (Name (Meta (Stack sc)))"
    obtain e w1 where d: "invoke ?call
                (DeleteStack (client c) (Namespace (Meta (Stack sc))) (Name (Meta (Stack sc)))) w = (e, w1)"
      by (cases "invoke ?call
                (DeleteStack (client c) (Namespace (Meta (Stack sc))) (Name (Meta (Stack sc)))) w")
    have c1: "calls w1 = calls w @ [?call]"
      using d by (auto simp: invoke_def split: prod.splits)
    show ?thesis
    proof (cases e)
      case (Some err)
      then have f: "failWith (refOf (StackSet ssc)) ''FailedDeleteStack'' err w1 = (res, w')"
        using Cons.prems True d by (simp add: p)
      have "res \<noteq> None" "calls w' = calls w1"
        using failWith_reports[OF f] by auto
      then have "0 < length (pendingDeletes (p # scs))
                 \<and> calls w' = calls w @ take (Suc 0) (pendingDeletes (p # scs))
                 \<and> failWith (refOf (StackSet ssc)) ''FailedDeleteStack'' err w1 = (res, w')"
        using c1 f True by (simp add: p pendingDeletes_Cons)
      then show ?thesis using \<open>res \<noteq> None\<close> by blast
    next
      case None
      let ?w2 = "Eventf (refOf (StackSet ssc)) EventTypeNormal ''DeletedExcessStack''
                  (''Deleted excess stack '' @ Name (Meta (Stack sc))) w1"
      have r: "cleanupLoop c ssc scs ?w2 = (res, w')"
        using Cons.prems True d None by (simp add: p)
      have c2: "calls ?w2 = calls w @ [?call]" using c1 by (simp add: Eventf_def)
      note IH = Cons.IH[OF r]
      show ?thesis
      proof (cases res)
        case None
        then show ?thesis using IH c2 True by (simp add: p pendingDeletes_Cons)
      next
        case (Some e')
        then obtain n err w0 where
          n: "n < length (pendingDeletes scs)"
             "calls w' = calls ?w2 @ take (Suc n) (pendingDeletes scs)"
             "failWith (refOf (StackSet ssc)) ''FailedDeleteStack'' err w0 = (res, w')"
          using IH by auto
        have "Suc n < length (pendingDeletes (p # scs))
                \<and> calls w' = calls w @ take (Suc (Suc n)) (pendingDeletes (p # scs))
                \<and> failWith (refOf (StackSet ssc)) ''FailedDeleteStack'' err w0 = (res, w')"
          using n c2 True by (simp add: p pendingDeletes_Cons)
        then show ?thesis using Some by blast
      qed
    qed
  qed
qed

text \<open>
  Claim C6, as the code has it. \<open>CleanupOldStacks\<close> sends the delete requests of the
  stack containers flagged PendingRemoval in the order of its loop. If none fails, all of
  them are sent. The first that fails goes through \<open>errorEventf\<close>, which records a
  warning event unless the error was reported before, and \<open>CleanupOldStacks\<close> returns at
  once: the requests sent are those up to and including the failed one, and the stacks
  after it get none.
\<close>
theorem cleanup_stops_at_first_failure:
  "(CleanupOldStacks c ssc w = (res, w') \<longrightarrow>
      (res = None \<longrightarrow> calls w' = calls w @ pendingDeletes (StackContainers ssc))
      \<and> (res \<noteq> None \<longrightarrow>
           (\<exists>n err w1. n < length (pendingDeletes (StackContainers ssc))
              \<and> calls w' = calls w @ take (Suc n) (pendingDeletes (StackContainers ssc))
              \<and> failWith (refOf (StackSet ssc)) ''FailedDeleteStack'' err w1 = (res, w')
              \<and> (\<exists>x. res = Some (Evented x)) \<and> calls w1 = calls w'
              \<and> ((\<forall>x. err \<noteq> Evented x) \<longrightarrow>
                    events w' = events w1
                      @ [Event (refOf (StackSet ssc)) EventTypeWarning ''FailedDeleteStack''
                           (Error err)]))))
   \<and> (PendingRemoval sc
        \<and> DeleteStack (client c) (Namespace (Meta (Stack sc))) (Name (Meta (Stack sc))) (store w)
            = (Some err', s') \<longrightarrow>
        cleanupLoop c ssc ((k, sc) # rest) w
          = failWith (refOf (StackSet ssc)) ''FailedDeleteStack'' err'
              (w\<lparr>store := s',
                 calls := calls w @ [Call VDelete RStacks (Namespace (Meta (Stack sc)))
                                       (Name (Meta (Stack sc)))]\<rparr>))"
proof (intro conjI impI)
  assume run: "CleanupOldStacks c ssc w = (res, w')"
  note cl = cleanupLoop_calls[OF run[unfolded CleanupOldStacks_def]]
  show "res = None \<Longrightarrow> calls w' = calls w @ pendingDeletes (StackContainers ssc)"
    using cl by simp
  assume "res \<noteq> None"
  then obtain n err w1 where
    n: "n < length (pendingDeletes (StackContainers ssc))"
       "calls w' = calls w @ take (Suc n) (pendingDeletes (StackContainers ssc))"
       "failWith (refOf (StackSet ssc)) ''FailedDeleteStack'' err w1 = (res, w')"
    using cl by blast
  have "(\<exists>x. res = Some (Evented x)) \<and> calls w1 = calls w'
        \<and> ((\<forall>x. err \<noteq> Evented x) \<longrightarrow>
              events w' = events w1
                @ [Event (refOf (StackSet ssc)) EventTypeWarning ''FailedDeleteStack'' (Error err)])"
    using failWith_reports[OF n(3)] by simp
  then show "\<exists>n err w1. n < length (pendingDeletes (StackContainers ssc))
              \<and> calls w' = calls w @ take (Suc n) (pendingDeletes (StackContainers ssc))
              \<and> failWith (refOf (StackSet ssc)) ''FailedDeleteStack'' err w1 = (res, w')
              \<and> (\<exists>x. res = Some (Evented x)) \<and> calls w1 = calls w'
              \<and> ((\<forall>x. err \<noteq> Evented x) \<longrightarrow>
                    events w' = events w1
                      @ [Event (refOf (StackSet ssc)) EventTypeWarning ''FailedDeleteStack''
                           (Error err)])"
    using n by blast
next
  assume "PendingRemoval sc
        \<and> DeleteStack (client c) (Namespace (Meta (Stack sc))) (Name (Meta (Stack sc))) (store w)
            = (Some err', s')"
  then show "cleanupLoop c ssc ((k, sc) # rest) w
          = failWith (refOf (StackSet ssc)) ''FailedDeleteStack'' err'
              (w\<lparr>store := s',
                 calls := calls w @ [Call VDelete RStacks (Namespace (Meta (Stack sc)))
                                       (Name (Meta (Stack sc)))]\<rparr>)"
    by (simp add: invoke_def)
qed

lemma demo_stack_names:
  "Name (Meta shopStack) = ''shop-v1''" "Namespace (Meta shopStack) = ''default''"
  "Name (Meta shopStack2) = ''shop-v2''" "Namespace (Meta shopStack2) = ''default''"
  "Kind shopStack = ''Stack''" "Kind shopStack2 = ''Stack''"
  "refOf blueSet = ObjectRef ''StackSet'' ''default'' ''shop''"
  by (simp_all add: shopStack_def shopStack2_def demoStack_def blueSet_def demoStackSet_def
      object_def meta_def refOf_def)

lemma twoStacks_fields:
  "StackContainers (twoStacks b)
     = [(''uid-shop-v1'', demoContainer shopStack b), (''uid-shop-v2'', demoContainer shopStack2 b)]"
  "StackSet (twoStacks b) = blueSet"
  by (simp_all add: twoStacks_def NewContainer_def)

lemma keeping_cleanup:
  "CleanupOldStacks keepingController (twoStacks True) emptyWorld
     = (Some (Evented (Failure ''forbidden'')),
        emptyWorld\<lparr>store := 1, calls := [Call VDelete RStacks ''default'' ''shop-v1''],
          events := [Event (ObjectRef ''StackSet'' ''default'' ''shop'') EventTypeWarning
                       ''FailedDeleteStack'' ''forbidden'']\<rparr>)"
  by (simp add: CleanupOldStacks_def twoStacks_fields demoContainer_def demo_stack_names
      invoke_def keepingController_def keepingClient_def okClient_def demoController_def
      failWith_def Eventf_def emptyWorld_def)

text \<open>
  Claim C6 as stated fails: two stacks are flagged, the deletion of the first is refused,
  and the second gets no delete request in this run.
\<close>
theorem cleanup_all_pending_counterexample:
  "PendingRemoval (demoContainer shopStack True) \<and> PendingRemoval (demoContainer shopStack2 True)
   \<and> StackContainers (twoStacks True)
       = [(''uid-shop-v1'', demoContainer shopStack True),
          (''uid-shop-v2'', demoContainer shopStack2 True)]
   \<and> CleanupOldStacks keepingController (twoStacks True) emptyWorld
     = (Some (Evented (Failure ''forbidden'')),
        emptyWorld\<lparr>store := 1, calls := [Call VDelete RStacks ''default'' ''shop-v1''],
          events := [Event (ObjectRef ''StackSet'' ''default'' ''shop'') EventTypeWarning
                       ''FailedDeleteStack'' ''forbidden'']\<rparr>)"
  using keeping_cleanup by (simp add: twoStacks_fields demoContainer_def)

text \<open>
  With a server that deletes everything both stacks get their request; with the one that
  keeps \<open>shop-v1\<close> the run ends at the first request.
\<close>
theorem cleanup_stops_at_first_failure_witness:
  "CleanupOldStacks demoController (twoStacks True) emptyWorld
     = (None,
        emptyWorld\<lparr>store := 2,
          calls := [Call VDelete RStacks ''default'' ''shop-v1'',
                    Call VDelete RStacks ''default'' ''shop-v2''],
          events := [Event (ObjectRef ''StackSet'' ''default'' ''shop'') EventTypeNormal
                       ''DeletedExcessStack'' ''Deleted excess stack shop-v1'',
                     Event (ObjectRef ''StackSet'' ''default'' ''shop'') EventTypeNormal
                       ''DeletedExcessStack'' ''Deleted excess stack shop-v2'']\<rparr>)
   \<and> pendingDeletes (StackContainers (twoStacks True))
       = [Call VDelete RStacks ''default'' ''shop-v1'', Call VDelete RStacks ''default'' ''shop-v2'']
   \<and> fst (CleanupOldStacks keepingController (twoStacks True) emptyWorld)
       = Some (Evented (Failure ''forbidden''))
   \<and> calls (snd (CleanupOldStacks keepingController (twoStacks True) emptyWorld))
       = [Call VDelete RStacks ''default'' ''shop-v1'']"
proof -
  have ok: "CleanupOldStacks demoController (twoStacks True) emptyWorld
     = (None,
        emptyWorld\<lparr>store := 2,
          calls := [Call VDelete RStacks ''default'' ''shop-v1'',
                    Call VDelete RStacks ''default'' ''shop-v2''],
          events := [Event (ObjectRef ''StackSet'' ''default'' ''shop'') EventTypeNormal
                       ''DeletedExcessStack'' ''Deleted excess stack shop-v1'',
                     Event (ObjectRef ''StackSet'' ''default'' ''shop'') EventTypeNormal
                       ''DeletedExcessStack'' ''Deleted excess stack shop-v2'']\<rparr>)"
    by (simp add: CleanupOldStacks_def twoStacks_fields demoContainer_def demo_stack_names
        invoke_def okClient_def demoController_def Eventf_def emptyWorld_def)
  have "calls (emptyWorld\<lparr>store := 2,
          calls := [Call VDelete RStacks ''default'' ''shop-v1'',
                    Call VDelete RStacks ''default'' ''shop-v2''],
          events := [Event (ObjectRef ''StackSet'' ''default'' ''shop'') EventTypeNormal
                       ''DeletedExcessStack'' ''Deleted excess stack shop-v1'',
                     Event (ObjectRef ''StackSet'' ''default'' ''shop'') EventTypeNormal
                       ''DeletedExcessStack'' ''Deleted excess stack shop-v2'']\<rparr>)
          = calls emptyWorld @ pendingDeletes (StackContainers (twoStacks True))"
    using cleanup_stops_at_first_failure [THEN conjunct1, rule_format, OF ok] by simp
  then have "pendingDeletes (StackContainers (twoStacks True))
       = [Call VDelete RStacks ''default'' ''shop-v1'', Call VDelete RStacks ''default'' ''shop-v2'']"
    by (simp add: emptyWorld_def)
  then show ?thesis using ok keeping_cleanup by simp
qed

lemma reconcileStack_evented:
  assumes "ReconcileStackResources c container sc (enter (SReconcileStackResources k) w)
             = (Some (Evented x), w3)"
  shows "reconcileStack c container k sc w = w3"
  using assms by (simp add: reconcileStack_def proceed_def)

text \<open>
  Claim C5, as the code has it. \<open>ReconcileStackResources\<close> runs the reconcilers of the
  resource kinds of one stack in the order of \<open>stackSteps\<close>. When one of them fails after
  the ones before it went through, the failure goes through \<open>errorEventf\<close>, which records
  a warning event on the Stack unless the error was reported before, and
  \<open>ReconcileStackResources\<close> returns at once: it sends nothing more, so the kinds after the
  failed one are not reconciled for that stack in this tick. The loops of
  \<open>ReconcileStackSet\<close> over the stacks take the returned error, report it once, and go on:
  every stack container gets its turn, whatever the turns before it returned.
\<close>
theorem convergence_stops_at_first_failure:
  "(stackSteps c = pre @ (reason, op) # post
      \<and> runSteps (refOf (Stack sc)) sc pre w = (None, w1)
      \<and> runOp op sc w1 = (Some err, w2) \<longrightarrow>
      ReconcileStackResources c ssc sc w = failWith (refOf (Stack sc)) reason err w2
      \<and> calls (snd (ReconcileStackResources c ssc sc w)) = calls w2
      \<and> store (snd (ReconcileStackResources c ssc sc w)) = store w2
      \<and> (\<exists>x. fst (ReconcileStackResources c ssc sc w) = Some (Evented x))
      \<and> ((\<forall>x. err \<noteq> Evented x) \<longrightarrow>
            events (snd (ReconcileStackResources c ssc sc w))
              = events w2 @ [Event (refOf (Stack sc)) EventTypeWarning reason (Error err)]))
   \<and> (ReconcileStackResources c container sc (enter (SReconcileStackResources k) w)
        = (Some (Evented x), w3) \<longrightarrow> reconcileStack c container k sc w = w3)
   \<and> (k \<notin> set reconciled \<longrightarrow>
        reconcileRest c container reconciled ((k, sc) # rest) w
          = reconcileRest c container reconciled rest (reconcileStack c container k sc w))
   \<and> (map_of (StackContainers container) k = Some sc \<longrightarrow>
        reconcileInOrder c container (k # ids) w
          = reconcileInOrder c container ids (reconcileStack c container k sc w))
   \<and> stages (reconcileRest c container reconciled scs w)
       = stages w @ map (\<lambda>p. SReconcileStackResources (fst p))
                      (filter (\<lambda>p. fst p \<notin> set reconciled) scs)
   \<and> (reconcileInOrder c container ids w = Inr w' \<longrightarrow>
        stages w' = stages w @ map SReconcileStackResources ids)"
proof (intro conjI impI)
  assume a: "stackSteps c = pre @ (reason, op) # post
      \<and> runSteps (refOf (Stack sc)) sc pre w = (None, w1)
      \<and> runOp op sc w1 = (Some err, w2)"
  have r: "ReconcileStackResources c ssc sc w = failWith (refOf (Stack sc)) reason err w2"
    using a runSteps_stops[of "refOf (Stack sc)" sc pre w w1 op err w2 reason post]
    by (simp add: ReconcileStackResources_steps)
  show "ReconcileStackResources c ssc sc w = failWith (refOf (Stack sc)) reason err w2"
    by (rule r)
  obtain e w4 where f: "failWith (refOf (Stack sc)) reason err w2 = (e, w4)"
    by (cases "failWith (refOf (Stack sc)) reason err w2")
  note fr = failWith_reports[OF f]
  show "calls (snd (ReconcileStackResources c ssc sc w)) = calls w2"
    using fr by (simp add: r f)
  show "store (snd (ReconcileStackResources c ssc sc w)) = store w2"
    using fr by (simp add: r f)
  show "\<exists>x. fst (ReconcileStackResources c ssc sc w) = Some (Evented x)"
    using fr by (simp add: r f)
  show "events (snd (ReconcileStackResources c ssc sc w))
          = events w2 @ [Event (refOf (Stack sc)) EventTypeWarning reason (Error err)]"
    if "\<forall>x. err \<noteq> Evented x"
    using fr that by (simp add: r f)
next
  assume "ReconcileStackResources c container sc (enter (SReconcileStackResources k) w)
        = (Some (Evented x), w3)"
  then show "reconcileStack c container k sc w = w3" by (rule reconcileStack_evented)
next
  assume "k \<notin> set reconciled"
  then show "reconcileRest c container reconciled ((k, sc) # rest) w
          = reconcileRest c container reconciled rest (reconcileStack c container k sc w)"
    by simp
next
  assume "map_of (StackContainers container) k = Some sc"
  then show "reconcileInOrder c container (k # ids) w
          = reconcileInOrder c container ids (reconcileStack c container k sc w)"
    by simp
next
  show "stages (reconcileRest c container reconciled scs w)
       = stages w @ map (\<lambda>p. SReconcileStackResources (fst p))
                      (filter (\<lambda>p. fst p \<notin> set reconciled) scs)"
    by (rule stages_reconcileRest)
next
  assume "reconcileInOrder c container ids w = Inr w'"
  then show "stages w' = stages w @ map SReconcileStackResources ids"
    by (rule stages_reconcileInOrder)
qed

lemma refused_fields:
  "config refusedController = demoConfig"
  "stackops refusedController = refusedOps"
  by (simp_all add: refusedController_def demoController_def)

lemma refused_steps:
  "stackSteps refusedController
     = [] @ (''FailedManageIngress'', opRefuses ''shop-v1'' RIngresses)
          # [(''FailedManageIngressSegment'', opOk RIngresses),
             (''FailedManageDeployment'', opOk RDeployments),
             (''FailedManageHPA'', opOk RHorizontalPodAutoscalers),
             (''FailedManageService'', opOk RServices)]"
  by (simp add: stackSteps_def refused_fields demoConfig_def refusedOps_def okOps_def)

lemma demoContainer_Stack: "Stack (demoContainer s p) = s"
  by (simp add: demoContainer_def)

lemma refused_op:
  "runOp (opRefuses ''shop-v1'' RIngresses) (demoContainer shopStack False) w
     = (Some (Failure ''refused''),
        w\<lparr>store := Suc (store w),
          calls := calls w @ [Call VUpdate RIngresses ''default'' ''shop-v1''],
          events := events w @ []\<rparr>)"
  by (simp add: runOp_def opRefuses_def opFails_def scName_def scNamespace_def demoContainer_def
      demo_stack_names)

lemma refused_stack:
  "ReconcileStackResources refusedController ssc (demoContainer shopStack False) w
     = (Some (Evented (Failure ''refused'')),
        w\<lparr>store := Suc (store w),
          calls := calls w @ [Call VUpdate RIngresses ''default'' ''shop-v1''],
          events := events w @ [Event (ObjectRef ''Stack'' ''default'' ''shop-v1'')
                                  EventTypeWarning ''FailedManageIngress'' ''refused'']\<rparr>)"
  by (simp add: ReconcileStackResources_steps refused_steps orReturn_simps refused_op
      failWith_def Eventf_def refOf_def demoContainer_Stack demo_stack_names)

lemma accepted_stack:
  "ReconcileStackResources refusedController ssc (demoContainer shopStack2 False) w
     = (None,
        w\<lparr>store := store w + 5,
          calls := calls w
            @ [Call VUpdate RIngresses ''default'' ''shop-v2'',
               Call VUpdate RIngresses ''default'' ''shop-v2'',
               Call VUpdate RDeployments ''default'' ''shop-v2'',
               Call VUpdate RHorizontalPodAutoscalers ''default'' ''shop-v2'',
               Call VUpdate RServices ''default'' ''shop-v2'']\<rparr>)"
  by (simp add: ReconcileStackResources_steps refused_steps orReturn_simps runOp_def
      opRefuses_def opOk_def scName_def scNamespace_def demoContainer_def demo_stack_names)

text \<open>
  Claim C5 as stated fails: the reconciler of the ingress of \<open>shop-v1\<close> is refused, and
  the five reconcilers that a run without failure calls for the stack shrink to that one:
  the ingress segment, the deployment, the autoscaler and the service get no request.
\<close>
theorem sibling_kinds_counterexample:
  "map fst (stackSteps refusedController)
     = [''FailedManageIngress'', ''FailedManageIngressSegment'', ''FailedManageDeployment'',
        ''FailedManageHPA'', ''FailedManageService'']
   \<and> ReconcileStackResources refusedController (twoStacks False) (demoContainer shopStack False)
       emptyWorld
     = (Some (Evented (Failure ''refused'')),
        emptyWorld\<lparr>store := 1, calls := [Call VUpdate RIngresses ''default'' ''shop-v1''],
          events := [Event (ObjectRef ''Stack'' ''default'' ''shop-v1'') EventTypeWarning
                       ''FailedManageIngress'' ''refused'']\<rparr>)"
  by (simp add: refused_steps refused_stack emptyWorld_def)

text \<open>
  The same failure against the theorem, and the loop over both stacks of \<open>shop\<close>: the
  second stack is reconciled in full after the first one failed.
\<close>
theorem convergence_stops_at_first_failure_witness:
  "ReconcileStackResources refusedController (twoStacks False) (demoContainer shopStack False)
       emptyWorld
     = failWith (ObjectRef ''Stack'' ''default'' ''shop-v1'') ''FailedManageIngress''
         (Failure ''refused'')
         (emptyWorld\<lparr>store := 1, calls := [Call VUpdate RIngresses ''default'' ''shop-v1'']\<rparr>)
   \<and> reconcileRest refusedController (twoStacks False) [] (StackContainers (twoStacks False))
       emptyWorld
     = emptyWorld\<lparr>store := 6,
         calls := [Call VUpdate RIngresses ''default'' ''shop-v1'',
                   Call VUpdate RIngresses ''default'' ''shop-v2'',
                   Call VUpdate RIngresses ''default'' ''shop-v2'',
                   Call VUpdate RDeployments ''default'' ''shop-v2'',
                   Call VUpdate RHorizontalPodAutoscalers ''default'' ''shop-v2'',
                   Call VUpdate RServices ''default'' ''shop-v2''],
         events := [Event (ObjectRef ''Stack'' ''default'' ''shop-v1'') EventTypeWarning
                      ''FailedManageIngress'' ''refused''],
         stages := [SReconcileStackResources ''uid-shop-v1'',
                    SReconcileStackResources ''uid-shop-v2'']\<rparr>"
proof -
  let ?sc = "demoContainer shopStack False"
  let ?w2 = "emptyWorld\<lparr>store := Suc (store emptyWorld),
          calls := calls emptyWorld @ [Call VUpdate RIngresses ''default'' ''shop-v1''],
          events := events emptyWorld @ []\<rparr>"
  have pre: "runSteps (refOf (Stack ?sc)) ?sc [] emptyWorld = (None, emptyWorld)" by simp
  have "ReconcileStackResources refusedController (twoStacks False) ?sc emptyWorld
          = failWith (refOf (Stack ?sc)) ''FailedManageIngress'' (Failure ''refused'') ?w2"
    using convergence_stops_at_first_failure [THEN conjunct1, rule_format, THEN conjunct1,
        of refusedController "[]" "''FailedManageIngress''" "opRefuses ''shop-v1'' RIngresses"
        _ ?sc emptyWorld emptyWorld "Failure ''refused''" ?w2 "twoStacks False"]
      refused_steps pre refused_op[of emptyWorld]
    by blast
  then have a: "ReconcileStackResources refusedController (twoStacks False) ?sc emptyWorld
     = failWith (ObjectRef ''Stack'' ''default'' ''shop-v1'') ''FailedManageIngress''
         (Failure ''refused'')
         (emptyWorld\<lparr>store := 1, calls := [Call VUpdate RIngresses ''default'' ''shop-v1'']\<rparr>)"
    by (simp add: refOf_def demoContainer_Stack demo_stack_names emptyWorld_def)
  have b: "reconcileRest refusedController (twoStacks False) [] (StackContainers (twoStacks False))
       emptyWorld
     = emptyWorld\<lparr>store := 6,
         calls := [Call VUpdate RIngresses ''default'' ''shop-v1'',
                   Call VUpdate RIngresses ''default'' ''shop-v2'',
                   Call VUpdate RIngresses ''default'' ''shop-v2'',
                   Call VUpdate RDeployments ''default'' ''shop-v2'',
                   Call VUpdate RHorizontalPodAutoscalers ''default'' ''shop-v2'',
                   Call VUpdate RServices ''default'' ''shop-v2''],
         events := [Event (ObjectRef ''Stack'' ''default'' ''shop-v1'') EventTypeWarning
                      ''FailedManageIngress'' ''refused''],
         stages := [SReconcileStackResources ''uid-shop-v1'',
                    SReconcileStackResources ''uid-shop-v2'']\<rparr>"
    by (simp add: twoStacks_fields reconcileStack_def refused_stack accepted_stack proceed_def
        enter_def emptyWorld_def)
  show ?thesis using a b by simp
qed

end
